(* ===== verification/Niu_Prelude.thy ===== *)
theory Niu_Prelude
  imports Main "HOL-Library.Word" "HOL-Library.AList" "HOL-Library.Multiset"
begin

text \<open>
  Shared vocabulary of the development: Go's machine integers, errors and panics, Go's
  built-in \<^verbatim>\<open>map\<close> with its unspecified iteration order, and the generic lemmas the
  component theories use.
\<close>

unbundle bit_operations_syntax

section \<open>Machine integers\<close>

text \<open>
  Go's \<^verbatim>\<open>int\<close> is 64 bits wide on the platforms the library targets. Signed values are
  words read through \<^const>\<open>sint\<close>; \<open>>>\<close> on a signed value is \<^const>\<open>signed_drop_bit\<close>.
\<close>

type_synonym byte = "8 word"
type_synonym bytes = "8 word list"
type_synonym int8 = "8 word"
type_synonym int32 = "32 word"
type_synonym int64 = "64 word"
type_synonym go_int = "64 word"

section \<open>Errors and panics\<close>

text \<open>
  \<^verbatim>\<open>error\<close> values carry a message; a function that returns \<^verbatim>\<open>(T, error)\<close> returns a
  \<open>go_error + 'a\<close>. A function that can panic returns an \<open>outcome\<close>.
\<close>

datatype go_error = Err string

datatype 'a outcome = Ret 'a | Panic string

text \<open>
  A call that returns \<^verbatim>\<open>(T, error)\<close> and can also panic. \<open>bind_call\<close> is the pattern
  \<^verbatim>\<open>x, err := f(); if err != nil { return nil, err }\<close>, which a panic passes through.
\<close>

datatype 'a call = Ok 'a | Error go_error | Panics string

fun bind_call :: "'a call \<Rightarrow> ('a \<Rightarrow> 'b call) \<Rightarrow> 'b call" where
  "bind_call (Ok x) f = f x"
| "bind_call (Error e) f = Error e"
| "bind_call (Panics m) f = Panics m"

fun of_sum :: "go_error + 'a \<Rightarrow> 'a call" where
  "of_sum (Inl e) = Error e"
| "of_sum (Inr x) = Ok x"

lemma bind_call_Ok_iff: "bind_call c f = Ok y \<longleftrightarrow> (\<exists>x. c = Ok x \<and> f x = Ok y)"
  by (cases c) auto

lemma bind_call_Panics_iff:
  "bind_call c f = Panics m \<longleftrightarrow> c = Panics m \<or> (\<exists>x. c = Ok x \<and> f x = Panics m)"
  by (cases c) auto

lemma of_sum_Ok_iff [simp]: "of_sum r = Ok x \<longleftrightarrow> r = Inr x"
  by (cases r) auto

lemma of_sum_not_Panics [simp]: "of_sum r \<noteq> Panics m"
  by (cases r) auto

section \<open>Go maps\<close>

text \<open>
  A Go \<^verbatim>\<open>map\<close> is an association list without repeated keys. Assignment and
  \<^verbatim>\<open>delete\<close> are \<^const>\<open>AList.update\<close> and \<^const>\<open>AList.delete\<close>. The language leaves the
  order of \<^verbatim>\<open>range\<close> over a map open, so a loop over a map takes that order as an
  argument \<open>ord\<close>, about which only \<open>iteration_order\<close> is known.
\<close>

type_synonym ('k, 'v) gomap = "('k \<times> 'v) list"

definition gomap_wf :: "('k, 'v) gomap \<Rightarrow> bool" where
  "gomap_wf m \<longleftrightarrow> distinct (map fst m)"

definition iteration_order :: "('k list \<Rightarrow> 'k list) \<Rightarrow> bool" where
  "iteration_order ord \<longleftrightarrow> (\<forall>ks. mset (ord ks) = mset ks)"

named_theorems gomap_simps "facts about Go maps the component proofs rewrite with"

lemma gomap_wf_Nil [gomap_simps, simp]: "gomap_wf []"
  by (simp add: gomap_wf_def)

lemma gomap_wf_update [gomap_simps]: "gomap_wf m \<Longrightarrow> gomap_wf (AList.update k v m)"
  by (simp add: gomap_wf_def distinct_update)

lemma gomap_wf_delete [gomap_simps]: "gomap_wf m \<Longrightarrow> gomap_wf (AList.delete k m)"
  by (simp add: gomap_wf_def distinct_delete)

lemma gomap_keys_update [gomap_simps]:
  "fst ` set (AList.update k v m) = insert k (fst ` set m)"
  by (simp add: dom_update)

lemma gomap_keys_delete [gomap_simps]: "fst ` set (AList.delete k m) = fst ` set m - {k}"
  by (auto simp: AList.delete_eq)

lemma gomap_length [gomap_simps]: "gomap_wf m \<Longrightarrow> length m = card (fst ` set m)"
  by (metis gomap_wf_def distinct_card length_map set_map)

lemma gomap_get_None_iff: "map_of m k = None \<longleftrightarrow> k \<notin> fst ` set m"
  by (rule map_of_eq_None_iff)

lemma iteration_order_set: "iteration_order ord \<Longrightarrow> set (ord ks) = set ks"
  by (metis iteration_order_def set_mset_mset)

lemma iteration_order_distinct: "iteration_order ord \<Longrightarrow> distinct (ord ks) = distinct ks"
  by (metis iteration_order_def mset_eq_imp_distinct_iff)

lemma iteration_order_length: "iteration_order ord \<Longrightarrow> length (ord ks) = length ks"
  by (metis iteration_order_def size_mset)

lemma iteration_order_rev: "iteration_order rev"
  by (simp add: iteration_order_def)

lemma iteration_order_id: "iteration_order (\<lambda>ks. ks)"
  by (simp add: iteration_order_def)

section \<open>Generic lemmas\<close>

lemma of_nat_word_eq_0_iff:
  "n < 2 ^ 64 \<Longrightarrow> (of_nat n :: 64 word) = 0 \<longleftrightarrow> n = 0"
  by (auto simp: word_of_nat_eq_0_iff dest: dvd_imp_le)

lemma filter_partition_mset:
  "mset (filter P xs) + mset (filter (\<lambda>x. \<not> P x) xs) = mset xs"
  by (induction xs) auto

end
