(* ===== verification/Collection_Spec.thy ===== *)
theory Collection_Spec
  imports Niu_Prelude
begin

text \<open>
  What the containers of \<^verbatim>\<open>collection_*.go\<close> have in common: the operations'
  results, the heap their nodes live in, and the locale \<open>collection\<close> that says that a
  concrete container behaves as an abstract one under every sequence of calls.
\<close>

section \<open>The heap\<close>

text \<open>
  \<^verbatim>\<open>fastQueueNode\<close> and \<^verbatim>\<open>fastStackNode\<close> have the same two fields: a pointer to
  the value and a pointer to the next node. \<open>None\<close> is \<^verbatim>\<open>nil\<close>. Values live in cells of
  their own, because the containers keep pointers \<^verbatim>\<open>*T\<close>, not values.
\<close>

record node =
  node_value :: "nat option"
  node_next :: "nat option"

record 'a heap =
  cells :: "nat \<Rightarrow> 'a option"
  nodes :: "nat \<Rightarrow> node option"
  fresh :: nat

definition empty_heap :: "'a heap" where
  "empty_heap = \<lparr>cells = Map.empty, nodes = Map.empty, fresh = 0\<rparr>"

definition new_cell :: "'a \<Rightarrow> 'a heap \<Rightarrow> nat \<times> 'a heap" where
  "new_cell v h = (fresh h, h\<lparr>cells := (cells h)(fresh h \<mapsto> v), fresh := Suc (fresh h)\<rparr>)"

definition new_node :: "nat option \<Rightarrow> nat option \<Rightarrow> 'a heap \<Rightarrow> nat \<times> 'a heap" where
  "new_node val nxt h =
     (fresh h, h\<lparr>nodes := (nodes h)(fresh h \<mapsto> \<lparr>node_value = val, node_next = nxt\<rparr>),
                fresh := Suc (fresh h)\<rparr>)"

definition set_next :: "nat \<Rightarrow> nat option \<Rightarrow> 'a heap \<Rightarrow> 'a heap" where
  "set_next l nxt h = h\<lparr>nodes := (nodes h)(l := map_option (\<lambda>n. n\<lparr>node_next := nxt\<rparr>) (nodes h l))\<rparr>"

definition next_of :: "'a heap \<Rightarrow> nat \<Rightarrow> nat option" where
  "next_of h a = Option.bind (nodes h a) node_next"

definition value_of :: "'a heap \<Rightarrow> nat \<Rightarrow> nat option" where
  "value_of h a = Option.bind (nodes h a) node_value"

text \<open>Reading through a \<^verbatim>\<open>*T\<close>: \<open>None\<close> when the pointer is \<^verbatim>\<open>nil\<close>.\<close>

definition deref :: "'a heap \<Rightarrow> nat option \<Rightarrow> 'a option" where
  "deref h p = Option.bind p (cells h)"

definition item_at :: "'a heap \<Rightarrow> nat \<Rightarrow> 'a option" where
  "item_at h n = deref h (value_of h n)"

text \<open>A caller's argument \<^verbatim>\<open>*T\<close>: \<^verbatim>\<open>nil\<close>, or the address of a variable of its own.\<close>

fun pass_pointer :: "'a option \<Rightarrow> 'a heap \<Rightarrow> nat option \<times> 'a heap" where
  "pass_pointer None h = (None, h)"
| "pass_pointer (Some v) h = (let (a, h) = new_cell v h in (Some a, h))"

section \<open>Chains of nodes\<close>

text \<open>\<open>chain h p ns\<close>: following \<^verbatim>\<open>next\<close> from \<open>p\<close> visits the nodes \<open>ns\<close> and ends at \<^verbatim>\<open>nil\<close>.\<close>

fun chain :: "'a heap \<Rightarrow> nat option \<Rightarrow> nat list \<Rightarrow> bool" where
  "chain h p [] \<longleftrightarrow> p = None"
| "chain h p (n # ns) \<longleftrightarrow> p = Some n \<and> nodes h n \<noteq> None \<and> chain h (next_of h n) ns"

text \<open>
  \<open>heap_ok\<close>: addresses from \<open>fresh\<close> on are unused, and the value pointer of every node
  is \<^verbatim>\<open>nil\<close> or points to an allocated cell.
\<close>

definition heap_ok :: "'a heap \<Rightarrow> bool" where
  "heap_ok h \<longleftrightarrow>
     (\<forall>a \<ge> fresh h. nodes h a = None \<and> cells h a = None) \<and>
     (\<forall>n v. value_of h n = Some v \<longrightarrow> cells h v \<noteq> None)"

lemmas heap_defs = new_cell_def new_node_def set_next_def next_of_def value_of_def
  deref_def item_at_def

lemma chain_Some_iff: "chain h (Some n) ns \<longleftrightarrow>
    (\<exists>ms. ns = n # ms \<and> nodes h n \<noteq> None \<and> chain h (next_of h n) ms)"
  by (cases ns) auto

lemma chain_None_iff [simp]: "chain h None ns \<longleftrightarrow> ns = []"
  by (cases ns) auto

lemma chain_allocated: "chain h p ns \<Longrightarrow> n \<in> set ns \<Longrightarrow> nodes h n \<noteq> None"
  by (induction ns arbitrary: p) auto

lemma chain_below_fresh: "heap_ok h \<Longrightarrow> chain h p ns \<Longrightarrow> n \<in> set ns \<Longrightarrow> n < fresh h"
  by (meson chain_allocated heap_ok_def not_le)

lemma chain_unique: "chain h p ns \<Longrightarrow> chain h p ms \<Longrightarrow> ns = ms"
proof (induction ns arbitrary: p ms)
  case (Cons n ns)
  then show ?case by (cases ms) auto
qed simp

text \<open>A change of the heap away from a chain leaves the chain as it was.\<close>

lemma chain_cong:
  "(\<And>n. n \<in> set ns \<Longrightarrow> nodes h' n = nodes h n) \<Longrightarrow> chain h' p ns = chain h p ns"
  by (induction ns arbitrary: p) (simp_all add: next_of_def)

lemma chain_new_cell [simp]: "chain (snd (new_cell v h)) p ns = chain h p ns"
  by (rule chain_cong) (simp add: new_cell_def)

lemma chain_new_node:
  "heap_ok h \<Longrightarrow> chain h p ns \<Longrightarrow> chain (snd (new_node val nxt h)) p ns"
  using chain_below_fresh [of h p ns]
  by (subst chain_cong [of _ _ h]) (auto simp: new_node_def)

lemma chain_set_next_outside:
  "l \<notin> set ns \<Longrightarrow> chain (set_next l nxt h) p ns = chain h p ns"
  by (rule chain_cong) (auto simp: set_next_def)

text \<open>Writing the new node into the last node's \<^verbatim>\<open>next\<close> appends it to the chain.\<close>

lemma chain_append_last:
  assumes "chain h p ns" and "distinct ns" and "ns \<noteq> []"
    and "nodes h m = Some nd" and "node_next nd = None" and "m \<notin> set ns"
  shows "chain (set_next (last ns) (Some m) h) p (ns @ [m])"
  using assms
proof (induction ns arbitrary: p)
  case (Cons n ns)
  show ?case
  proof (cases "ns = []")
    case True
    with Cons.prems show ?thesis by (auto simp: heap_defs)
  next
    case False
    with Cons.prems have "last ns \<noteq> n" by (metis distinct.simps(2) last_in_set)
    with False Cons show ?thesis by (auto simp: heap_defs)
  qed
qed simp

lemma heap_ok_empty [simp]: "heap_ok empty_heap"
  by (simp add: heap_ok_def empty_heap_def value_of_def)

lemma heap_ok_new_cell: "heap_ok h \<Longrightarrow> heap_ok (snd (new_cell v h))"
  by (auto simp: heap_ok_def new_cell_def value_of_def)

lemma heap_ok_new_node:
  "heap_ok h \<Longrightarrow> (\<And>a. val = Some a \<Longrightarrow> cells h a \<noteq> None) \<Longrightarrow> heap_ok (snd (new_node val nxt h))"
  by (auto simp: heap_ok_def new_node_def value_of_def)

lemma value_of_set_next [simp]: "value_of (set_next l nxt h) n = value_of h n"
  by (cases "nodes h n") (auto simp: heap_defs)

lemma heap_ok_set_next:
  assumes "heap_ok h" and "l < fresh h"
  shows "heap_ok (set_next l nxt h)"
  using assms unfolding heap_ok_def value_of_set_next by (simp add: set_next_def)

text \<open>What a node holds does not change when other things are allocated or linked.\<close>

lemma item_at_new_cell:
  "heap_ok h \<Longrightarrow> item_at (snd (new_cell v h)) n = item_at h n"
proof -
  assume ok: "heap_ok h"
  have "value_of h n \<noteq> Some (fresh h)" using ok unfolding heap_ok_def by (metis order_refl)
  then show ?thesis by (cases "value_of h n") (auto simp: heap_defs)
qed

lemma item_at_new_node:
  "n < fresh h \<Longrightarrow> item_at (snd (new_node val nxt h)) n = item_at h n"
  by (simp add: heap_defs)

lemma item_at_set_next: "item_at (set_next l nxt h) n = item_at h n"
  by (cases "nodes h n") (auto simp: heap_defs)

lemmas item_at_frame = item_at_new_cell item_at_new_node item_at_set_next

lemma pass_pointer_props:
  assumes "pass_pointer v h = (p, h')"
  shows "h' = h \<and> p = None \<and> v = None \<or>
    (\<exists>x. v = Some x \<and> h' = snd (new_cell x h) \<and> p = Some (fresh h))"
  using assms by (cases v) (auto simp: new_cell_def)

lemma deref_pass_pointer: "pass_pointer v h = (p, h') \<Longrightarrow> deref h' p = v"
  by (cases v) (auto simp: heap_defs)

lemma pass_pointer_allocated: "pass_pointer v h = (p, h') \<Longrightarrow> p = Some a \<Longrightarrow> cells h' a \<noteq> None"
  by (cases v) (auto simp: heap_defs)

section \<open>Printing a chain\<close>

text \<open>
  The loop of both \<^verbatim>\<open>Print\<close> methods: it follows \<^verbatim>\<open>next\<close> until \<^verbatim>\<open>nil\<close> and prints the value
  each node points to; a node with a \<^verbatim>\<open>nil\<close> value makes it panic. \<open>None\<close> is a loop that
  does not end.
\<close>

partial_function (option) print_loop ::
    "'a heap \<Rightarrow> nat option \<Rightarrow> 'a list \<Rightarrow> 'a list outcome option" where
  "print_loop h p acc =
     (case p of
        None \<Rightarrow> Some (Ret (rev acc))
      | Some n \<Rightarrow>
          (case item_at h n of
             None \<Rightarrow> Some (Panic ''invalid memory address or nil pointer dereference'')
           | Some v \<Rightarrow> print_loop h (next_of h n) (v # acc)))"

lemma print_loop_chain:
  "chain h p ns \<Longrightarrow> print_loop h p acc =
     Some (if None \<in> set (map (item_at h) ns)
           then Panic ''invalid memory address or nil pointer dereference''
           else Ret (rev acc @ map (\<lambda>n. the (item_at h n)) ns))"
proof (induction ns arbitrary: p acc)
  case Nil
  then show ?case by (simp add: print_loop.simps)
next
  case (Cons n ns)
  then have p: "p = Some n" and ch: "chain h (next_of h n) ns" by auto
  show ?case
  proof (cases "item_at h n")
    case None
    then show ?thesis by (subst print_loop.simps) (simp add: p)
  next
    case (Some v)
    then show ?thesis by (subst print_loop.simps) (simp add: p Cons.IH [OF ch])
  qed
qed

section \<open>Refinement of an abstract container\<close>

text \<open>The results of the containers' methods.\<close>

datatype 'a result =
    OUnit
  | OVal "'a option"
  | ONum go_int
  | OBool bool
  | OElems "'a multiset"
  | OPanic string

fun run :: "('op \<Rightarrow> 's \<Rightarrow> 'a result \<times> 's) \<Rightarrow> 'op list \<Rightarrow> 's \<Rightarrow> 'a result list \<times> 's" where
  "run step [] s = ([], s)"
| "run step (x # xs) s =
     (let (r, s) = step x s; (rs, s) = run step xs s in (r # rs, s))"

text \<open>
  The contract: \<open>rep s a\<close> relates the concrete container to the abstract one, it holds
  initially, and every operation returns the abstract operation's result and keeps it.
  The client's lemma: no sequence of calls can tell the two apart.
\<close>

locale collection =
  fixes rep :: "'s \<Rightarrow> 'm \<Rightarrow> bool"
    and cstep :: "'op \<Rightarrow> 's \<Rightarrow> 'a result \<times> 's"
    and astep :: "'op \<Rightarrow> 'm \<Rightarrow> 'a result \<times> 'm"
    and cinit :: 's
    and ainit :: 'm
  assumes rep_init: "rep cinit ainit"
    and step_result: "rep s a \<Longrightarrow> fst (cstep x s) = fst (astep x a)"
    and step_rep: "rep s a \<Longrightarrow> rep (snd (cstep x s)) (snd (astep x a))"
begin

lemma run_refines:
  "rep s a \<Longrightarrow> fst (run cstep xs s) = fst (run astep xs a) \<and>
     rep (snd (run cstep xs s)) (snd (run astep xs a))"
proof (induction xs arbitrary: s a)
  case (Cons x xs)
  from step_rep [OF Cons.prems, of x] step_result [OF Cons.prems, of x] Cons.IH
  show ?case by (auto simp: case_prod_beta Let_def)
qed simp

lemma run_from_init: "fst (run cstep xs cinit) = fst (run astep xs ainit)"
  using run_refines [OF rep_init] by blast

lemma rep_reachable: "rep (snd (run cstep xs cinit)) (snd (run astep xs ainit))"
  using run_refines [OF rep_init] by blast

end

end
