(* ===== verification/Fast_Queue.thy ===== *)
theory Fast_Queue
  imports Collection_Spec
begin

text \<open>
  \<^verbatim>\<open>FastQueue\<close> of \<^verbatim>\<open>collection_queue.go\<close>: a singly linked list on the heap with
  pointers to its first and last node. The mutex makes every method one atomic step, so a
  method is a function on the pair of the heap and the queue's fields. The invariant
  \<open>queue_rep\<close> says what the fields mean; the queue refines a list (first in, first out).
\<close>

record FastQueue =
  q_first :: "nat option"
  q_last :: "nat option"
  q_size :: go_int

definition empty_queue :: FastQueue where
  "empty_queue = \<lparr>q_first = None, q_last = None, q_size = 0\<rparr>"

section \<open>Operations\<close>

text \<open>
  The part \<^verbatim>\<open>In\<close> and the loop body of \<^verbatim>\<open>InAll\<close> share: a new node becomes the
  successor of the last node, and the first node of an empty queue.
\<close>

definition link_node :: "nat option \<Rightarrow> 'a heap \<times> FastQueue \<Rightarrow> 'a heap \<times> FastQueue" where
  "link_node val = (\<lambda>(h, q).
     let (node, h) = new_node val None h;
         h = (case q_last q of None \<Rightarrow> h | Some l \<Rightarrow> set_next l (Some node) h);
         q = q\<lparr>q_last := Some node\<rparr>;
         q = (if q_first q = None then q\<lparr>q_first := Some node\<rparr> else q)
     in (h, q))"

definition FastQueue_In :: "nat option \<Rightarrow> 'a heap \<times> FastQueue \<Rightarrow> 'a heap \<times> FastQueue" where
  "FastQueue_In val s = (let (h, q) = link_node val s in (h, q\<lparr>q_size := q_size q + 1\<rparr>))"

text \<open>Each iteration of \<^verbatim>\<open>for _, v := range vals\<close> has its own variable, whose address it takes.\<close>

fun InAll_loop :: "'a list \<Rightarrow> 'a heap \<times> FastQueue \<Rightarrow> 'a heap \<times> FastQueue" where
  "InAll_loop [] s = s"
| "InAll_loop (v # vs) (h, q) =
     (let (a, h) = new_cell v h in InAll_loop vs (link_node (Some a) (h, q)))"

definition FastQueue_InAll :: "'a list \<Rightarrow> 'a heap \<times> FastQueue \<Rightarrow> 'a heap \<times> FastQueue" where
  "FastQueue_InAll vals s =
     (let l = length vals
      in if l = 0 then s
         else let (h, q) = InAll_loop vals s in (h, q\<lparr>q_size := q_size q + of_nat l\<rparr>))"

definition FastQueue_Out :: "'a heap \<times> FastQueue \<Rightarrow> nat option \<times> 'a heap \<times> FastQueue" where
  "FastQueue_Out = (\<lambda>(h, q).
     case q_first q of
       None \<Rightarrow> (None, h, q)
     | Some out \<Rightarrow> (value_of h out, h, q\<lparr>q_first := next_of h out, q_size := q_size q - 1\<rparr>))"

definition FastQueue_Clear :: "FastQueue \<Rightarrow> FastQueue" where
  "FastQueue_Clear q = q\<lparr>q_first := None, q_last := None, q_size := 0\<rparr>"

definition FastQueue_Size :: "FastQueue \<Rightarrow> go_int" where
  "FastQueue_Size q = q_size q"

definition FastQueue_IsEmpty :: "FastQueue \<Rightarrow> bool" where
  "FastQueue_IsEmpty q \<longleftrightarrow> q_size q = 0"

text \<open>\<^verbatim>\<open>Print\<close> walks the chain from the first node.\<close>

definition FastQueue_Print :: "'a heap \<times> FastQueue \<Rightarrow> 'a list outcome option" where
  "FastQueue_Print = (\<lambda>(h, q). print_loop h (q_first q) [])"

section \<open>Calls and the abstract queue\<close>

datatype 'a queue_op = In "'a option" | InAll "'a list" | Out | Clear | Size | IsEmpty

text \<open>A call on the concrete queue; \<^verbatim>\<open>In\<close> gets \<^verbatim>\<open>nil\<close> or the address of the caller's value.\<close>

fun queue_call :: "'a queue_op \<Rightarrow> 'a heap \<times> FastQueue \<Rightarrow> 'a result \<times> 'a heap \<times> FastQueue" where
  "queue_call (In v) (h, q) =
     (let (p, h) = pass_pointer v h in (OUnit, FastQueue_In p (h, q)))"
| "queue_call (InAll vs) s = (OUnit, FastQueue_InAll vs s)"
| "queue_call Out s = (let (p, h, q) = FastQueue_Out s in (OVal (deref h p), h, q))"
| "queue_call Clear (h, q) = (OUnit, h, FastQueue_Clear q)"
| "queue_call Size (h, q) = (ONum (FastQueue_Size q), h, q)"
| "queue_call IsEmpty (h, q) = (OBool (FastQueue_IsEmpty q), h, q)"

text \<open>The specification: a list of values, oldest first. Go's counter is a 64-bit word.\<close>

fun list_queue_call :: "'a queue_op \<Rightarrow> 'a option list \<Rightarrow> 'a result \<times> 'a option list" where
  "list_queue_call (In v) xs = (OUnit, xs @ [v])"
| "list_queue_call (InAll vs) xs = (OUnit, xs @ map Some vs)"
| "list_queue_call Out [] = (OVal None, [])"
| "list_queue_call Out (x # xs) = (OVal x, xs)"
| "list_queue_call Clear xs = (OUnit, [])"
| "list_queue_call Size xs = (ONum (of_nat (length xs)), xs)"
| "list_queue_call IsEmpty xs = (OBool ((of_nat (length xs) :: go_int) = 0), xs)"

section \<open>Invariant\<close>

text \<open>
  The nodes from \<^verbatim>\<open>first\<close> on form a chain that ends in \<^verbatim>\<open>last\<close>. When the chain is empty
  \<^verbatim>\<open>last\<close> may still point to the node that left the queue last: \<^verbatim>\<open>Out\<close> does not reset it.
  \<open>linked\<close> is this without the counter, which \<^verbatim>\<open>InAll\<close> writes only after its loop.
\<close>

definition linked :: "'a heap \<times> FastQueue \<Rightarrow> 'a option list \<Rightarrow> bool" where
  "linked = (\<lambda>(h, q) xs. heap_ok h \<and> (\<forall>l. q_last q = Some l \<longrightarrow> l < fresh h) \<and>
     (\<exists>ns. chain h (q_first q) ns \<and> distinct ns \<and> map (item_at h) ns = xs \<and>
        (ns \<noteq> [] \<longrightarrow> q_last q = Some (last ns))))"

definition queue_rep :: "'a heap \<times> FastQueue \<Rightarrow> 'a option list \<Rightarrow> bool" where
  "queue_rep s xs \<longleftrightarrow> linked s xs \<and> q_size (snd s) = of_nat (length xs)"

lemma queue_rep_empty: "queue_rep (empty_heap, empty_queue) []"
  by (simp add: queue_rep_def linked_def empty_queue_def)

lemma linked_size_irrelevant [simp]: "linked (h, q\<lparr>q_size := n\<rparr>) xs = linked (h, q) xs"
  by (simp add: linked_def)

lemma link_node_size [simp]: "q_size (snd (link_node val s)) = q_size (snd s)"
  by (simp add: link_node_def Let_def case_prod_beta)

lemma linked_new_cell:
  assumes "linked (h, q) xs"
  shows "linked (snd (new_cell v h), q) xs"
proof -
  from assms have "heap_ok h" by (simp add: linked_def)
  with assms show ?thesis
    by (auto simp: linked_def heap_ok_new_cell item_at_new_cell)
      (auto simp: new_cell_def less_SucI)
qed

text \<open>
  The heap \<open>link_node\<close> leaves: one new node, and the old last node, if any, pointing to it.
  A stale \<^verbatim>\<open>last\<close> is overwritten too, which no live chain notices.
\<close>

definition append_heap :: "nat option \<Rightarrow> nat option \<Rightarrow> 'a heap \<Rightarrow> 'a heap" where
  "append_heap val lst h =
     (case lst of
        None \<Rightarrow> snd (new_node val None h)
      | Some l \<Rightarrow> set_next l (Some (fresh h)) (snd (new_node val None h)))"

lemma append_heap_fresh [simp]: "fresh (append_heap val lst h) = Suc (fresh h)"
  by (simp add: append_heap_def new_node_def set_next_def split: option.split)

lemma append_heap_ok:
  "heap_ok h \<Longrightarrow> (\<And>a. val = Some a \<Longrightarrow> cells h a \<noteq> None) \<Longrightarrow> (\<And>l. lst = Some l \<Longrightarrow> l < fresh h) \<Longrightarrow>
     heap_ok (append_heap val lst h)"
  by (auto simp: append_heap_def new_node_def less_SucI split: option.split
      intro!: heap_ok_set_next heap_ok_new_node [of h val None, unfolded new_node_def, simplified])

lemma append_heap_item_old: "n < fresh h \<Longrightarrow> item_at (append_heap val lst h) n = item_at h n"
  by (simp add: append_heap_def item_at_frame split: option.split)

lemma append_heap_item_new: "item_at (append_heap val lst h) (fresh h) = deref h val"
  by (auto simp: append_heap_def item_at_set_next split: option.split)
    (auto simp: heap_defs)

lemma append_heap_chain:
  assumes ok: "heap_ok h" and ch: "chain h p ns" and ds: "distinct ns"
    and lst: "ns \<noteq> [] \<Longrightarrow> lst = Some (last ns)" and lb: "\<And>l. lst = Some l \<Longrightarrow> l < fresh h"
  shows "chain (append_heap val lst h) (if p = None then Some (fresh h) else p) (ns @ [fresh h])"
proof -
  define h1 where "h1 = snd (new_node val None h)"
  have ch1: "chain h1 p ns" unfolding h1_def by (rule chain_new_node [OF ok ch])
  have node: "nodes h1 (fresh h) = Some \<lparr>node_value = val, node_next = None\<rparr>"
    by (simp add: h1_def new_node_def)
  show ?thesis
  proof (cases "ns = []")
    case True
    with ch lb show ?thesis
      by (auto simp: append_heap_def heap_defs split: option.splits)
  next
    case False
    have "fresh h \<notin> set ns" using chain_below_fresh [OF ok ch] by auto
    from chain_append_last [OF ch1 ds False node _ this] lst [OF False] False ch
    show ?thesis by (cases ns) (simp_all add: append_heap_def h1_def)
  qed
qed

lemma link_node_eq:
  "link_node val (h, q) = (append_heap val (q_last q) h,
     q\<lparr>q_last := Some (fresh h),
       q_first := (if q_first q = None then Some (fresh h) else q_first q)\<rparr>)"
  by (simp add: link_node_def append_heap_def new_node_def Let_def split: option.split)

lemma linked_link_node:
  assumes rep: "linked (h, q) xs" and val: "\<And>a. val = Some a \<Longrightarrow> cells h a \<noteq> None"
  shows "linked (link_node val (h, q)) (xs @ [deref h val])"
proof -
  from rep obtain ns where ok: "heap_ok h" and ch: "chain h (q_first q) ns"
    and ds: "distinct ns" and xs: "map (item_at h) ns = xs"
    and lst: "ns \<noteq> [] \<Longrightarrow> q_last q = Some (last ns)"
    and lb: "\<And>l. q_last q = Some l \<Longrightarrow> l < fresh h"
    by (auto simp: linked_def)
  let ?h = "append_heap val (q_last q) h"
  have below: "n < fresh h" if "n \<in> set ns" for n by (rule chain_below_fresh [OF ok ch that])
  have "map (item_at ?h) (ns @ [fresh h]) = xs @ [deref h val]"
    using xs below by (auto simp: append_heap_item_old append_heap_item_new)
  moreover have "distinct (ns @ [fresh h])" using ds below by fastforce
  moreover note append_heap_chain [OF ok ch ds lst lb, where val = val]
    and append_heap_ok [OF ok val lb]
  ultimately show ?thesis
    unfolding linked_def link_node_eq by (auto intro!: exI [of _ "ns @ [fresh h]"])
qed

lemma linked_pass_pointer: "linked (h, q) xs \<Longrightarrow> pass_pointer v h = (p, h') \<Longrightarrow> linked (h', q) xs"
  using pass_pointer_props linked_new_cell by fastforce

lemma linked_InAll_loop:
  "linked (h, q) xs \<Longrightarrow> linked (InAll_loop vs (h, q)) (xs @ map Some vs)"
proof (induction vs arbitrary: h q xs)
  case (Cons v vs)
  define h1 where "h1 = snd (new_cell v h)"
  have "linked (h1, q) xs" unfolding h1_def by (rule linked_new_cell [OF Cons.prems])
  moreover have cell: "cells h1 (fresh h) = Some v" by (simp add: h1_def new_cell_def)
  ultimately have "linked (link_node (Some (fresh h)) (h1, q)) (xs @ [deref h1 (Some (fresh h))])"
    by (intro linked_link_node) auto
  then have "linked (link_node (Some (fresh h)) (h1, q)) (xs @ [Some v])"
    using cell by (simp add: deref_def)
  with Cons.IH [of "fst (link_node (Some (fresh h)) (h1, q))"
      "snd (link_node (Some (fresh h)) (h1, q))" "xs @ [Some v]"]
  show ?case by (simp add: h1_def new_cell_def)
qed simp

lemma InAll_loop_size [simp]: "q_size (snd (InAll_loop vs s)) = q_size (snd s)"
proof (induction vs s rule: InAll_loop.induct)
  case (2 v vs h q)
  from "2.IH" [OF refl surjective_pairing [symmetric]]
  show ?case by (simp add: case_prod_beta)
qed simp

section \<open>Refinement\<close>

lemma queue_rep_In:
  assumes "queue_rep (h, q) xs"
  shows "queue_rep (snd (queue_call (In v) (h, q))) (xs @ [v])"
proof -
  obtain p h' where p: "pass_pointer v h = (p, h')" by fastforce
  from assms have l: "linked (h, q) xs" and n: "q_size q = of_nat (length xs)"
    by (simp_all add: queue_rep_def)
  from linked_link_node [OF linked_pass_pointer [OF l p], of p] pass_pointer_allocated [OF p]
  have "linked (link_node p (h', q)) (xs @ [v])" by (simp add: deref_pass_pointer [OF p])
  moreover have "q_size (snd (link_node p (h', q))) = of_nat (length xs)" by (simp add: n)
  ultimately show ?thesis
    by (cases "link_node p (h', q)") (simp add: p queue_rep_def FastQueue_In_def)
qed

lemma queue_rep_InAll:
  assumes "queue_rep (h, q) xs"
  shows "queue_rep (FastQueue_InAll vs (h, q)) (xs @ map Some vs)"
proof -
  from assms have l: "linked (InAll_loop vs (h, q)) (xs @ map Some vs)"
    by (intro linked_InAll_loop) (simp add: queue_rep_def)
  moreover have "q_size (snd (InAll_loop vs (h, q))) = of_nat (length xs)"
    using assms by (simp add: queue_rep_def)
  ultimately show ?thesis using assms
    by (cases "InAll_loop vs (h, q)") (auto simp: FastQueue_InAll_def queue_rep_def)
qed

lemma queue_rep_Out:
  assumes "queue_rep (h, q) xs"
  shows "fst (queue_call Out (h, q)) = fst (list_queue_call Out xs)"
    and "queue_rep (snd (queue_call Out (h, q))) (snd (list_queue_call Out xs))"
proof -
  from assms obtain ns where ok: "heap_ok h" and ch: "chain h (q_first q) ns"
    and ds: "distinct ns" and xs: "map (item_at h) ns = xs"
    and lst: "ns \<noteq> [] \<longrightarrow> q_last q = Some (last ns)"
    and lb: "\<forall>l. q_last q = Some l \<longrightarrow> l < fresh h" and n: "q_size q = of_nat (length xs)"
    by (auto simp: queue_rep_def linked_def)
  show "fst (queue_call Out (h, q)) = fst (list_queue_call Out xs)"
    using ch xs by (cases ns) (auto simp: FastQueue_Out_def item_at_def deref_def)
  show "queue_rep (snd (queue_call Out (h, q))) (snd (list_queue_call Out xs))"
  proof (cases ns)
    case Nil
    with ch xs assms show ?thesis by (auto simp: FastQueue_Out_def)
  next
    case (Cons a ms)
    with ch xs n ds lst lb ok show ?thesis
      by (auto simp: FastQueue_Out_def queue_rep_def linked_def intro!: exI [of _ ms])
  qed
qed

lemma queue_rep_Clear: "queue_rep (h, q) xs \<Longrightarrow> queue_rep (h, FastQueue_Clear q) []"
  by (auto simp: queue_rep_def linked_def FastQueue_Clear_def)

lemma queue_call_result:
  assumes "queue_rep s xs"
  shows "fst (queue_call x s) = fst (list_queue_call x xs)"
proof (cases s)
  case (Pair h q)
  with assms queue_rep_Out(1) [of h q xs] show ?thesis
    by (cases x) (auto simp: case_prod_beta FastQueue_Size_def FastQueue_IsEmpty_def queue_rep_def)
qed

lemma queue_call_rep:
  assumes "queue_rep s xs"
  shows "queue_rep (snd (queue_call x s)) (snd (list_queue_call x xs))"
proof (cases s)
  case (Pair h q)
  with assms queue_rep_Out(2) [of h q xs] queue_rep_In [of h q xs] queue_rep_InAll [of h q xs]
    queue_rep_Clear [of h q xs]
  show ?thesis by (cases x) auto
qed

interpretation fast_queue: collection queue_rep queue_call list_queue_call
  "(empty_heap, empty_queue)" "[]"
  by unfold_locales (simp_all add: queue_rep_empty queue_call_result queue_call_rep)

text \<open>\<^verbatim>\<open>Print\<close> ends on every reachable queue, in the queue's order, unless a \<^verbatim>\<open>nil\<close> is queued.\<close>

lemma queue_print_rep:
  assumes "queue_rep s xs"
  shows "FastQueue_Print s =
    Some (if None \<in> set xs then Panic ''invalid memory address or nil pointer dereference''
          else Ret (map the xs))"
proof -
  obtain h q where s: "s = (h, q)" by fastforce
  from assms obtain ns where "chain h (q_first q) ns" and xs: "map (item_at h) ns = xs"
    by (auto simp: s queue_rep_def linked_def)
  then show ?thesis
    by (auto simp: s FastQueue_Print_def print_loop_chain comp_def)
qed

section \<open>Properties\<close>

text \<open>
  C5: a \<^verbatim>\<open>FastQueue\<close> is a first-in first-out queue: whatever calls are made on a new
  queue, in whatever order, the results are those of the list that appends at its end and
  takes from its front. This covers a queue that is refilled after it ran empty, when
  \<^verbatim>\<open>last\<close> still points to a node that left.
\<close>

theorem fast_queue_is_fifo:
  "fst (run queue_call xs (empty_heap, empty_queue)) = fst (run list_queue_call xs [])"
  by (rule fast_queue.run_from_init)

text \<open>
  \<^verbatim>\<open>Print\<close> ends on every queue calls can build, and prints the queued values from
  first to last; it panics exactly when a \<^verbatim>\<open>nil\<close> pointer is queued.
\<close>

lemma fast_queue_print_ends:
  "FastQueue_Print (snd (run queue_call xs (empty_heap, empty_queue))) =
     Some (let ys = snd (run list_queue_call xs [])
           in if None \<in> set ys then Panic ''invalid memory address or nil pointer dereference''
              else Ret (map the ys))"
  unfolding Let_def by (rule queue_print_rep [OF fast_queue.rep_reachable])

end
