(* ===== verification/Fast_Stack.thy ===== *)
theory Fast_Stack
  imports Collection_Spec
begin

text \<open>
  \<^verbatim>\<open>FastStack\<close> of \<^verbatim>\<open>collection_stack.go\<close>: a singly linked list on the heap whose
  first node is the top. It refines a list (last in, first out).
\<close>

record FastStack =
  top :: "nat option"
  s_size :: go_int

definition empty_stack :: FastStack where
  "empty_stack = \<lparr>top = None, s_size = 0\<rparr>"

section \<open>Operations\<close>

definition push_node :: "nat option \<Rightarrow> 'a heap \<times> FastStack \<Rightarrow> 'a heap \<times> FastStack" where
  "push_node val = (\<lambda>(h, s). let (n, h) = new_node val (top s) h in (h, s\<lparr>top := Some n\<rparr>))"

definition FastStack_Push :: "nat option \<Rightarrow> 'a heap \<times> FastStack \<Rightarrow> 'a heap \<times> FastStack" where
  "FastStack_Push val hs = (let (h, s) = push_node val hs in (h, s\<lparr>s_size := s_size s + 1\<rparr>))"

fun PushAll_loop :: "'a list \<Rightarrow> 'a heap \<times> FastStack \<Rightarrow> 'a heap \<times> FastStack" where
  "PushAll_loop [] hs = hs"
| "PushAll_loop (v # vs) (h, s) =
     (let (a, h) = new_cell v h in PushAll_loop vs (push_node (Some a) (h, s)))"

definition FastStack_PushAll :: "'a list \<Rightarrow> 'a heap \<times> FastStack \<Rightarrow> 'a heap \<times> FastStack" where
  "FastStack_PushAll vals hs =
     (let l = length vals
      in if l = 0 then hs
         else let (h, s) = PushAll_loop vals hs in (h, s\<lparr>s_size := s_size s + of_nat l\<rparr>))"

definition FastStack_Pop :: "'a heap \<times> FastStack \<Rightarrow> nat option \<times> 'a heap \<times> FastStack" where
  "FastStack_Pop = (\<lambda>(h, s).
     case top s of
       None \<Rightarrow> (None, h, s)
     | Some out \<Rightarrow> (value_of h out, h, s\<lparr>top := next_of h out, s_size := s_size s - 1\<rparr>))"

definition FastStack_Clear :: "FastStack \<Rightarrow> FastStack" where
  "FastStack_Clear s = s\<lparr>top := None, s_size := 0\<rparr>"

definition FastStack_Peek :: "'a heap \<times> FastStack \<Rightarrow> nat option" where
  "FastStack_Peek = (\<lambda>(h, s). case top s of None \<Rightarrow> None | Some n \<Rightarrow> value_of h n)"

definition FastStack_Size :: "FastStack \<Rightarrow> go_int" where
  "FastStack_Size s = s_size s"

definition FastStack_IsEmpty :: "FastStack \<Rightarrow> bool" where
  "FastStack_IsEmpty s \<longleftrightarrow> s_size s = 0"

definition FastStack_Print :: "'a heap \<times> FastStack \<Rightarrow> 'a list outcome option" where
  "FastStack_Print = (\<lambda>(h, s). print_loop h (top s) [])"

section \<open>Calls and the abstract stack\<close>

datatype 'a stack_op =
    Push "'a option" | PushAll "'a list" | Pop | Peek | SClear | SSize | SIsEmpty

fun stack_call :: "'a stack_op \<Rightarrow> 'a heap \<times> FastStack \<Rightarrow> 'a result \<times> 'a heap \<times> FastStack" where
  "stack_call (Push v) (h, s) =
     (let (p, h) = pass_pointer v h in (OUnit, FastStack_Push p (h, s)))"
| "stack_call (PushAll vs) hs = (OUnit, FastStack_PushAll vs hs)"
| "stack_call Pop hs = (let (p, h, s) = FastStack_Pop hs in (OVal (deref h p), h, s))"
| "stack_call Peek (h, s) = (OVal (deref h (FastStack_Peek (h, s))), h, s)"
| "stack_call SClear (h, s) = (OUnit, h, FastStack_Clear s)"
| "stack_call SSize (h, s) = (ONum (FastStack_Size s), h, s)"
| "stack_call SIsEmpty (h, s) = (OBool (FastStack_IsEmpty s), h, s)"

fun list_stack_call :: "'a stack_op \<Rightarrow> 'a option list \<Rightarrow> 'a result \<times> 'a option list" where
  "list_stack_call (Push v) xs = (OUnit, v # xs)"
| "list_stack_call (PushAll vs) xs = (OUnit, rev (map Some vs) @ xs)"
| "list_stack_call Pop [] = (OVal None, [])"
| "list_stack_call Pop (x # xs) = (OVal x, xs)"
| "list_stack_call Peek [] = (OVal None, [])"
| "list_stack_call Peek (x # xs) = (OVal x, x # xs)"
| "list_stack_call SClear xs = (OUnit, [])"
| "list_stack_call SSize xs = (ONum (of_nat (length xs)), xs)"
| "list_stack_call SIsEmpty xs = (OBool ((of_nat (length xs) :: go_int) = 0), xs)"

section \<open>Invariant\<close>

definition stacked :: "'a heap \<times> FastStack \<Rightarrow> 'a option list \<Rightarrow> bool" where
  "stacked = (\<lambda>(h, s) xs. heap_ok h \<and>
     (\<exists>ns. chain h (top s) ns \<and> map (item_at h) ns = xs))"

definition stack_rep :: "'a heap \<times> FastStack \<Rightarrow> 'a option list \<Rightarrow> bool" where
  "stack_rep hs xs \<longleftrightarrow> stacked hs xs \<and> s_size (snd hs) = of_nat (length xs)"

lemma stack_rep_empty: "stack_rep (empty_heap, empty_stack) []"
  by (simp add: stack_rep_def stacked_def empty_stack_def)

lemma push_node_size [simp]: "s_size (snd (push_node val hs)) = s_size (snd hs)"
  by (simp add: push_node_def Let_def case_prod_beta)

lemma stacked_size_irrelevant [simp]: "stacked (h, s\<lparr>s_size := n\<rparr>) xs = stacked (h, s) xs"
  by (simp add: stacked_def)

lemma stacked_new_cell:
  assumes "stacked (h, s) xs"
  shows "stacked (snd (new_cell v h), s) xs"
proof -
  from assms have "heap_ok h" by (simp add: stacked_def)
  with assms show ?thesis by (auto simp: stacked_def heap_ok_new_cell item_at_new_cell)
qed

lemma stacked_push_node:
  assumes rep: "stacked (h, s) xs" and val: "\<And>a. val = Some a \<Longrightarrow> cells h a \<noteq> None"
  shows "stacked (push_node val (h, s)) (deref h val # xs)"
proof -
  from rep obtain ns where ok: "heap_ok h" and ch: "chain h (top s) ns"
    and xs: "map (item_at h) ns = xs"
    by (auto simp: stacked_def)
  let ?h = "snd (new_node val (top s) h)"
  have below: "n < fresh h" if "n \<in> set ns" for n by (rule chain_below_fresh [OF ok ch that])
  have "heap_ok ?h" by (rule heap_ok_new_node [OF ok val])
  moreover have "chain ?h (Some (fresh h)) (fresh h # ns)"
    using chain_new_node [OF ok ch, of val "top s"] by (simp add: heap_defs)
  moreover have "map (item_at ?h) (fresh h # ns) = deref h val # xs"
    using xs below by (auto simp: item_at_new_node) (simp add: heap_defs)
  moreover have "push_node val (h, s) = (?h, s\<lparr>top := Some (fresh h)\<rparr>)"
    by (simp add: push_node_def new_node_def)
  ultimately show ?thesis unfolding stacked_def by (auto intro!: exI [of _ "fresh h # ns"])
qed

lemma stacked_pass_pointer: "stacked (h, s) xs \<Longrightarrow> pass_pointer v h = (p, h') \<Longrightarrow> stacked (h', s) xs"
  using pass_pointer_props stacked_new_cell by fastforce

lemma stacked_PushAll_loop:
  "stacked (h, s) xs \<Longrightarrow> stacked (PushAll_loop vs (h, s)) (rev (map Some vs) @ xs)"
proof (induction vs arbitrary: h s xs)
  case (Cons v vs)
  define h1 where "h1 = snd (new_cell v h)"
  have cell: "cells h1 (fresh h) = Some v" by (simp add: h1_def new_cell_def)
  have "stacked (h1, s) xs" unfolding h1_def by (rule stacked_new_cell [OF Cons.prems])
  from stacked_push_node [OF this, of "Some (fresh h)"] cell
  have "stacked (push_node (Some (fresh h)) (h1, s)) (Some v # xs)"
    by (simp add: deref_def)
  with Cons.IH [of "fst (push_node (Some (fresh h)) (h1, s))"
      "snd (push_node (Some (fresh h)) (h1, s))" "Some v # xs"]
  show ?case by (simp add: h1_def new_cell_def)
qed simp

lemma PushAll_loop_size [simp]: "s_size (snd (PushAll_loop vs hs)) = s_size (snd hs)"
proof (induction vs hs rule: PushAll_loop.induct)
  case (2 v vs h s)
  from "2.IH" [OF refl surjective_pairing [symmetric]]
  show ?case by (simp add: case_prod_beta)
qed simp

section \<open>Refinement\<close>

lemma stack_rep_Push:
  assumes "stack_rep (h, s) xs"
  shows "stack_rep (snd (stack_call (Push v) (h, s))) (v # xs)"
proof -
  obtain p h' where p: "pass_pointer v h = (p, h')" by fastforce
  from assms have l: "stacked (h, s) xs" and n: "s_size s = of_nat (length xs)"
    by (simp_all add: stack_rep_def)
  from stacked_push_node [OF stacked_pass_pointer [OF l p], of p] pass_pointer_allocated [OF p]
  have "stacked (push_node p (h', s)) (v # xs)" by (simp add: deref_pass_pointer [OF p])
  moreover have "s_size (snd (push_node p (h', s))) = of_nat (length xs)" by (simp add: n)
  ultimately show ?thesis
    by (cases "push_node p (h', s)") (simp add: p stack_rep_def FastStack_Push_def)
qed

lemma stack_rep_PushAll:
  assumes "stack_rep (h, s) xs"
  shows "stack_rep (FastStack_PushAll vs (h, s)) (rev (map Some vs) @ xs)"
proof -
  from assms have l: "stacked (PushAll_loop vs (h, s)) (rev (map Some vs) @ xs)"
    by (intro stacked_PushAll_loop) (simp add: stack_rep_def)
  moreover have "s_size (snd (PushAll_loop vs (h, s))) = of_nat (length xs)"
    using assms by (simp add: stack_rep_def)
  ultimately show ?thesis using assms
    by (cases "PushAll_loop vs (h, s)") (auto simp: FastStack_PushAll_def stack_rep_def)
qed

lemma stack_rep_Pop:
  assumes "stack_rep (h, s) xs"
  shows "stack_rep (snd (stack_call Pop (h, s))) (snd (list_stack_call Pop xs))"
proof -
  from assms obtain ns where ok: "heap_ok h" and ch: "chain h (top s) ns"
    and xs: "map (item_at h) ns = xs" and n: "s_size s = of_nat (length xs)"
    by (auto simp: stack_rep_def stacked_def)
  then show ?thesis using assms
    by (cases ns) (auto simp: FastStack_Pop_def stack_rep_def stacked_def)
qed

lemma stack_call_result:
  assumes "stack_rep hs xs"
  shows "fst (stack_call x hs) = fst (list_stack_call x xs)"
proof -
  obtain h s where hs: "hs = (h, s)" by fastforce
  from assms obtain ns where "chain h (top s) ns" and "map (item_at h) ns = xs"
    and "s_size s = of_nat (length xs)"
    by (auto simp: hs stack_rep_def stacked_def)
  then show ?thesis
    by (cases x; cases ns)
      (auto simp: hs case_prod_beta FastStack_Size_def FastStack_IsEmpty_def FastStack_Pop_def
        FastStack_Peek_def item_at_def deref_def)
qed

lemma stack_call_rep:
  assumes "stack_rep hs xs"
  shows "stack_rep (snd (stack_call x hs)) (snd (list_stack_call x xs))"
proof -
  obtain h s where hs: "hs = (h, s)" by fastforce
  have "stack_rep (h, FastStack_Clear s) []"
    using assms by (simp add: hs stack_rep_def stacked_def FastStack_Clear_def)
  with assms stack_rep_Push [of h s xs] stack_rep_PushAll [of h s xs] stack_rep_Pop [of h s xs]
  show ?thesis unfolding hs by (cases x; cases xs) auto
qed

interpretation fast_stack: collection stack_rep stack_call list_stack_call
  "(empty_heap, empty_stack)" "[]"
  by unfold_locales (simp_all add: stack_rep_empty stack_call_result stack_call_rep)

lemma stack_print_rep:
  assumes "stack_rep hs xs"
  shows "FastStack_Print hs =
    Some (if None \<in> set xs then Panic ''invalid memory address or nil pointer dereference''
          else Ret (map the xs))"
proof -
  obtain h s where hs: "hs = (h, s)" by fastforce
  from assms obtain ns where "chain h (top s) ns" and "map (item_at h) ns = xs"
    by (auto simp: hs stack_rep_def stacked_def)
  then show ?thesis by (auto simp: hs FastStack_Print_def print_loop_chain comp_def)
qed

section \<open>Properties\<close>

text \<open>
  C30: a \<^verbatim>\<open>FastStack\<close> is a last-in first-out stack: whatever calls are made on a new
  stack, the results are those of the list that grows and shrinks at its front, and
  \<^verbatim>\<open>Print\<close> ends and shows it from top to bottom unless a \<^verbatim>\<open>nil\<close> was pushed.
\<close>

theorem fast_stack_is_lifo:
  "fst (run stack_call xs (empty_heap, empty_stack)) = fst (run list_stack_call xs []) \<and>
   FastStack_Print (snd (run stack_call xs (empty_heap, empty_stack))) =
     Some (let ys = snd (run list_stack_call xs [])
           in if None \<in> set ys then Panic ''invalid memory address or nil pointer dereference''
              else Ret (map the ys))"
  unfolding Let_def
  by (rule conjI [OF fast_stack.run_from_init stack_print_rep [OF fast_stack.rep_reachable]])

end
