(* ===== verification/Hash_Set.thy ===== *)
theory Hash_Set
  imports Collection_Spec
begin

text \<open>
  \<^verbatim>\<open>Set[T]\<close> of \<^verbatim>\<open>collection_set.go\<close>: a Go map with empty values, created on the first
  insertion. \<open>None\<close> is the \<^verbatim>\<open>nil\<close> map of a zero \<^verbatim>\<open>Set\<close>: reading it finds nothing,
  \<^verbatim>\<open>delete\<close> and \<^verbatim>\<open>clear\<close> do nothing, and writing to it would panic, which
  \<^verbatim>\<open>ensureInit\<close> prevents.
\<close>

record 'a Set =
  underlying :: "('a, unit) gomap option"

definition empty_Set :: "'a Set" where
  "empty_Set = \<lparr>underlying = None\<rparr>"

section \<open>Operations\<close>

definition ensureInit :: "'a Set \<Rightarrow> 'a Set" where
  "ensureInit s = (if underlying s = None then s\<lparr>underlying := Some []\<rparr> else s)"

text \<open>\<^verbatim>\<open>m[k] = Empty{}\<close>, which panics on the \<^verbatim>\<open>nil\<close> map.\<close>

definition assign :: "'a \<Rightarrow> 'a Set \<Rightarrow> 'a Set outcome" where
  "assign k s =
     (case underlying s of
        None \<Rightarrow> Panic ''assignment to entry in nil map''
      | Some m \<Rightarrow> Ret (s\<lparr>underlying := Some (AList.update k () m)\<rparr>))"

fun assign_all :: "'a list \<Rightarrow> 'a Set \<Rightarrow> 'a Set outcome" where
  "assign_all [] s = Ret s"
| "assign_all (k # ks) s =
     (case assign k s of Panic e \<Rightarrow> Panic e | Ret s \<Rightarrow> assign_all ks s)"

definition Set_Add :: "'a \<Rightarrow> 'a Set \<Rightarrow> 'a Set outcome" where
  "Set_Add k s = assign k (ensureInit s)"

definition Set_AddRange :: "'a list \<Rightarrow> 'a Set \<Rightarrow> 'a Set outcome" where
  "Set_AddRange ks s = assign_all ks (ensureInit s)"

definition Set_Remove :: "'a \<Rightarrow> 'a Set \<Rightarrow> 'a Set" where
  "Set_Remove k s = s\<lparr>underlying := map_option (AList.delete k) (underlying s)\<rparr>"

definition Set_Clear :: "'a Set \<Rightarrow> 'a Set" where
  "Set_Clear s = s\<lparr>underlying := map_option (\<lambda>_. []) (underlying s)\<rparr>"

definition entries :: "'a Set \<Rightarrow> ('a, unit) gomap" where
  "entries s = (case underlying s of None \<Rightarrow> [] | Some m \<Rightarrow> m)"

definition Set_Size :: "'a Set \<Rightarrow> go_int" where
  "Set_Size s = of_nat (length (entries s))"

definition Set_IsEmpty :: "'a Set \<Rightarrow> bool" where
  "Set_IsEmpty s \<longleftrightarrow> Set_Size s = 0"

definition Set_ToSlice :: "('a list \<Rightarrow> 'a list) \<Rightarrow> 'a Set \<Rightarrow> 'a list" where
  "Set_ToSlice ord s = foldl (\<lambda>out k. out @ [k]) [] (ord (map fst (entries s)))"

definition Set_Contains :: "'a Set \<Rightarrow> 'a \<Rightarrow> bool" where
  "Set_Contains s k \<longleftrightarrow> map_of (entries s) k \<noteq> None"

section \<open>Calls and the abstract set\<close>

datatype 'a set_op =
    Add 'a | AddRange "'a list" | Remove 'a | HClear | HSize | HIsEmpty | ToSlice | Contains 'a

text \<open>A panic would end the caller; \<open>settle\<close> keeps the old set and reports it as a result.\<close>

definition settle :: "'a Set \<Rightarrow> 'a Set outcome \<Rightarrow> 'a result \<times> 'a Set" where
  "settle s r = (case r of Ret t \<Rightarrow> (OUnit, t) | Panic e \<Rightarrow> (OPanic e, s))"

fun set_call :: "('a list \<Rightarrow> 'a list) \<Rightarrow> 'a set_op \<Rightarrow> 'a Set \<Rightarrow> 'a result \<times> 'a Set" where
  "set_call ord (Add k) s = settle s (Set_Add k s)"
| "set_call ord (AddRange ks) s = settle s (Set_AddRange ks s)"
| "set_call ord (Remove k) s = (OUnit, Set_Remove k s)"
| "set_call ord HClear s = (OUnit, Set_Clear s)"
| "set_call ord HSize s = (ONum (Set_Size s), s)"
| "set_call ord HIsEmpty s = (OBool (Set_IsEmpty s), s)"
| "set_call ord ToSlice s = (OElems (mset (Set_ToSlice ord s)), s)"
| "set_call ord (Contains k) s = (OBool (Set_Contains s k), s)"

fun math_set_call :: "'a set_op \<Rightarrow> 'a set \<Rightarrow> 'a result \<times> 'a set" where
  "math_set_call (Add k) A = (OUnit, insert k A)"
| "math_set_call (AddRange ks) A = (OUnit, A \<union> set ks)"
| "math_set_call (Remove k) A = (OUnit, A - {k})"
| "math_set_call HClear A = (OUnit, {})"
| "math_set_call HSize A = (ONum (of_nat (card A)), A)"
| "math_set_call HIsEmpty A = (OBool ((of_nat (card A) :: go_int) = 0), A)"
| "math_set_call ToSlice A = (OElems (mset_set A), A)"
| "math_set_call (Contains k) A = (OBool (k \<in> A), A)"

section \<open>Invariant and refinement\<close>

definition set_rep :: "'a Set \<Rightarrow> 'a set \<Rightarrow> bool" where
  "set_rep s A \<longleftrightarrow> gomap_wf (entries s) \<and> fst ` set (entries s) = A"

lemma set_rep_empty: "set_rep empty_Set {}"
  by (simp add: set_rep_def entries_def empty_Set_def)

lemma entries_ensureInit [simp]: "entries (ensureInit s) = entries s"
  by (simp add: entries_def ensureInit_def)

lemma ensureInit_not_nil: "\<exists>m. underlying (ensureInit s) = Some m"
  by (auto simp: ensureInit_def)

lemma assign_all_Ret:
  "underlying s = Some m \<Longrightarrow> set_rep s A \<Longrightarrow>
     \<exists>t. assign_all ks s = Ret t \<and> set_rep t (A \<union> set ks)"
proof (induction ks arbitrary: s m A)
  case (Cons k ks)
  let ?t = "s\<lparr>underlying := Some (AList.update k () m)\<rparr>"
  have "set_rep ?t (insert k A)"
    using Cons.prems by (auto simp: set_rep_def entries_def gomap_simps)
  from Cons.IH [OF _ this] Cons.prems(1) show ?case by (simp add: assign_def)
qed simp

lemma Set_AddRange_Ret: "set_rep s A \<Longrightarrow> \<exists>t. Set_AddRange ks s = Ret t \<and> set_rep t (A \<union> set ks)"
  unfolding Set_AddRange_def
  using ensureInit_not_nil [of s] assign_all_Ret [of "ensureInit s" _ A ks]
  by (auto simp: set_rep_def)

lemma Set_Add_AddRange: "Set_Add k s = Set_AddRange [k] s"
  by (simp add: Set_Add_def Set_AddRange_def split: outcome.split)

lemma set_rep_Remove: "set_rep s A \<Longrightarrow> set_rep (Set_Remove k s) (A - {k})"
  by (auto simp: set_rep_def Set_Remove_def entries_def gomap_simps split: option.splits)

lemma set_rep_Clear: "set_rep s A \<Longrightarrow> set_rep (Set_Clear s) {}"
  by (auto simp: set_rep_def Set_Clear_def entries_def split: option.splits)

lemma set_rep_Size: "set_rep s A \<Longrightarrow> Set_Size s = of_nat (card A)"
  by (auto simp: set_rep_def Set_Size_def gomap_simps)

lemma set_rep_Contains: "set_rep s A \<Longrightarrow> Set_Contains s k = (k \<in> A)"
  by (auto simp: set_rep_def Set_Contains_def map_of_eq_None_iff)

lemma foldl_snoc: "foldl (\<lambda>out k. out @ [k]) ys xs = ys @ xs"
  by (induction xs arbitrary: ys) auto

lemma set_rep_ToSlice:
  assumes "set_rep s A" and "iteration_order ord"
  shows "mset (Set_ToSlice ord s) = mset_set A"
proof -
  from assms have "mset (Set_ToSlice ord s) = mset (map fst (entries s))"
    by (simp add: Set_ToSlice_def foldl_snoc iteration_order_def)
  also have "\<dots> = mset_set (set (map fst (entries s)))"
    using assms(1) by (subst mset_set_set) (simp_all only: set_rep_def gomap_wf_def)
  finally show ?thesis using assms(1) by (simp add: set_rep_def)
qed

lemma set_call_AddRange:
  assumes "set_rep s A"
  shows "fst (set_call ord (AddRange ks) s) = OUnit"
    and "set_rep (snd (set_call ord (AddRange ks) s)) (A \<union> set ks)"
  using Set_AddRange_Ret [OF assms, of ks] by (auto simp: settle_def)

lemma set_call_Add: "set_call ord (Add k) s = set_call ord (AddRange [k]) s"
  by (simp add: Set_Add_AddRange)

lemma set_call_rep:
  assumes "set_rep s A"
  shows "set_rep (snd (set_call ord x s)) (snd (math_set_call x A))"
proof (cases x)
  case (Add k)
  with set_call_AddRange(2) [OF assms, of ord "[k]"] show ?thesis
    by (simp only: set_call_Add) simp
next
  case (AddRange ks)
  with set_call_AddRange(2) [OF assms, of ord ks] show ?thesis by simp
qed (use assms in \<open>simp_all add: set_rep_Remove set_rep_Clear\<close>)

lemma set_call_result:
  assumes "set_rep s A" and "iteration_order ord"
  shows "fst (set_call ord x s) = fst (math_set_call x A)"
proof (cases x)
  case (Add k)
  with set_call_AddRange(1) [OF assms(1), of ord "[k]"] show ?thesis
    by (simp only: set_call_Add) simp
next
  case (AddRange ks)
  with set_call_AddRange(1) [OF assms(1), of ord ks] show ?thesis by simp
qed (use assms in \<open>simp_all add: set_rep_Size set_rep_Contains Set_IsEmpty_def set_rep_ToSlice\<close>)

text \<open>
  The order of \<^verbatim>\<open>range\<close> over the map is open, so the contract holds for each admissible
  order; the interpretation fixes the order in which the model lists the keys and one other.
\<close>

lemma set_collection:
  "iteration_order ord \<Longrightarrow> collection set_rep (set_call ord) math_set_call empty_Set {}"
  by unfold_locales (simp_all add: set_rep_empty set_call_result set_call_rep)

interpretation hash_set: collection set_rep "set_call (\<lambda>ks. ks)" math_set_call empty_Set "{}"
  by (rule set_collection) (rule iteration_order_id)

interpretation hash_set_rev: collection set_rep "set_call rev" math_set_call empty_Set "{}"
  by (rule set_collection) (rule iteration_order_rev)

section \<open>Properties\<close>

text \<open>
  C31: a \<^verbatim>\<open>Set\<close> is a mathematical set: whatever calls are made on a zero \<^verbatim>\<open>Set\<close>, none
  panics, and the results are those of a finite set, with \<^verbatim>\<open>ToSlice\<close> listing each element
  once in whatever order the runtime ranges over a map.
\<close>

theorem hash_set_is_set:
  assumes "iteration_order ord"
  shows "fst (run (set_call ord) xs empty_Set) = fst (run math_set_call xs {})"
  by (rule collection.run_from_init [OF set_collection [OF assms]])

theorem hash_set_is_set_witness:
  "fst (run (set_call rev) [Remove 3, Add 1, AddRange [2, 1], Remove 2, HSize, Contains 2, ToSlice]
     (empty_Set :: nat Set)) = [OUnit, OUnit, OUnit, OUnit, ONum 1, OBool False, OElems {#1#}]"
  by (subst hash_set_is_set [OF iteration_order_rev]) (simp add: card_insert_if)

end
