(* ===== verification/Collections.thy ===== *)
theory Collections
  imports Fast_Queue Fast_Stack Hash_Set
begin

text \<open>
  The interface \<^verbatim>\<open>Collection\<close> of \<^verbatim>\<open>collection.go\<close>: a record of its methods, a locale with
  what they promise of each other and of the number of elements, and its three implementations.
\<close>

record 's Collection =
  coll_Size :: "'s \<Rightarrow> go_int"
  coll_IsEmpty :: "'s \<Rightarrow> bool"
  coll_Clear :: "'s \<Rightarrow> 's"

text \<open>
  \<open>holds s n\<close>: \<open>s\<close> is a state of the collection with \<open>n\<close> elements. Sizes are Go's 64-bit
  numbers, so \<^verbatim>\<open>IsEmpty\<close> says what it should only below \<open>2 ^ 64\<close> elements.
\<close>

locale go_collection =
  fixes c :: "'s Collection" and holds :: "'s \<Rightarrow> nat \<Rightarrow> bool"
  assumes size_holds: "holds s n \<Longrightarrow> coll_Size c s = of_nat n"
    and empty_size: "coll_IsEmpty c s \<longleftrightarrow> coll_Size c s = 0"
    and clear_holds: "holds s n \<Longrightarrow> holds (coll_Clear c s) 0"
begin

lemma empty_iff: "holds s n \<Longrightarrow> n < 2 ^ 64 \<Longrightarrow> coll_IsEmpty c s \<longleftrightarrow> n = 0"
  by (simp add: empty_size size_holds word_of_nat_eq_0_iff nat_dvd_not_less [of n "2 ^ 64"]) (use nat_dvd_not_less in blast)

lemma cleared: "holds s n \<Longrightarrow> coll_Size c (coll_Clear c s) = 0 \<and> coll_IsEmpty c (coll_Clear c s)"
  using size_holds [OF clear_holds] by (simp add: empty_size)

end

section \<open>The implementations\<close>

definition queue_Collection :: "('a heap \<times> FastQueue) Collection" where
  "queue_Collection = \<lparr>coll_Size = (\<lambda>(h, q). FastQueue_Size q), coll_IsEmpty = (\<lambda>(h, q). FastQueue_IsEmpty q),
     coll_Clear = (\<lambda>(h, q). (h, FastQueue_Clear q))\<rparr>"

definition stack_Collection :: "('a heap \<times> FastStack) Collection" where
  "stack_Collection = \<lparr>coll_Size = (\<lambda>(h, s). FastStack_Size s), coll_IsEmpty = (\<lambda>(h, s). FastStack_IsEmpty s),
     coll_Clear = (\<lambda>(h, s). (h, FastStack_Clear s))\<rparr>"

definition set_Collection :: "'a Set Collection" where
  "set_Collection = \<lparr>coll_Size = Set_Size, coll_IsEmpty = Set_IsEmpty, coll_Clear = Set_Clear\<rparr>"

interpretation queue_coll: go_collection queue_Collection "\<lambda>s n. \<exists>xs. queue_rep s xs \<and> length xs = n"
proof unfold_locales
  show "\<exists>xs. queue_rep (coll_Clear queue_Collection s) xs \<and> length xs = 0"
    if "\<exists>xs. queue_rep s xs \<and> length xs = n" for s :: "'a heap \<times> FastQueue" and n
    using that queue_rep_Clear by (cases s) (auto simp: queue_Collection_def)
qed (auto simp: queue_Collection_def queue_rep_def FastQueue_Size_def FastQueue_IsEmpty_def)

interpretation stack_coll: go_collection stack_Collection "\<lambda>s n. \<exists>xs. stack_rep s xs \<and> length xs = n"
  by unfold_locales
    (auto simp: stack_Collection_def stack_rep_def stacked_def FastStack_Size_def FastStack_IsEmpty_def FastStack_Clear_def)

interpretation set_coll: go_collection set_Collection "\<lambda>s n. \<exists>A. set_rep s A \<and> card A = n"
proof unfold_locales
  show "\<exists>A. set_rep (coll_Clear set_Collection s) A \<and> card A = 0"
    if "\<exists>A. set_rep s A \<and> card A = n" for s :: "'a Set" and n
    using that set_rep_Clear by (fastforce simp: set_Collection_def)
qed (auto simp: set_Collection_def set_rep_Size Set_IsEmpty_def)

end
