(* ===== verification/Encoding.thy ===== *)
theory Encoding
  imports Niu_Prelude
begin

text \<open>
  The base64 functions of \<^verbatim>\<open>encoding.go\<close>, with the part of \<^verbatim>\<open>encoding/base64\<close> they
  call: groups of three bytes become four characters of a 64-letter alphabet, padded with
  \<open>=\<close>; decoding skips line breaks and refuses everything else that is not such a text.
  Random bytes of \<^verbatim>\<open>SecureBytes\<close> come from the caller.
\<close>

section \<open>The codec of encoding/base64\<close>

definition encodeStd :: string where
  "encodeStd = ''ABCDEFGHIJKLMNOPQRSTUVWXYZabcdefghijklmnopqrstuvwxyz0123456789+/''"

definition encodeURL :: string where
  "encodeURL = ''ABCDEFGHIJKLMNOPQRSTUVWXYZabcdefghijklmnopqrstuvwxyz0123456789-_''"

text \<open>\<^verbatim>\<open>uint(src[0])<<16 | uint(src[1])<<8 | uint(src[2])\<close> and its four groups of six bits.\<close>

definition pack3 :: "byte \<Rightarrow> byte \<Rightarrow> byte \<Rightarrow> 64 word" where
  "pack3 a b c = push_bit 16 (ucast a) OR push_bit 8 (ucast b) OR ucast c"

definition sextet :: "string \<Rightarrow> nat \<Rightarrow> 64 word \<Rightarrow> char" where
  "sextet alph n v = alph ! unat (drop_bit n v AND 63)"

fun encode :: "string \<Rightarrow> bytes \<Rightarrow> string" where
  "encode alph [] = []"
| "encode alph [a] =
     (let v = pack3 a 0 0 in [sextet alph 18 v, sextet alph 12 v, CHR ''='', CHR ''=''])"
| "encode alph [a, b] =
     (let v = pack3 a b 0
      in [sextet alph 18 v, sextet alph 12 v, sextet alph 6 v, CHR ''=''])"
| "encode alph (a # b # c # ds) =
     (let v = pack3 a b c
      in [sextet alph 18 v, sextet alph 12 v, sextet alph 6 v, sextet alph 0 v] @ encode alph ds)"

text \<open>The decoding table: the position of a character in the alphabet.\<close>

fun index_of :: "char \<Rightarrow> string \<Rightarrow> nat option" where
  "index_of ch [] = None"
| "index_of ch (x # xs) = (if ch = x then Some 0 else map_option Suc (index_of ch xs))"

definition unpack4 :: "nat \<Rightarrow> nat \<Rightarrow> nat \<Rightarrow> nat \<Rightarrow> 64 word" where
  "unpack4 i j k l = push_bit 18 (of_nat i) OR push_bit 12 (of_nat j) OR push_bit 6 (of_nat k)
     OR of_nat l"

definition byte_at :: "nat \<Rightarrow> 64 word \<Rightarrow> byte" where
  "byte_at n v = ucast (drop_bit n v)"

text \<open>
  One quantum after the other; padding ends the text. The error of the library names the
  offending input byte; the model keeps the fact that there is an error.
\<close>

fun decode_quanta :: "string \<Rightarrow> string \<Rightarrow> bytes option" where
  "decode_quanta alph [] = Some []"
| "decode_quanta alph (p # q # r # s # rest) =
     (case (index_of p alph, index_of q alph) of
        (Some i, Some j) \<Rightarrow>
          if r = CHR ''=''
          then (if s = CHR ''='' \<and> rest = [] then Some [byte_at 16 (unpack4 i j 0 0)] else None)
          else (case index_of r alph of
                  None \<Rightarrow> None
                | Some k \<Rightarrow>
                    if s = CHR ''=''
                    then (if rest = []
                          then Some [byte_at 16 (unpack4 i j k 0), byte_at 8 (unpack4 i j k 0)]
                          else None)
                    else (case index_of s alph of
                            None \<Rightarrow> None
                          | Some l \<Rightarrow>
                              map_option (\<lambda>bs. byte_at 16 (unpack4 i j k l) #
                                byte_at 8 (unpack4 i j k l) # byte_at 0 (unpack4 i j k l) # bs)
                                (decode_quanta alph rest)))
      | _ \<Rightarrow> None)"
| "decode_quanta alph _ = None"

definition decode :: "string \<Rightarrow> string \<Rightarrow> go_error + bytes" where
  "decode alph str =
     (case decode_quanta alph (filter (\<lambda>ch. ch \<noteq> CHR 10 \<and> ch \<noteq> CHR 13) str) of
        None \<Rightarrow> Inl (Err ''illegal base64 data'')
      | Some bs \<Rightarrow> Inr bs)"

section \<open>encoding.go\<close>

definition Base64Encode :: "bytes \<Rightarrow> string" where
  "Base64Encode data = encode encodeStd data"

definition Base64Decode :: "string \<Rightarrow> go_error + bytes" where
  "Base64Decode data = decode encodeStd data"

definition Base64URLEncode :: "bytes \<Rightarrow> string" where
  "Base64URLEncode data = encode encodeURL data"

definition Base64URLDecode :: "string \<Rightarrow> go_error + bytes" where
  "Base64URLDecode data = decode encodeURL data"

text \<open>
  \<open>rand.Reader\<close> is an input: it fails, or supplies bytes without end.
  \<^verbatim>\<open>io.ReadFull\<close> fills the whole buffer or returns the error.
\<close>

type_synonym entropy = "go_error + (nat \<Rightarrow> byte)"

definition ReadFull :: "entropy \<Rightarrow> nat \<Rightarrow> go_error + bytes" where
  "ReadFull rnd n = (case rnd of Inl e \<Rightarrow> Inl e | Inr f \<Rightarrow> Inr (map f [0..<n]))"

definition SecureBytes :: "entropy \<Rightarrow> go_int \<Rightarrow> go_error + bytes" where
  "SecureBytes rnd keyLenInBytes =
     (if sint keyLenInBytes \<le> 0 then Inl (Err ''keyLenInBytes must be >= 0'')
      else ReadFull rnd (unat keyLenInBytes))"

lemma SecureBytes_length: "SecureBytes rnd n = Inr bs \<Longrightarrow> length bs = unat n"
  by (auto simp: SecureBytes_def ReadFull_def split: if_splits sum.splits)

text \<open>
  \<^verbatim>\<open>mrand.Intn(n)\<close> panics for \<open>n \<le> 0\<close> and otherwise draws from \<open>0..<n\<close>;
  \<open>draw n\<close> is what it draws.
\<close>

definition Random :: "(go_int \<Rightarrow> go_int) \<Rightarrow> go_int \<Rightarrow> go_int \<Rightarrow> go_int outcome" where
  "Random draw mn mx =
     (if sint (mx - mn) \<le> 0 then Panic ''invalid argument to Intn''
      else Ret (draw (mx - mn) + mn))"

section \<open>Round trip\<close>

definition alphabet_ok :: "string \<Rightarrow> bool" where
  "alphabet_ok alph \<longleftrightarrow> length alph = 64 \<and> distinct alph \<and>
     CHR ''='' \<notin> set alph \<and> CHR 10 \<notin> set alph \<and> CHR 13 \<notin> set alph"

lemma alphabet_ok_std: "alphabet_ok encodeStd"
  by (simp add: alphabet_ok_def encodeStd_def)

lemma alphabet_ok_url: "alphabet_ok encodeURL"
  by (simp add: alphabet_ok_def encodeURL_def)

lemma index_of_nth: "distinct xs \<Longrightarrow> i < length xs \<Longrightarrow> index_of (xs ! i) xs = Some i"
  by (induction xs arbitrary: i) (auto simp: nth_Cons split: nat.splits)

lemma low6: "(63 :: 64 word) = mask 6"
  by (simp add: mask_eq_exp_minus_1)

definition sextets :: "64 word \<Rightarrow> nat \<Rightarrow> nat" where
  "sextets v n = unat (drop_bit n v AND 63)"

lemma sextet_bound: "sextets v n < 64"
proof -
  have "drop_bit n v AND 63 = take_bit 6 (drop_bit n v)"
    by (simp add: take_bit_eq_mask low6)
  then show ?thesis
    using take_bit_nat_less_exp [of 6] by (simp add: sextets_def unsigned_take_bit_eq)
qed

lemma sextet_alt: "sextet alph n v = alph ! sextets v n"
  by (simp add: sextet_def sextets_def)

lemma index_of_sextet:
  "alphabet_ok alph \<Longrightarrow> index_of (sextet alph n v) alph = Some (sextets v n)"
  by (simp add: sextet_alt alphabet_ok_def index_of_nth sextet_bound)

lemma sextet_mem: "alphabet_ok alph \<Longrightarrow> sextet alph n v \<in> set alph"
  using sextet_bound [of v n] by (simp add: sextet_alt alphabet_ok_def)

lemma sextet_not_special:
  "alphabet_ok alph \<Longrightarrow> sextet alph n v \<noteq> CHR ''='' \<and> sextet alph n v \<noteq> CHR 10 \<and> sextet alph n v \<noteq> CHR 13"
  using sextet_mem [of alph n v] by (auto simp: alphabet_ok_def)

text \<open>The bytes of a packed group survive the detour through its groups of six bits.\<close>

lemma bit_sextet_piece:
  "bit (push_bit m (drop_bit m v AND 63) :: 64 word) n \<longleftrightarrow> n < 64 \<and> m \<le> n \<and> n < m + 6 \<and> bit v n"
  unfolding low6 by (auto simp: bit_simps dest: bit_imp_le_length)

lemma unpack4_sextets:
  "unpack4 (sextets v p) (sextets v q) (sextets v r) (sextets v t) =
     push_bit 18 (drop_bit p v AND 63) OR push_bit 12 (drop_bit q v AND 63) OR
     push_bit 6 (drop_bit r v AND 63) OR push_bit 0 (drop_bit t v AND 63)"
  by (simp add: unpack4_def sextets_def)

lemma bit_unpack4:
  "bit (unpack4 (sextets v 18) (sextets v 12) (sextets v 6) (sextets v 0)) n \<longleftrightarrow> n < 24 \<and> bit v n"
  "bit (unpack4 (sextets v 18) (sextets v 12) (sextets v 6) 0) n \<longleftrightarrow> 6 \<le> n \<and> n < 24 \<and> bit v n"
  "bit (unpack4 (sextets v 18) (sextets v 12) 0 0) n \<longleftrightarrow> 12 \<le> n \<and> n < 24 \<and> bit v n"
proof -
  show "bit (unpack4 (sextets v 18) (sextets v 12) (sextets v 6) (sextets v 0)) n \<longleftrightarrow>
      n < 24 \<and> bit v n"
    unfolding unpack4_sextets bit_or_iff bit_sextet_piece by auto
  have "unpack4 (sextets v 18) (sextets v 12) (sextets v 6) 0 =
      push_bit 18 (drop_bit 18 v AND 63) OR push_bit 12 (drop_bit 12 v AND 63) OR
      push_bit 6 (drop_bit 6 v AND 63)"
    by (simp add: unpack4_def sextets_def)
  then show "bit (unpack4 (sextets v 18) (sextets v 12) (sextets v 6) 0) n \<longleftrightarrow>
      6 \<le> n \<and> n < 24 \<and> bit v n"
    by (simp only: bit_or_iff bit_sextet_piece) auto
  have "unpack4 (sextets v 18) (sextets v 12) 0 0 =
      push_bit 18 (drop_bit 18 v AND 63) OR push_bit 12 (drop_bit 12 v AND 63)"
    by (simp add: unpack4_def sextets_def)
  then show "bit (unpack4 (sextets v 18) (sextets v 12) 0 0) n \<longleftrightarrow> 12 \<le> n \<and> n < 24 \<and> bit v n"
    by (simp only: bit_or_iff bit_sextet_piece) auto
qed

lemma byte_at_unpack:
  "byte_at 16 (unpack4 (sextets v 18) (sextets v 12) 0 0) = byte_at 16 v"
  "byte_at 16 (unpack4 (sextets v 18) (sextets v 12) (sextets v 6) 0) = byte_at 16 v"
  "byte_at 8 (unpack4 (sextets v 18) (sextets v 12) (sextets v 6) 0) = byte_at 8 v"
  "byte_at 16 (unpack4 (sextets v 18) (sextets v 12) (sextets v 6) (sextets v 0)) = byte_at 16 v"
  "byte_at 8 (unpack4 (sextets v 18) (sextets v 12) (sextets v 6) (sextets v 0)) = byte_at 8 v"
  "byte_at 0 (unpack4 (sextets v 18) (sextets v 12) (sextets v 6) (sextets v 0)) = byte_at 0 v"
  by (intro bit_word_eqI, simp add: byte_at_def bit_simps bit_unpack4)+

lemma byte_at_pack3:
  "byte_at 16 (pack3 a b c) = a" "byte_at 8 (pack3 a b c) = b" "byte_at 0 (pack3 a b c) = c"
  by (intro bit_word_eqI, auto simp: byte_at_def pack3_def bit_simps dest: bit_imp_le_length)+

lemma decode_quanta_encode:
  "alphabet_ok alph \<Longrightarrow> decode_quanta alph (encode alph bs) = Some bs"
proof (induction alph bs rule: encode.induct)
  case (4 alph a b c ds)
  then show ?case
    by (simp add: Let_def index_of_sextet sextet_not_special byte_at_pack3
        byte_at_unpack)
qed (simp_all add: Let_def index_of_sextet sextet_not_special byte_at_pack3
    byte_at_unpack)

lemma encode_no_breaks:
  "alphabet_ok alph \<Longrightarrow> filter (\<lambda>ch. ch \<noteq> CHR 10 \<and> ch \<noteq> CHR 13) (encode alph bs) = encode alph bs"
  by (induction alph bs rule: encode.induct) (simp_all add: Let_def sextet_not_special)

lemma decode_encode: "alphabet_ok alph \<Longrightarrow> decode alph (encode alph bs) = Inr bs"
  by (simp add: decode_def encode_no_breaks decode_quanta_encode)

lemma encode_length: "length (encode alph bs) = 4 * ((length bs + 2) div 3)"
proof (induction alph bs rule: encode.induct)
  case (4 alph a b c ds)
  have "(length ds + 5) div 3 = Suc ((length ds + 2) div 3)" by presburger
  with 4 show ?case by (simp add: Let_def add.commute)
qed (simp_all add: Let_def)

section \<open>Properties\<close>

text \<open>
  C29: decoding inverts encoding, for the standard and for the URL alphabet, on every byte
  string, and the encoded text has four characters per started group of three bytes.
\<close>

theorem base64_round_trip:
  "Base64Decode (Base64Encode data) = Inr data \<and> Base64URLDecode (Base64URLEncode data) = Inr data \<and>
   length (Base64Encode data) = 4 * ((length data + 2) div 3)"
  by (simp add: Base64Encode_def Base64Decode_def Base64URLEncode_def Base64URLDecode_def
      decode_encode alphabet_ok_std alphabet_ok_url encode_length)

end
