(* ===== verification/Sha256.thy ===== *)
theory Sha256
  imports Niu_Prelude
begin

text \<open>
  The part of \<^verbatim>\<open>crypto/sha256\<close>, \<^verbatim>\<open>crypto/hmac\<close> and \<^verbatim>\<open>encoding/hex\<close> the repository
  calls: SHA-256 (FIPS 180-4), HMAC over it (RFC 2104) and lower-case hexadecimal text. All
  of it computes.
\<close>

definition rotr :: "nat \<Rightarrow> 32 word \<Rightarrow> 32 word" where
  "rotr n w = drop_bit n w OR push_bit (32 - n) w"

definition small0 :: "32 word \<Rightarrow> 32 word" where
  "small0 w = rotr 7 w XOR rotr 18 w XOR drop_bit 3 w"

definition small1 :: "32 word \<Rightarrow> 32 word" where
  "small1 w = rotr 17 w XOR rotr 19 w XOR drop_bit 10 w"

definition big0 :: "32 word \<Rightarrow> 32 word" where
  "big0 w = rotr 2 w XOR rotr 13 w XOR rotr 22 w"

definition big1 :: "32 word \<Rightarrow> 32 word" where
  "big1 w = rotr 6 w XOR rotr 11 w XOR rotr 25 w"

definition ch :: "32 word \<Rightarrow> 32 word \<Rightarrow> 32 word \<Rightarrow> 32 word" where
  "ch x y z = (x AND y) XOR (NOT x AND z)"

definition maj :: "32 word \<Rightarrow> 32 word \<Rightarrow> 32 word \<Rightarrow> 32 word" where
  "maj x y z = (x AND y) XOR (x AND z) XOR (y AND z)"

text \<open>
  The round constants are the first 32 bits of the fractional parts of the cube roots of
  the first 64 primes: the integer cube root of \<open>p * 2 ^ 96\<close>, found bit by bit, kept modulo
  \<open>2 ^ 32\<close>.
\<close>

definition primes64 :: "int list" where
  "primes64 = filter (\<lambda>p. list_all (\<lambda>d. d * d \<le> p \<longrightarrow> p mod d \<noteq> 0) [2, 3, 5, 7, 11, 13, 17]) [2..311]"

fun cube_root :: "nat \<Rightarrow> int \<Rightarrow> int \<Rightarrow> int \<Rightarrow> int" where
  "cube_root 0 b n r = r"
| "cube_root (Suc k) b n r =
     cube_root k (b div 2) n (if (r + b) * (r + b) * (r + b) \<le> n then r + b else r)"

definition round_consts :: "32 word list" where
  "round_consts = map (\<lambda>p. word_of_int (cube_root 35 0x400000000 (p * 0x1000000000000000000000000) 0)) primes64"

record digest =
  da :: "32 word"
  db :: "32 word"
  dc :: "32 word"
  dd :: "32 word"
  de :: "32 word"
  df :: "32 word"
  dg :: "32 word"
  dh :: "32 word"

definition initial :: digest where
  "initial = \<lparr>da = 0x6a09e667, db = 0xbb67ae85, dc = 0x3c6ef372, dd = 0xa54ff53a,
     de = 0x510e527f, df = 0x9b05688c, dg = 0x1f83d9ab, dh = 0x5be0cd19\<rparr>"

definition be32 :: "bytes \<Rightarrow> 32 word" where
  "be32 bs = foldl (\<lambda>w b. push_bit 8 w OR ucast b) 0 bs"

fun words_of :: "bytes \<Rightarrow> 32 word list" where
  "words_of (a # b # c # d # rest) = be32 [a, b, c, d] # words_of rest"
| "words_of _ = []"

definition be32_bytes :: "32 word \<Rightarrow> bytes" where
  "be32_bytes w = [ucast (drop_bit 24 w), ucast (drop_bit 16 w), ucast (drop_bit 8 w), ucast w]"

text \<open>The message schedule, newest word first: each new word is built from earlier ones.\<close>

fun extend :: "nat \<Rightarrow> 32 word list \<Rightarrow> 32 word list" where
  "extend 0 ws = ws"
| "extend (Suc n) ws =
     extend n ((small1 (ws ! 1) + ws ! 6 + small0 (ws ! 14) + ws ! 15) # ws)"

definition schedule :: "bytes \<Rightarrow> 32 word list" where
  "schedule blk = rev (extend 48 (rev (words_of blk)))"

definition compress_round :: "digest \<Rightarrow> 32 word \<times> 32 word \<Rightarrow> digest" where
  "compress_round s = (\<lambda>(k, w).
     let t1 = dh s + big1 (de s) + ch (de s) (df s) (dg s) + k + w;
         t2 = big0 (da s) + maj (da s) (db s) (dc s)
     in \<lparr>da = t1 + t2, db = da s, dc = db s, dd = dc s,
         de = dd s + t1, df = de s, dg = df s, dh = dg s\<rparr>)"

definition compress :: "digest \<Rightarrow> bytes \<Rightarrow> digest" where
  "compress s blk =
     (let t = foldl compress_round s (zip round_consts (schedule blk))
      in \<lparr>da = da s + da t, db = db s + db t, dc = dc s + dc t, dd = dd s + dd t,
          de = de s + de t, df = df s + df t, dg = dg s + dg t, dh = dh s + dh t\<rparr>)"

definition be64_bytes :: "64 word \<Rightarrow> bytes" where
  "be64_bytes w = map (\<lambda>n. ucast (drop_bit n w)) [56, 48, 40, 32, 24, 16, 8, 0]"

definition padded :: "bytes \<Rightarrow> bytes" where
  "padded m = m @ 0x80 # replicate ((119 - length m mod 64) mod 64) 0 @ be64_bytes (of_nat (8 * length m))"

function blocks :: "bytes \<Rightarrow> bytes list" where
  "blocks bs = (if bs = [] then [] else take 64 bs # blocks (drop 64 bs))"
  by pat_completeness auto
termination
  by (relation "measure length") auto

declare blocks.simps [simp del]

definition digest_bytes :: "digest \<Rightarrow> bytes" where
  "digest_bytes s = concat (map be32_bytes [da s, db s, dc s, dd s, de s, df s, dg s, dh s])"

definition sha256 :: "bytes \<Rightarrow> bytes" where
  "sha256 m = digest_bytes (foldl compress initial (blocks (padded m)))"

definition hmac_key :: "bytes \<Rightarrow> bytes" where
  "hmac_key key = (let k = (if 64 < length key then sha256 key else key)
                   in k @ replicate (64 - length k) 0)"

definition hmac :: "bytes \<Rightarrow> bytes \<Rightarrow> bytes" where
  "hmac key msg =
     (let k = hmac_key key
      in sha256 (map (\<lambda>b. b XOR 0x5c) k @ sha256 (map (\<lambda>b. b XOR 0x36) k @ msg)))"

definition hex_digit :: "8 word \<Rightarrow> char" where
  "hex_digit w = ''0123456789abcdef'' ! unat (w AND 15)"

definition hex :: "bytes \<Rightarrow> string" where
  "hex bs = concat (map (\<lambda>b. [hex_digit (drop_bit 4 b), hex_digit b]) bs)"

lemma digest_bytes_length [simp]: "length (digest_bytes s) = 32"
  by (simp add: digest_bytes_def be32_bytes_def)

lemma sha256_length [simp]: "length (sha256 m) = 32"
  by (simp add: sha256_def)

lemma hmac_length [simp]: "length (hmac key m) = 32"
  by (simp add: hmac_def Let_def)

lemma hmac_key_length: "length (hmac_key key) = 64"
  by (simp add: hmac_key_def Let_def)

text \<open>The padded message is a whole number of blocks.\<close>

lemma padded_length: "64 dvd length (padded m)"
proof -
  define q r where "q = length m div 64" and "r = length m mod 64"
  have m: "length m = 64 * q + r" and r: "r < 64" by (simp_all add: q_def r_def)
  have "(119 - r) mod 64 = (if r \<le> 55 then 55 - r else 119 - r)"
    using r by (simp add: mod_if)
  then have "length (padded m) = 64 * (q + (if r \<le> 55 then 1 else 2))"
    using m r by (simp add: padded_def be64_bytes_def flip: r_def)
  then show ?thesis by (metis dvd_triv_left)
qed

lemma hex_length: "length (hex bs) = 2 * length bs"
  by (induction bs) (simp_all add: hex_def)

text \<open>The first and the last of the published round constants.\<close>

lemma round_const_ends:
  "word_of_int (cube_root 35 0x400000000 (2 * 0x1000000000000000000000000) 0) = (0x428a2f98 :: 32 word)"
  "word_of_int (cube_root 35 0x400000000 (311 * 0x1000000000000000000000000) 0) = (0xc67178f2 :: 32 word)"
  by code_simp+

end
