(* ===== verification/Signing.thy ===== *)
theory Signing
  imports Encoding Sha256
begin

text \<open>
  The signers of \<^verbatim>\<open>signer.go\<close>. The interface \<^verbatim>\<open>Signer\<close> is the record \<open>signer\<close>; the
  locale \<open>signing_pair\<close> says what a sender's and a receiver's signer must satisfy together.
  \<^verbatim>\<open>HmacSigner\<close> is built on the HMAC of theory \<^theory_text>\<open>Sha256\<close> and satisfies it
  outright. Ed25519 is a parameter: \<open>ed_sign key msg\<close> and \<open>ed_verify pub msg sig\<close> stand for
  \<^verbatim>\<open>ed25519.Sign\<close> and \<^verbatim>\<open>ed25519.Verify\<close> on keys of the right size, \<open>key_pair pub key\<close> for
  a pair made by \<^verbatim>\<open>ed25519.GenerateKey\<close>.
\<close>

record signer =
  sign :: "bytes \<Rightarrow> bytes call"
  verify :: "bytes \<Rightarrow> bytes \<Rightarrow> bool call"
  signature_len :: int

section \<open>HmacSigner\<close>

record HmacSigner =
  secretKey :: bytes

definition NewHmacSigner :: "bytes \<Rightarrow> HmacSigner" where
  "NewHmacSigner secret = \<lparr>secretKey = secret\<rparr>"

definition HmacSigner_SignatureLen :: "HmacSigner \<Rightarrow> int" where
  "HmacSigner_SignatureLen h = 32"

definition HmacSigner_Sign :: "HmacSigner \<Rightarrow> bytes \<Rightarrow> bytes call" where
  "HmacSigner_Sign h data = Ok (hmac (secretKey h) data)"

text \<open>\<^verbatim>\<open>hmac.Equal\<close> compares the two signatures in constant time: equality of content.\<close>

definition HmacSigner_Verify :: "HmacSigner \<Rightarrow> bytes \<Rightarrow> bytes \<Rightarrow> bool call" where
  "HmacSigner_Verify h dataToSign signature = Ok (hmac (secretKey h) dataToSign = signature)"

definition hmac_signer :: "HmacSigner \<Rightarrow> signer" where
  "hmac_signer h = \<lparr>sign = HmacSigner_Sign h, verify = HmacSigner_Verify h,
     signature_len = HmacSigner_SignatureLen h\<rparr>"

section \<open>Ed25519Signer\<close>

record Ed25519Signer =
  RemotePublicKey :: bytes
  SelfPrivateKey :: bytes

type_synonym ed_sign = "bytes \<Rightarrow> bytes \<Rightarrow> bytes"
type_synonym ed_verify = "bytes \<Rightarrow> bytes \<Rightarrow> bytes \<Rightarrow> bool"

definition Ed25519Signer_SignatureLen :: "Ed25519Signer \<Rightarrow> int" where
  "Ed25519Signer_SignatureLen e = 64"

definition RemotePublicKeyString :: "Ed25519Signer \<Rightarrow> string" where
  "RemotePublicKeyString e = Base64Encode (RemotePublicKey e)"

definition SelfPrivateKeyString :: "Ed25519Signer \<Rightarrow> string" where
  "SelfPrivateKeyString e = Base64Encode (SelfPrivateKey e)"

text \<open>The standard library panics on a key of the wrong size.\<close>

definition lib_sign :: "ed_sign \<Rightarrow> bytes \<Rightarrow> bytes \<Rightarrow> bytes call" where
  "lib_sign ed key msg =
     (if length key \<noteq> 64 then Panics ''ed25519: bad private key length'' else Ok (ed key msg))"

definition lib_verify :: "ed_verify \<Rightarrow> bytes \<Rightarrow> bytes \<Rightarrow> bytes \<Rightarrow> bool call" where
  "lib_verify ed pub msg sig =
     (if length pub \<noteq> 32 then Panics ''ed25519: bad public key length'' else Ok (ed pub msg sig))"

definition Ed25519Signer_Sign :: "ed_sign \<Rightarrow> Ed25519Signer \<Rightarrow> bytes \<Rightarrow> bytes call" where
  "Ed25519Signer_Sign ed e rawData = lib_sign ed (SelfPrivateKey e) rawData"

definition Ed25519Signer_Verify :: "ed_verify \<Rightarrow> Ed25519Signer \<Rightarrow> bytes \<Rightarrow> bytes \<Rightarrow> bool call" where
  "Ed25519Signer_Verify ed e utf8Bytes signature = lib_verify ed (RemotePublicKey e) utf8Bytes signature"

definition ed25519_signer :: "ed_sign \<Rightarrow> ed_verify \<Rightarrow> Ed25519Signer \<Rightarrow> signer" where
  "ed25519_signer es ev e = \<lparr>sign = Ed25519Signer_Sign es e, verify = Ed25519Signer_Verify ev e,
     signature_len = Ed25519Signer_SignatureLen e\<rparr>"

definition NewEd25519SignerFromString :: "string \<Rightarrow> string \<Rightarrow> Ed25519Signer call" where
  "NewEd25519SignerFromString remotePublicKey selfPrivateKey =
     bind_call (of_sum (Base64Decode remotePublicKey)) (\<lambda>remotePublicKeyBytes.
     bind_call (of_sum (Base64Decode selfPrivateKey)) (\<lambda>selfPrivateKeyBytes.
     Ok \<lparr>RemotePublicKey = remotePublicKeyBytes, SelfPrivateKey = selfPrivateKeyBytes\<rparr>))"

definition NewEd25519Signer :: "bytes \<Rightarrow> bytes \<Rightarrow> Ed25519Signer" where
  "NewEd25519Signer remotePublicKey selfPrivateKey =
     \<lparr>RemotePublicKey = remotePublicKey, SelfPrivateKey = selfPrivateKey\<rparr>"

text \<open>\<open>generated\<close> is the key pair \<^verbatim>\<open>ed25519.GenerateKey\<close> gave, or its error.\<close>

definition NewEd25519SignerKeyPair :: "go_error + bytes \<times> bytes \<Rightarrow> (bytes \<times> bytes) call" where
  "NewEd25519SignerKeyPair generated = of_sum generated"

section \<open>Ed25519SignKey\<close>

record Ed25519SignKey =
  Pri :: string
  Pub :: string
  priKey :: bytes

definition getPrivateKey :: "Ed25519SignKey \<Rightarrow> bytes call" where
  "getPrivateKey sk =
     bind_call (of_sum (decode encodeStd (Pri sk))) (\<lambda>priBytes.
     bind_call (of_sum (decode encodeStd (Pub sk))) (\<lambda>pubBytes.
     Ok (priBytes @ pubBytes)))"

definition NewEd25519SignKey :: "string \<Rightarrow> string \<Rightarrow> Ed25519SignKey call" where
  "NewEd25519SignKey pri pub =
     (let tmp = \<lparr>Pri = pri, Pub = pub, priKey = []\<rparr>
      in bind_call (getPrivateKey tmp) (\<lambda>k. Ok (tmp\<lparr>priKey := k\<rparr>)))"

definition Ed25519SignKey_Sign :: "ed_sign \<Rightarrow> Ed25519SignKey \<Rightarrow> bytes \<Rightarrow> bytes call" where
  "Ed25519SignKey_Sign ed sk message = lib_sign ed (priKey sk) message"

text \<open>\<^verbatim>\<open>[]byte(message)\<close>: the bytes of a string.\<close>

definition string_bytes :: "string \<Rightarrow> bytes" where
  "string_bytes s = map (\<lambda>c. of_char c) s"

definition Ed25519SignKey_SignString :: "ed_sign \<Rightarrow> Ed25519SignKey \<Rightarrow> string \<Rightarrow> string call" where
  "Ed25519SignKey_SignString ed sk message =
     bind_call (lib_sign ed (priKey sk) (string_bytes message)) (\<lambda>data.
     Ok (encode encodeStd data))"

section \<open>The contract\<close>

text \<open>
  A receiver's signer matches a sender's: every message can be signed, its signature has the
  length the receiver cuts off, and the receiver accepts it.
\<close>

locale signing_pair =
  fixes sender receiver :: signer
  assumes sign_total: "\<exists>sg. sign sender m = Ok sg"
    and sign_length: "sign sender m = Ok sg \<Longrightarrow> int (length sg) = signature_len receiver"
    and sign_verifies: "sign sender m = Ok sg \<Longrightarrow> verify receiver m sg = Ok True"
    and len_positive: "0 < signature_len receiver"

interpretation hmac_pair: signing_pair "hmac_signer h" "hmac_signer h" for h
  by unfold_locales
    (simp_all add: hmac_signer_def HmacSigner_Sign_def HmacSigner_Verify_def
      HmacSigner_SignatureLen_def)

text \<open>
  What the development relies on of \<^verbatim>\<open>crypto/ed25519\<close>: a generated key pair has the
  documented sizes, signatures have 64 bytes, and they verify under the public key.
\<close>

definition ed25519_laws :: "ed_sign \<Rightarrow> ed_verify \<Rightarrow> (bytes \<Rightarrow> bytes \<Rightarrow> bool) \<Rightarrow> bool" where
  "ed25519_laws es ev key_pair \<longleftrightarrow>
     (\<forall>pub key. key_pair pub key \<longrightarrow> length pub = 32 \<and> length key = 64 \<and>
        (\<forall>m. length (es key m) = 64 \<and> ev pub m (es key m)))"

lemma ed25519_signing_pair:
  assumes "ed25519_laws es ev key_pair" and "key_pair pub key"
  shows "signing_pair (ed25519_signer es ev (NewEd25519Signer other_pub key))
    (ed25519_signer es ev (NewEd25519Signer pub other_key))"
  using assms
  by unfold_locales
    (auto simp: ed25519_laws_def ed25519_signer_def Ed25519Signer_Sign_def
      Ed25519Signer_Verify_def Ed25519Signer_SignatureLen_def lib_sign_def lib_verify_def
      NewEd25519Signer_def)

text \<open>Rebuilding a signer from the strings it prints gives it back.\<close>

lemma signer_strings_round_trip:
  "NewEd25519SignerFromString (RemotePublicKeyString e) (SelfPrivateKeyString e) = Ok e"
  by (simp add: NewEd25519SignerFromString_def RemotePublicKeyString_def SelfPrivateKeyString_def
      Base64Decode_def Base64Encode_def decode_encode alphabet_ok_std)

end
