(* ===== verification/Aes_Gcm.thy ===== *)
theory Aes_Gcm
  imports Sha256
begin

text \<open>
  The part of \<^verbatim>\<open>crypto/aes\<close> and \<^verbatim>\<open>crypto/cipher\<close> the repository calls: the AES block
  cipher for keys of 16, 24 and 32 bytes (FIPS 197), and GCM over it with a 12-byte nonce,
  a 16-byte tag and no additional data (SP 800-38D). All of it computes.
\<close>

section \<open>AES\<close>

definition sbox :: "byte list" where
  "sbox =
    [0x63, 0x7c, 0x77, 0x7b, 0xf2, 0x6b, 0x6f, 0xc5, 0x30, 0x01, 0x67, 0x2b, 0xfe, 0xd7, 0xab, 0x76,
     0xca, 0x82, 0xc9, 0x7d, 0xfa, 0x59, 0x47, 0xf0, 0xad, 0xd4, 0xa2, 0xaf, 0x9c, 0xa4, 0x72, 0xc0,
     0xb7, 0xfd, 0x93, 0x26, 0x36, 0x3f, 0xf7, 0xcc, 0x34, 0xa5, 0xe5, 0xf1, 0x71, 0xd8, 0x31, 0x15,
     0x04, 0xc7, 0x23, 0xc3, 0x18, 0x96, 0x05, 0x9a, 0x07, 0x12, 0x80, 0xe2, 0xeb, 0x27, 0xb2, 0x75,
     0x09, 0x83, 0x2c, 0x1a, 0x1b, 0x6e, 0x5a, 0xa0, 0x52, 0x3b, 0xd6, 0xb3, 0x29, 0xe3, 0x2f, 0x84,
     0x53, 0xd1, 0x00, 0xed, 0x20, 0xfc, 0xb1, 0x5b, 0x6a, 0xcb, 0xbe, 0x39, 0x4a, 0x4c, 0x58, 0xcf,
     0xd0, 0xef, 0xaa, 0xfb, 0x43, 0x4d, 0x33, 0x85, 0x45, 0xf9, 0x02, 0x7f, 0x50, 0x3c, 0x9f, 0xa8,
     0x51, 0xa3, 0x40, 0x8f, 0x92, 0x9d, 0x38, 0xf5, 0xbc, 0xb6, 0xda, 0x21, 0x10, 0xff, 0xf3, 0xd2,
     0xcd, 0x0c, 0x13, 0xec, 0x5f, 0x97, 0x44, 0x17, 0xc4, 0xa7, 0x7e, 0x3d, 0x64, 0x5d, 0x19, 0x73,
     0x60, 0x81, 0x4f, 0xdc, 0x22, 0x2a, 0x90, 0x88, 0x46, 0xee, 0xb8, 0x14, 0xde, 0x5e, 0x0b, 0xdb,
     0xe0, 0x32, 0x3a, 0x0a, 0x49, 0x06, 0x24, 0x5c, 0xc2, 0xd3, 0xac, 0x62, 0x91, 0x95, 0xe4, 0x79,
     0xe7, 0xc8, 0x37, 0x6d, 0x8d, 0xd5, 0x4e, 0xa9, 0x6c, 0x56, 0xf4, 0xea, 0x65, 0x7a, 0xae, 0x08,
     0xba, 0x78, 0x25, 0x2e, 0x1c, 0xa6, 0xb4, 0xc6, 0xe8, 0xdd, 0x74, 0x1f, 0x4b, 0xbd, 0x8b, 0x8a,
     0x70, 0x3e, 0xb5, 0x66, 0x48, 0x03, 0xf6, 0x0e, 0x61, 0x35, 0x57, 0xb9, 0x86, 0xc1, 0x1d, 0x9e,
     0xe1, 0xf8, 0x98, 0x11, 0x69, 0xd9, 0x8e, 0x94, 0x9b, 0x1e, 0x87, 0xe9, 0xce, 0x55, 0x28, 0xdf,
     0x8c, 0xa1, 0x89, 0x0d, 0xbf, 0xe6, 0x42, 0x68, 0x41, 0x99, 0x2d, 0x0f, 0xb0, 0x54, 0xbb, 0x16]"

definition sub_byte :: "byte \<Rightarrow> byte" where
  "sub_byte b = sbox ! unat b"

definition xor_bytes :: "bytes \<Rightarrow> bytes \<Rightarrow> bytes" where
  "xor_bytes xs ys = map2 (\<lambda>x y. x XOR y) xs ys"

definition xtime :: "byte \<Rightarrow> byte" where
  "xtime b = push_bit 1 b XOR (if bit b 7 then 0x1b else 0)"

text \<open>The state is a list of 16 bytes, column by column.\<close>

definition shift_rows :: "bytes \<Rightarrow> bytes" where
  "shift_rows s = map (\<lambda>i. s ! i) [0, 5, 10, 15, 4, 9, 14, 3, 8, 13, 2, 7, 12, 1, 6, 11]"

fun mix_columns :: "bytes \<Rightarrow> bytes" where
  "mix_columns (a # b # c # d # rest) =
     [xtime a XOR xtime b XOR b XOR c XOR d, a XOR xtime b XOR xtime c XOR c XOR d,
      a XOR b XOR xtime c XOR xtime d XOR d, xtime a XOR a XOR b XOR c XOR xtime d] @ mix_columns rest"
| "mix_columns _ = []"

definition sub_word :: "32 word \<Rightarrow> 32 word" where
  "sub_word w = be32 (map sub_byte (be32_bytes w))"

definition rot_word :: "32 word \<Rightarrow> 32 word" where
  "rot_word w = rotr 24 w"

definition rcon :: "32 word list" where
  "rcon = [0x01000000, 0x02000000, 0x04000000, 0x08000000, 0x10000000, 0x20000000, 0x40000000,
     0x80000000, 0x1b000000, 0x36000000]"

text \<open>Key expansion: \<open>nk\<close> key words, newest first, then \<open>n\<close> more; \<open>i\<close> is the next index.\<close>

fun expand :: "nat \<Rightarrow> nat \<Rightarrow> nat \<Rightarrow> 32 word list \<Rightarrow> 32 word list" where
  "expand nk i 0 ws = ws"
| "expand nk i (Suc n) ws =
     (let temp = ws ! 0;
          temp = (if i mod nk = 0 then sub_word (rot_word temp) XOR rcon ! (i div nk - 1)
                  else if 6 < nk \<and> i mod nk = 4 then sub_word temp else temp)
      in expand nk (Suc i) n ((ws ! (nk - 1) XOR temp) # ws))"

definition key_rounds :: "bytes \<Rightarrow> nat" where
  "key_rounds key = length key div 4 + 6"

definition expand_key :: "bytes \<Rightarrow> 32 word list" where
  "expand_key key =
     (let nk = length key div 4
      in rev (expand nk nk (4 * (key_rounds key + 1) - nk) (rev (words_of key))))"

definition round_key :: "32 word list \<Rightarrow> nat \<Rightarrow> bytes" where
  "round_key ws r = concat (map (\<lambda>j. be32_bytes (ws ! (4 * r + j))) [0, 1, 2, 3])"

definition aes_round :: "32 word list \<Rightarrow> bytes \<Rightarrow> nat \<Rightarrow> bytes" where
  "aes_round ws s r = xor_bytes (mix_columns (shift_rows (map sub_byte s))) (round_key ws r)"

definition aes_encrypt :: "bytes \<Rightarrow> bytes \<Rightarrow> bytes" where
  "aes_encrypt key blk =
     (let ws = expand_key key; nr = key_rounds key;
          s = foldl (aes_round ws) (xor_bytes blk (round_key ws 0)) [1..<nr]
      in xor_bytes (shift_rows (map sub_byte s)) (round_key ws nr))"

section \<open>GCM\<close>

type_synonym block = "128 word"

definition block_of :: "bytes \<Rightarrow> block" where
  "block_of bs = foldl (\<lambda>w b. push_bit 8 w OR ucast b) 0 (bs @ replicate (16 - length bs) 0)"

definition block_bytes :: "block \<Rightarrow> bytes" where
  "block_bytes w = map (\<lambda>n. ucast (drop_bit n w))
     [120, 112, 104, 96, 88, 80, 72, 64, 56, 48, 40, 32, 24, 16, 8, 0]"

text \<open>Multiplication in the field of GHASH; the most significant bit is the constant term.\<close>

fun gf_mult_loop :: "nat \<Rightarrow> block \<Rightarrow> block \<Rightarrow> block \<Rightarrow> block" where
  "gf_mult_loop 0 x v z = z"
| "gf_mult_loop (Suc n) x v z =
     gf_mult_loop n x (drop_bit 1 v XOR (if bit v 0 then push_bit 120 0xe1 else 0))
       (if bit x n then z XOR v else z)"

definition gf_mult :: "block \<Rightarrow> block \<Rightarrow> block" where
  "gf_mult x y = gf_mult_loop 128 x y 0"

function chunks16 :: "bytes \<Rightarrow> bytes list" where
  "chunks16 bs = (if bs = [] then [] else take 16 bs # chunks16 (drop 16 bs))"
  by pat_completeness auto
termination
  by (relation "measure length") auto

declare chunks16.simps [simp del]

definition ghash :: "block \<Rightarrow> bytes \<Rightarrow> block" where
  "ghash h c =
     gf_mult (foldl (\<lambda>y blk. gf_mult (y XOR block_of blk) h) 0 (chunks16 c)
       XOR of_nat (8 * length c)) h"

definition counter_block :: "bytes \<Rightarrow> 32 word \<Rightarrow> bytes" where
  "counter_block nonce n = nonce @ be32_bytes n"

definition key_stream :: "bytes \<Rightarrow> bytes \<Rightarrow> nat \<Rightarrow> bytes" where
  "key_stream key nonce len =
     take len (concat (map (\<lambda>i. aes_encrypt key (counter_block nonce (of_nat i + 2)))
       [0..<(len + 15) div 16]))"

definition gcm_tag :: "bytes \<Rightarrow> bytes \<Rightarrow> bytes \<Rightarrow> bytes" where
  "gcm_tag key nonce c =
     xor_bytes (block_bytes (ghash (block_of (aes_encrypt key (replicate 16 0))) c))
       (aes_encrypt key (counter_block nonce 1))"

definition gcm_limit :: int where
  "gcm_limit = (2 ^ 32 - 2) * 16"

text \<open>\<^verbatim>\<open>Seal\<close> panics on a message beyond the limit; \<^verbatim>\<open>Open\<close> reports one failure for all causes.\<close>

definition gcm_seal :: "bytes \<Rightarrow> bytes \<Rightarrow> bytes \<Rightarrow> bytes call" where
  "gcm_seal key nonce m =
     (if gcm_limit < int (length m) then Panics ''crypto/cipher: message too large for GCM''
      else let c = xor_bytes m (key_stream key nonce (length m))
           in Ok (c @ gcm_tag key nonce c))"

definition gcm_open :: "bytes \<Rightarrow> bytes \<Rightarrow> bytes \<Rightarrow> bytes call" where
  "gcm_open key nonce data =
     (if length data < 16 \<or> gcm_limit + 16 < int (length data)
      then Error (Err ''cipher: message authentication failed'')
      else let c = take (length data - 16) data; tag = drop (length data - 16) data
           in if gcm_tag key nonce c \<noteq> tag
              then Error (Err ''cipher: message authentication failed'')
              else Ok (xor_bytes c (key_stream key nonce (length c))))"

section \<open>Sealing and opening\<close>

lemma xor_bytes_length [simp]: "length (xor_bytes xs ys) = min (length xs) (length ys)"
  by (simp add: xor_bytes_def)

lemma xor_bytes_twice: "length xs \<le> length ys \<Longrightarrow> xor_bytes (xor_bytes xs ys) ys = xs"
proof (induction xs arbitrary: ys)
  case (Cons x xs)
  then obtain y zs where "ys = y # zs" by (cases ys) auto
  with Cons show ?case by (simp add: xor_bytes_def xor.assoc)
qed (simp add: xor_bytes_def)

lemma round_key_length [simp]: "length (round_key ws r) = 16"
  by (simp add: round_key_def be32_bytes_def)

lemma shift_rows_length [simp]: "length (shift_rows s) = 16"
  by (simp add: shift_rows_def)

lemma aes_encrypt_length [simp]: "length (aes_encrypt key blk) = 16"
  by (simp add: aes_encrypt_def Let_def)

lemma gcm_tag_length [simp]: "length (gcm_tag key nonce c) = 16"
  by (simp add: gcm_tag_def block_bytes_def)

lemma concat_const_length: "(\<And>x. length (f x) = k) \<Longrightarrow> length (concat (map f xs)) = k * length xs"
  by (induction xs) auto

lemma key_stream_length [simp]: "length (key_stream key nonce len) = len"
proof -
  have "len \<le> 16 * ((len + 15) div 16)" by presburger
  then show ?thesis by (simp add: key_stream_def concat_const_length [where k = 16])
qed

text \<open>Opening inverts sealing, for every key, nonce and message within the limit.\<close>

lemma gcm_open_seal: "gcm_seal key nonce m = Ok d \<Longrightarrow> gcm_open key nonce d = Ok m"
  by (auto simp: gcm_seal_def gcm_open_def Let_def xor_bytes_twice split: if_splits)

lemma gcm_seal_length: "gcm_seal key nonce m = Ok d \<Longrightarrow> length d = length m + 16"
  by (auto simp: gcm_seal_def Let_def split: if_splits)

end
