(* ===== verification/Crypting.thy ===== *)
theory Crypting
  imports Encoding Aes_Gcm
begin

text \<open>
  The cryptors of \<^verbatim>\<open>crypto.go\<close>. \<^verbatim>\<open>Ed25519Cryptor\<close> runs on the AES-GCM of theory
  \<^theory_text>\<open>Aes_Gcm\<close>. RSA with its key parsers (\<^verbatim>\<open>crypto/rsa\<close>, \<^verbatim>\<open>crypto/x509\<close>,
  \<^verbatim>\<open>encoding/pem\<close>) and the key agreement of \<^verbatim>\<open>curve25519\<close> are parameters; what the code
  does around them (key decoding, the nonce in front of the ciphertext, slicing it off
  again, type assertions) is modelled with the panics Go has there. Random bytes come from
  \<open>rnd\<close>, as in \<^const>\<open>SecureBytes\<close>.
\<close>

record cryptor =
  encrypt :: "bytes \<Rightarrow> bytes call"
  decrypt :: "bytes \<Rightarrow> bytes call"

section \<open>RsaCryptor\<close>

record RsaCryptor =
  PublicKey :: bytes
  PrivateKey :: bytes

text \<open>
  The result of a key parser: an RSA key, or a key of another kind, on which the type
  assertion \<^verbatim>\<open>.(*rsa.PublicKey)\<close> panics. \<open>rsa_encrypt\<close> stands for one call of
  \<^verbatim>\<open>rsa.EncryptPKCS1v15\<close> with the randomness it draws.
\<close>

datatype 'k parsed_key = RsaKey 'k | OtherKey

record ('pub, 'priv) rsa_lib =
  pem_decode :: "bytes \<Rightarrow> bytes option"
  parse_pkix :: "bytes \<Rightarrow> go_error + 'pub parsed_key"
  parse_pkcs8 :: "bytes \<Rightarrow> go_error + 'priv parsed_key"
  rsa_encrypt :: "'pub \<Rightarrow> bytes \<Rightarrow> go_error + bytes"
  rsa_decrypt :: "'priv \<Rightarrow> bytes \<Rightarrow> go_error + bytes"

definition RsaCryptor_Encrypt :: "('pub, 'priv) rsa_lib \<Rightarrow> RsaCryptor \<Rightarrow> bytes \<Rightarrow> bytes call" where
  "RsaCryptor_Encrypt lib r rawData =
     (case pem_decode lib (PublicKey r) of
        None \<Rightarrow> Error (Err ''public key error'')
      | Some block \<Rightarrow>
          bind_call (of_sum (parse_pkix lib block)) (\<lambda>k.
            case k of
              OtherKey \<Rightarrow> Panics ''interface conversion''
            | RsaKey pub \<Rightarrow> of_sum (rsa_encrypt lib pub rawData)))"

definition RsaCryptor_EncryptToString ::
    "('pub, 'priv) rsa_lib \<Rightarrow> RsaCryptor \<Rightarrow> bytes \<Rightarrow> string call" where
  "RsaCryptor_EncryptToString lib r rawData =
     bind_call (RsaCryptor_Encrypt lib r rawData) (\<lambda>cipherBytes. Ok (Base64Encode cipherBytes))"

definition RsaCryptor_Decrypt :: "('pub, 'priv) rsa_lib \<Rightarrow> RsaCryptor \<Rightarrow> bytes \<Rightarrow> bytes call" where
  "RsaCryptor_Decrypt lib r ciphertext =
     (case pem_decode lib (PrivateKey r) of
        None \<Rightarrow> Error (Err ''private key error'')
      | Some block \<Rightarrow>
          (case parse_pkcs8 lib block of
             Inl e \<Rightarrow> Error (Err ''parse error'')
           | Inr OtherKey \<Rightarrow> Panics ''interface conversion''
           | Inr (RsaKey priv) \<Rightarrow> of_sum (rsa_decrypt lib priv ciphertext)))"

definition RsaCryptor_DecryptFromString ::
    "('pub, 'priv) rsa_lib \<Rightarrow> RsaCryptor \<Rightarrow> string \<Rightarrow> bytes call" where
  "RsaCryptor_DecryptFromString lib r ciphertext =
     bind_call (of_sum (Base64Decode ciphertext)) (\<lambda>data. RsaCryptor_Decrypt lib r data)"

definition NewRsaCryptor :: "bytes \<Rightarrow> bytes \<Rightarrow> RsaCryptor" where
  "NewRsaCryptor publicKey privateKey = \<lparr>PublicKey = publicKey, PrivateKey = privateKey\<rparr>"

definition rsa_cryptor :: "('pub, 'priv) rsa_lib \<Rightarrow> RsaCryptor \<Rightarrow> cryptor" where
  "rsa_cryptor lib r = \<lparr>encrypt = RsaCryptor_Encrypt lib r, decrypt = RsaCryptor_Decrypt lib r\<rparr>"

section \<open>Ed25519Cryptor\<close>

record Ed25519Cryptor =
  SharedKey :: bytes

definition NonceSize :: nat where "NonceSize = 12"

text \<open>\<^verbatim>\<open>aes.NewCipher\<close> accepts keys of 16, 24 and 32 bytes; \<^verbatim>\<open>cipher.NewGCM\<close> then succeeds.\<close>

definition new_gcm :: "bytes \<Rightarrow> bytes call" where
  "new_gcm key = (if length key \<in> {16, 24, 32} then Ok key
                  else Error (Err ''crypto/aes: invalid key size''))"

definition SharedKeyString :: "Ed25519Cryptor \<Rightarrow> string" where
  "SharedKeyString e = Base64Encode (SharedKey e)"

definition Ed25519Cryptor_Encrypt ::
    "entropy \<Rightarrow> Ed25519Cryptor \<Rightarrow> bytes \<Rightarrow> bytes call" where
  "Ed25519Cryptor_Encrypt rnd e rawData =
     bind_call (new_gcm (SharedKey e)) (\<lambda>aesgcm.
     bind_call (of_sum (SecureBytes rnd (of_nat NonceSize))) (\<lambda>nonce.
     bind_call (gcm_seal aesgcm nonce rawData) (\<lambda>sealed.
     Ok (nonce @ sealed))))"

definition Ed25519Cryptor_EncryptToString ::
    "entropy \<Rightarrow> Ed25519Cryptor \<Rightarrow> bytes \<Rightarrow> string call" where
  "Ed25519Cryptor_EncryptToString rnd e rawData =
     bind_call (Ed25519Cryptor_Encrypt rnd e rawData) (\<lambda>cipherBytes. Ok (Base64Encode cipherBytes))"

text \<open>\<^verbatim>\<open>rawData[:n]\<close> panics when \<^verbatim>\<open>rawData\<close> is shorter than \<open>n\<close>: there is no length check.\<close>

definition Ed25519Cryptor_Decrypt :: "Ed25519Cryptor \<Rightarrow> bytes \<Rightarrow> bytes call" where
  "Ed25519Cryptor_Decrypt e rawData =
     bind_call (new_gcm (SharedKey e)) (\<lambda>aesgcm.
       if length rawData < NonceSize then Panics ''slice bounds out of range''
       else let nonce = take NonceSize rawData; cipherData = drop NonceSize rawData
            in bind_call (gcm_open aesgcm nonce cipherData) (\<lambda>outData. Ok outData))"

definition Ed25519Cryptor_DecryptFromString ::
    "Ed25519Cryptor \<Rightarrow> string \<Rightarrow> bytes call" where
  "Ed25519Cryptor_DecryptFromString e ciphertext =
     bind_call (of_sum (Base64Decode ciphertext)) (\<lambda>data. Ed25519Cryptor_Decrypt e data)"

definition NewEd25519Cryptor :: "string \<Rightarrow> Ed25519Cryptor call" where
  "NewEd25519Cryptor sharedKey =
     bind_call (of_sum (Base64Decode sharedKey)) (\<lambda>sharedKeyBytes. Ok \<lparr>SharedKey = sharedKeyBytes\<rparr>)"

text \<open>\<open>x25519 scalar point\<close> stands for \<^verbatim>\<open>curve25519.X25519\<close>.\<close>

definition NewEd25519CryptorByNegotiate ::
    "(bytes \<Rightarrow> bytes \<Rightarrow> go_error + bytes) \<Rightarrow> bytes \<Rightarrow> bytes \<Rightarrow> Ed25519Cryptor call" where
  "NewEd25519CryptorByNegotiate x25519 remotePublicKey selfPrivateKey =
     bind_call (of_sum (x25519 selfPrivateKey remotePublicKey)) (\<lambda>sharedKey.
     Ok \<lparr>SharedKey = sharedKey\<rparr>)"

definition Basepoint :: bytes where
  "Basepoint = 9 # replicate 31 0"

definition clamp_private :: "bytes \<Rightarrow> bytes" where
  "clamp_private private =
     (let private = private[0 := private ! 0 AND 248];
          private = private[31 := private ! 31 AND 127]
      in private[31 := private ! 31 OR 64])"

definition NewEd25519CryptorKeyPair ::
    "(bytes \<Rightarrow> bytes \<Rightarrow> go_error + bytes) \<Rightarrow> entropy \<Rightarrow> (bytes \<times> bytes) call" where
  "NewEd25519CryptorKeyPair x25519 rnd =
     bind_call (of_sum (SecureBytes rnd 32)) (\<lambda>private.
       let private = clamp_private private
       in bind_call (of_sum (x25519 private Basepoint)) (\<lambda>public. Ok (public, private)))"

definition ed25519_cryptor ::
    "entropy \<Rightarrow> Ed25519Cryptor \<Rightarrow> cryptor" where
  "ed25519_cryptor rnd e =
     \<lparr>encrypt = Ed25519Cryptor_Encrypt rnd e, decrypt = Ed25519Cryptor_Decrypt e\<rparr>"

section \<open>The contract\<close>

text \<open>What one side encrypts, the other decrypts; an empty ciphertext is never produced.\<close>

locale crypting_pair =
  fixes sender receiver :: cryptor
  assumes decrypts: "encrypt sender m = Ok c \<Longrightarrow> decrypt receiver c = Ok m"
    and not_empty: "encrypt sender m = Ok c \<Longrightarrow> c \<noteq> []"

interpretation ed25519_pair: crypting_pair "ed25519_cryptor rnd e" "ed25519_cryptor rnd' e"
  for rnd rnd' e
proof
  fix m c
  assume "encrypt (ed25519_cryptor rnd e) m = Ok c"
  then obtain nonce sealed where k: "new_gcm (SharedKey e) = Ok (SharedKey e)"
    and n: "SecureBytes rnd (of_nat NonceSize) = Inr nonce"
    and sl: "gcm_seal (SharedKey e) nonce m = Ok sealed" and c: "c = nonce @ sealed"
    by (auto simp: ed25519_cryptor_def Ed25519Cryptor_Encrypt_def bind_call_Ok_iff new_gcm_def
        split: if_splits)
  have len: "length nonce = NonceSize" using SecureBytes_length [OF n] by (simp add: NonceSize_def)
  show "decrypt (ed25519_cryptor rnd' e) c = Ok m"
    using len by (simp add: ed25519_cryptor_def Ed25519Cryptor_Decrypt_def k c gcm_open_seal [OF sl])
  show "c \<noteq> []" using len by (auto simp: c NonceSize_def)
qed

text \<open>
  What is relied on of RSA and of the key agreement: a ciphertext made with the public key of
  a pair opens with its private key, and two parties compute the same secret of 32 bytes.
\<close>

definition rsa_laws :: "('pub, 'priv) rsa_lib \<Rightarrow> ('pub \<Rightarrow> 'priv \<Rightarrow> bool) \<Rightarrow> bool" where
  "rsa_laws lib key_pair \<longleftrightarrow>
     (\<forall>pub priv m c. key_pair pub priv \<longrightarrow> rsa_encrypt lib pub m = Inr c \<longrightarrow>
        rsa_decrypt lib priv c = Inr m)"

definition x25519_laws :: "(bytes \<Rightarrow> bytes \<Rightarrow> go_error + bytes) \<Rightarrow> bool" where
  "x25519_laws x25519 \<longleftrightarrow>
     (\<forall>a b pa pb. x25519 a Basepoint = Inr pa \<longrightarrow> x25519 b Basepoint = Inr pb \<longrightarrow>
        x25519 a pb = x25519 b pa)"

lemma clamp_private_bits:
  assumes "length bs = 32"
  shows "clamp_private bs ! 0 AND 7 = 0" and "clamp_private bs ! 31 AND 192 = 64"
    and "length (clamp_private bs) = 32"
proof -
  have "(x AND 248) AND 7 = 0" for x :: byte by (simp add: and.assoc)
  moreover have "((x AND 127) OR 64) AND 192 = 64" for x :: byte
  proof -
    have "(x AND y) OR y = y" for y by (rule bit_word_eqI) (auto simp: bit_simps)
    then show ?thesis by (simp add: bit.conj_disj_distrib2 and.assoc)
  qed
  ultimately show "clamp_private bs ! 0 AND 7 = 0" "clamp_private bs ! 31 AND 192 = 64"
    "length (clamp_private bs) = 32"
    using assms by (simp_all add: clamp_private_def Let_def)
qed

lemma key_pair_clamped:
  assumes "NewEd25519CryptorKeyPair x25519 rnd = Ok (pub, priv)"
  shows "x25519 priv Basepoint = Inr pub" and "priv ! 0 AND 7 = 0" and "priv ! 31 AND 192 = 64"
    and "length priv = 32"
proof -
  from assms obtain bs where bs: "SecureBytes rnd 32 = Inr bs" and priv: "priv = clamp_private bs"
    and x: "x25519 priv Basepoint = Inr pub"
    by (auto simp: NewEd25519CryptorKeyPair_def bind_call_Ok_iff Let_def)
  have "length bs = 32" using SecureBytes_length [OF bs] by simp
  from clamp_private_bits [OF this] x
  show "x25519 priv Basepoint = Inr pub" "priv ! 0 AND 7 = 0" "priv ! 31 AND 192 = 64"
    "length priv = 32"
    by (simp_all add: priv)
qed

section \<open>Properties\<close>

text \<open>
  C26: what \<^verbatim>\<open>Ed25519Cryptor\<close> encrypts, whatever the nonce it drew, a cryptor with the same
  key decrypts to the same bytes; the text forms agree, and a ciphertext is 28 bytes longer
  than the message.
\<close>

theorem ed25519_cryptor_round_trip:
  assumes "Ed25519Cryptor_Encrypt rnd e m = Ok c"
  shows "Ed25519Cryptor_Decrypt e c = Ok m \<and> length c = length m + 28 \<and>
    bind_call (Ed25519Cryptor_EncryptToString rnd e m) (Ed25519Cryptor_DecryptFromString e) = Ok m"
proof -
  have d: "Ed25519Cryptor_Decrypt e c = Ok m"
    using ed25519_pair.decrypts [of rnd e m c] assms by (simp add: ed25519_cryptor_def)
  moreover have "length c = length m + 28"
    using assms
    by (auto simp: Ed25519Cryptor_Encrypt_def bind_call_Ok_iff NonceSize_def
        dest!: SecureBytes_length gcm_seal_length)
  moreover have "Base64Decode (Base64Encode c) = Inr c"
    by (simp add: Base64Decode_def Base64Encode_def decode_encode alphabet_ok_std)
  ultimately show ?thesis
    using assms by (simp add: Ed25519Cryptor_EncryptToString_def Ed25519Cryptor_DecryptFromString_def)
qed

text \<open>A message is encrypted whenever the key size is right, the reader works and it fits.\<close>

lemma Ed25519Cryptor_Encrypt_total:
  assumes "length (SharedKey e) \<in> {16, 24, 32}" and "int (length m) \<le> gcm_limit"
  shows "\<exists>c. Ed25519Cryptor_Encrypt (Inr f) e m = Ok c"
  using assms
  by (auto simp: Ed25519Cryptor_Encrypt_def new_gcm_def SecureBytes_def ReadFull_def NonceSize_def
      gcm_seal_def Let_def)

theorem ed25519_cryptor_round_trip_witness:
  "\<exists>c. Ed25519Cryptor_Encrypt (Inr (\<lambda>_. 7)) \<lparr>SharedKey = replicate 32 1\<rparr> [1, 2, 3] = Ok c \<and>
     Ed25519Cryptor_Decrypt \<lparr>SharedKey = replicate 32 1\<rparr> c = Ok [1, 2, 3]"
proof -
  let ?e = "\<lparr>SharedKey = replicate 32 1\<rparr>"
  obtain c where "Ed25519Cryptor_Encrypt (Inr (\<lambda>_. 7)) ?e [1, 2, 3] = Ok c"
    using Ed25519Cryptor_Encrypt_total [of ?e "[1, 2, 3]" "\<lambda>_. 7"] by (auto simp: gcm_limit_def)
  with ed25519_cryptor_round_trip [OF this] show ?thesis by blast
qed

text \<open>
  C27: two parties that exchange the public keys \<^verbatim>\<open>NewEd25519CryptorKeyPair\<close> made them and
  negotiate get the same key, so each decrypts what the other encrypts. The private keys are
  clamped as X25519 asks for. The hypothesis is that X25519 is a Diffie-Hellman function.
\<close>

theorem negotiated_keys_agree:
  assumes "x25519_laws x25519"
    and "NewEd25519CryptorKeyPair x25519 rnd1 = Ok (pub1, priv1)"
    and "NewEd25519CryptorKeyPair x25519 rnd2 = Ok (pub2, priv2)"
    and "NewEd25519CryptorByNegotiate x25519 pub2 priv1 = Ok e1"
    and "Ed25519Cryptor_Encrypt rnd e1 m = Ok c"
  shows "\<exists>e2. NewEd25519CryptorByNegotiate x25519 pub1 priv2 = Ok e2 \<and>
    Ed25519Cryptor_Decrypt e2 c = Ok m \<and>
    length priv1 = 32 \<and> priv1 ! 0 AND 7 = 0 \<and> priv1 ! 31 AND 192 = 64"
proof -
  note k1 = key_pair_clamped [OF assms(2)] and k2 = key_pair_clamped [OF assms(3)]
  from k1(1) k2(1) assms(1) have "x25519 priv1 pub2 = x25519 priv2 pub1"
    unfolding x25519_laws_def by blast
  with assms(4) have "NewEd25519CryptorByNegotiate x25519 pub1 priv2 = Ok e1"
    by (simp add: NewEd25519CryptorByNegotiate_def)
  moreover have "Ed25519Cryptor_Decrypt e1 c = Ok m"
    using ed25519_pair.decrypts [of rnd e1 m c] assms(5) by (simp add: ed25519_cryptor_def)
  ultimately show ?thesis using k1 by blast
qed

text \<open>For the witness, a commutative function with the shape of a key agreement.\<close>

lemma xor_bytes_swap: "xor_bytes a (xor_bytes b c) = xor_bytes b (xor_bytes a c)"
proof (induction a arbitrary: b c)
  case Nil
  then show ?case by (cases b; cases c) (simp_all add: xor_bytes_def)
next
  case (Cons x a)
  show ?case
    using Cons [of "tl b" "tl c"]
    by (cases b; cases c) (simp_all add: xor_bytes_def xor.left_commute)
qed

theorem negotiated_keys_agree_witness:
  "\<exists>x25519 pub1 priv1 pub2 priv2 e1 e2 c.
     x25519_laws x25519 \<and>
     NewEd25519CryptorKeyPair x25519 (Inr (\<lambda>_. 1)) = Ok (pub1, priv1) \<and>
     NewEd25519CryptorKeyPair x25519 (Inr (\<lambda>_. 2)) = Ok (pub2, priv2) \<and>
     NewEd25519CryptorByNegotiate x25519 pub2 priv1 = Ok e1 \<and>
     Ed25519Cryptor_Encrypt (Inr (\<lambda>_. 3)) e1 [42] = Ok c \<and>
     NewEd25519CryptorByNegotiate x25519 pub1 priv2 = Ok e2 \<and> Ed25519Cryptor_Decrypt e2 c = Ok [42]"
proof -
  let ?x = "\<lambda>a p. Inr (xor_bytes a p) :: go_error + bytes"
  have laws: "x25519_laws ?x" by (auto simp: x25519_laws_def xor_bytes_swap)
  obtain pub1 priv1 where k1: "NewEd25519CryptorKeyPair ?x (Inr (\<lambda>_. 1)) = Ok (pub1, priv1)"
    by (simp add: NewEd25519CryptorKeyPair_def SecureBytes_def ReadFull_def Let_def)
  obtain pub2 priv2 where k2: "NewEd25519CryptorKeyPair ?x (Inr (\<lambda>_. 2)) = Ok (pub2, priv2)"
    by (simp add: NewEd25519CryptorKeyPair_def SecureBytes_def ReadFull_def Let_def)
  let ?e = "\<lparr>SharedKey = xor_bytes priv1 pub2\<rparr>"
  have n: "NewEd25519CryptorByNegotiate ?x pub2 priv1 = Ok ?e"
    by (simp add: NewEd25519CryptorByNegotiate_def)
  have "length (SharedKey ?e) = 32"
    using key_pair_clamped [OF k1] key_pair_clamped [OF k2] by (auto simp: Basepoint_def)
  then obtain c where c: "Ed25519Cryptor_Encrypt (Inr (\<lambda>_. 3)) ?e [42] = Ok c"
    using Ed25519Cryptor_Encrypt_total [of ?e "[42]" "\<lambda>_. 3"] by (auto simp: gcm_limit_def)
  from negotiated_keys_agree [OF laws k1 k2 n c] laws k1 k2 n c show ?thesis by blast
qed

end
