(* ===== verification/Marshalers.thy ===== *)
theory Marshalers
  imports Niu_Prelude
begin

text \<open>
  The marshalers of \<^verbatim>\<open>marshaler.go\<close>. The interface \<^verbatim>\<open>PayloadMarshaler\<close> is a record of its
  methods; a payload of Go type \<^verbatim>\<open>any\<close> is a value of the type variable. The packages
  \<^verbatim>\<open>encoding/json\<close> and \<^verbatim>\<open>shamaton/msgpack\<close> are parameters: the two functions of the package
  that the methods call, \<^verbatim>\<open>Unmarshal\<close> into a variable of type \<^verbatim>\<open>any\<close> giving its value.
\<close>

record 'v marshaler =
  marshal :: "'v \<Rightarrow> go_error + bytes"
  unmarshal :: "bytes \<Rightarrow> go_error + 'v"

record 'v package =
  package_Marshal :: "'v \<Rightarrow> go_error + bytes"
  package_Unmarshal :: "bytes \<Rightarrow> go_error + 'v"

definition MsgPackMarshaler_Marshal :: "'v package \<Rightarrow> 'v \<Rightarrow> go_error + bytes" where
  "MsgPackMarshaler_Marshal msgpack v = package_Marshal msgpack v"

definition MsgPackMarshaler_Unmarshal :: "'v package \<Rightarrow> bytes \<Rightarrow> go_error + 'v" where
  "MsgPackMarshaler_Unmarshal msgpack data = package_Unmarshal msgpack data"

definition msgpackMarshaler :: "'v package \<Rightarrow> 'v marshaler" where
  "msgpackMarshaler msgpack =
     \<lparr>marshal = MsgPackMarshaler_Marshal msgpack, unmarshal = MsgPackMarshaler_Unmarshal msgpack\<rparr>"

definition JsonMarshaler_Marshal :: "'v package \<Rightarrow> 'v \<Rightarrow> go_error + bytes" where
  "JsonMarshaler_Marshal json v = package_Marshal json v"

definition JsonMarshaler_Unmarshal :: "'v package \<Rightarrow> bytes \<Rightarrow> go_error + 'v" where
  "JsonMarshaler_Unmarshal json data = package_Unmarshal json data"

definition jsonMarshaler :: "'v package \<Rightarrow> 'v marshaler" where
  "jsonMarshaler json =
     \<lparr>marshal = JsonMarshaler_Marshal json, unmarshal = JsonMarshaler_Unmarshal json\<rparr>"

section \<open>Round trips\<close>

text \<open>What the packages promise for payloads of the kinds they decode themselves.\<close>

definition package_laws :: "'v package \<Rightarrow> bool" where
  "package_laws p \<longleftrightarrow> (\<forall>v bs. package_Marshal p v = Inr bs \<longrightarrow> package_Unmarshal p bs = Inr v)"

locale payload_marshaler =
  fixes ms :: "'v marshaler" and laws :: bool
  assumes marshal_unmarshal: "laws \<Longrightarrow> marshal ms v = Inr bs \<Longrightarrow> unmarshal ms bs = Inr v"
begin

text \<open>Two payloads with the same bytes are the same.\<close>

lemma marshal_inj: "laws \<Longrightarrow> marshal ms v = Inr bs \<Longrightarrow> marshal ms w = Inr bs \<Longrightarrow> v = w"
  by (metis marshal_unmarshal sum.inject(2))

end

interpretation msgpack_payload: payload_marshaler "msgpackMarshaler p" "package_laws p" for p
  by unfold_locales
    (simp add: msgpackMarshaler_def MsgPackMarshaler_Marshal_def MsgPackMarshaler_Unmarshal_def package_laws_def)

interpretation json_payload: payload_marshaler "jsonMarshaler p" "package_laws p" for p
  by unfold_locales
    (simp add: jsonMarshaler_def JsonMarshaler_Marshal_def JsonMarshaler_Unmarshal_def package_laws_def)

text \<open>A package whose payloads are the bytes themselves.\<close>

definition raw_package :: "bytes package" where
  "raw_package = \<lparr>package_Marshal = Inr, package_Unmarshal = Inr\<rparr>"

lemma raw_package_laws: "package_laws raw_package"
  by (simp add: package_laws_def raw_package_def)

lemma raw_json [simp]: "jsonMarshaler raw_package = \<lparr>marshal = Inr, unmarshal = Inr\<rparr>"
  by (auto simp: jsonMarshaler_def JsonMarshaler_Marshal_def JsonMarshaler_Unmarshal_def raw_package_def)

end
