(* ===== verification/Packet.thy ===== *)
theory Packet
  imports Signing Crypting Marshalers
begin

text \<open>
  The binary protocol of \<^verbatim>\<open>bytes_packet.go\<close>: nine bytes of metadata, an optional encrypted
  body and an optional signature. A \<^verbatim>\<open>nil\<close> signer or cryptor is \<open>None\<close>. The package behind the
  marshaler is a parameter (JSON or MessagePack, \<open>Marshalers\<close>), as is the current time in
  seconds since the protocol's start.
\<close>

record PacketMetaData =
  MsgType :: byte
  RequestId :: int32
  Timestamp :: int32

record 'v RequestPacket =
  meta :: PacketMetaData
  Payload :: "'v option"

record 'v PacketProtocol =
  proto_signer :: "signer option"
  proto_cryptor :: "cryptor option"
  proto_marshaler :: "'v marshaler"

definition metaLength :: nat where "metaLength = 9"

section \<open>Operations\<close>

text \<open>\<^verbatim>\<open>NewMsgPackProtocol\<close> and \<^verbatim>\<open>NewJsonProtocol\<close> differ in the marshaler they put in.\<close>

definition NewMsgPackProtocol :: "'v package \<Rightarrow> signer option \<Rightarrow> cryptor option \<Rightarrow> 'v PacketProtocol" where
  "NewMsgPackProtocol msgpack signer cryptor =
     \<lparr>proto_signer = signer, proto_cryptor = cryptor, proto_marshaler = msgpackMarshaler msgpack\<rparr>"

definition NewJsonProtocol :: "'v package \<Rightarrow> signer option \<Rightarrow> cryptor option \<Rightarrow> 'v PacketProtocol" where
  "NewJsonProtocol json signer cryptor =
     \<lparr>proto_signer = signer, proto_cryptor = cryptor, proto_marshaler = jsonMarshaler json\<rparr>"

text \<open>Both fields of the source read the bytes 1 to 4.\<close>

definition GetMeta :: "'v PacketProtocol \<Rightarrow> bytes \<Rightarrow> PacketMetaData call" where
  "GetMeta m data =
     (if length data < metaLength then Error (Err ''bad data format'')
      else let requestId = push_bit 24 (ucast (data ! 1)) OR push_bit 16 (ucast (data ! 2)) OR
                 push_bit 8 (ucast (data ! 3)) OR (ucast (data ! 4) :: int64);
               ts = push_bit 24 (ucast (data ! 1)) OR push_bit 16 (ucast (data ! 2)) OR
                 push_bit 8 (ucast (data ! 3)) OR (ucast (data ! 4) :: int64)
           in Ok \<lparr>MsgType = data ! 0, RequestId = ucast requestId, Timestamp = ucast ts\<rparr>)"

text \<open>\<^verbatim>\<open>byte(x>>24&0x000F), byte(x>>16&0x000F), byte(x>>8&0x000F), byte(x&0x000F)\<close>\<close>

definition nibble_bytes :: "int32 \<Rightarrow> bytes" where
  "nibble_bytes x = [ucast (signed_drop_bit 24 x AND 0x000F), ucast (signed_drop_bit 16 x AND 0x000F),
     ucast (signed_drop_bit 8 x AND 0x000F), ucast (x AND 0x000F)]"

definition EncodeResp ::
    "'v PacketProtocol \<Rightarrow> int32 \<Rightarrow> int32 \<Rightarrow> int32 \<Rightarrow> byte \<Rightarrow> 'v option \<Rightarrow> bytes call" where
  "EncodeResp m timestamp msgType requestId code payload =
     bind_call (case payload of None \<Rightarrow> Ok [] | Some v \<Rightarrow> of_sum (marshal (proto_marshaler m) v)) (\<lambda>body.
       let out = [ucast msgType];
           out = out @ nibble_bytes requestId;
           out = out @ nibble_bytes timestamp
       in bind_call
            (case proto_cryptor m of
               None \<Rightarrow> Ok out
             | Some c \<Rightarrow>
                 if body \<noteq> [] then bind_call (encrypt c body) (\<lambda>body. Ok (out @ body)) else Ok out)
            (\<lambda>out.
               case proto_signer m of
                 None \<Rightarrow> Ok out
               | Some s \<Rightarrow> bind_call (sign s out) (\<lambda>signature. Ok (out @ signature))))"

text \<open>The signature check of \<^verbatim>\<open>DecodeReq\<close>: the body without the signature, if it verifies.\<close>

definition check_signature :: "signer option \<Rightarrow> bytes \<Rightarrow> bytes call" where
  "check_signature sg data =
     (case sg of
        None \<Rightarrow> Ok (drop metaLength data)
      | Some s \<Rightarrow>
          let signStart = int (length data) - signature_len s
          in if signStart \<ge> int (length data) \<or> signStart < int metaLength
             then Error (Err ''bad data format: no sign'')
             else let signature = drop (nat signStart) data;
                      body = drop metaLength (take (nat signStart) data);
                      dataToVerify = take (nat signStart) data
                  in bind_call (verify s dataToVerify signature) (\<lambda>valid.
                       if \<not> valid then Error (Err ''sign verify fail'') else Ok body))"

definition DecodeReq :: "'v PacketProtocol \<Rightarrow> bytes \<Rightarrow> 'v RequestPacket call" where
  "DecodeReq m data =
     bind_call (GetMeta m data) (\<lambda>md.
     bind_call (check_signature (proto_signer m) data) (\<lambda>body.
       if body \<noteq> []
       then bind_call (case proto_cryptor m of None \<Rightarrow> Ok body | Some c \<Rightarrow> decrypt c body) (\<lambda>body.
            bind_call (of_sum (unmarshal (proto_marshaler m) body)) (\<lambda>payload.
            Ok \<lparr>meta = md, Payload = Some payload\<rparr>))
       else Ok \<lparr>meta = md, Payload = None\<rparr>))"

section \<open>The wire format of a request\<close>

text \<open>
  The specification of what a client sends: type, request id and time stamp in big-endian
  order, then the body, then the signature of all of that.
\<close>

definition request_header :: "byte \<Rightarrow> int32 \<Rightarrow> int32 \<Rightarrow> bytes" where
  "request_header t r ts = t # be32_bytes r @ be32_bytes ts"

lemma request_header_length [simp]: "length (request_header t r ts) = metaLength"
  by (simp add: request_header_def be32_bytes_def metaLength_def)

lemma bit_byte_piece:
  fixes r :: int32
  assumes "m \<le> 24"
  shows "bit (push_bit m (ucast (ucast (drop_bit m r) :: byte)) :: int64) n \<longleftrightarrow>
    m \<le> n \<and> n < m + 8 \<and> bit r n"
  using assms by (cases "m \<le> n") (auto simp: bit_simps le_iff_add)

lemma bytes_joined:
  "ucast (push_bit 24 (ucast (ucast (drop_bit 24 r) :: byte)) OR
     push_bit 16 (ucast (ucast (drop_bit 16 r) :: byte)) OR
     push_bit 8 (ucast (ucast (drop_bit 8 r) :: byte)) OR
     push_bit 0 (ucast (ucast (drop_bit 0 r) :: byte) :: int64)) = (r :: int32)"
proof (rule bit_word_eqI)
  fix n assume "n < LENGTH(32)"
  then show "bit (ucast (push_bit 24 (ucast (ucast (drop_bit 24 r) :: byte)) OR
     push_bit 16 (ucast (ucast (drop_bit 16 r) :: byte)) OR
     push_bit 8 (ucast (ucast (drop_bit 8 r) :: byte)) OR
     push_bit 0 (ucast (ucast (drop_bit 0 r) :: byte) :: int64)) :: int32) n = bit r n"
    by (simp only: bit_ucast_iff bit_or_iff bit_byte_piece) auto
qed

lemma GetMeta_header:
  "GetMeta m (request_header t r ts @ rest) = Ok \<lparr>MsgType = t, RequestId = r, Timestamp = r\<rparr>"
  using bytes_joined [of r]
  by (simp add: GetMeta_def request_header_def be32_bytes_def metaLength_def Let_def)

text \<open>The bytes \<^verbatim>\<open>EncodeResp\<close> writes for a number keep the low four bits of each byte.\<close>

lemma bit_nibble_piece:
  fixes r :: int32
  assumes "m \<le> 24"
  shows "bit (push_bit m (ucast (ucast (signed_drop_bit m r AND mask 4) :: byte)) :: int64) n \<longleftrightarrow>
    m \<le> n \<and> n < m + 4 \<and> bit r n"
  using assms by (cases "m \<le> n") (auto simp: bit_simps le_iff_add)

lemma bit_low_nibbles:
  "bit (0x0F0F0F0F :: int32) n \<longleftrightarrow>
     24 \<le> n \<and> n < 28 \<or> 16 \<le> n \<and> n < 20 \<or> 8 \<le> n \<and> n < 12 \<or> n < 4"
proof -
  have eq: "(0x0F0F0F0F :: int32) =
      push_bit 24 (mask 4) OR push_bit 16 (mask 4) OR push_bit 8 (mask 4) OR mask 4"
    by (simp add: mask_eq_exp_minus_1)
  show ?thesis unfolding eq by (auto simp: bit_simps)
qed

lemma nibbles_joined:
  "ucast (push_bit 24 (ucast (ucast (signed_drop_bit 24 r AND mask 4) :: byte)) OR
     push_bit 16 (ucast (ucast (signed_drop_bit 16 r AND mask 4) :: byte)) OR
     push_bit 8 (ucast (ucast (signed_drop_bit 8 r AND mask 4) :: byte)) OR
     push_bit 0 (ucast (ucast (signed_drop_bit 0 r AND mask 4) :: byte) :: int64)) =
   (r :: int32) AND 0x0F0F0F0F" (is "?l = _")
proof (rule bit_word_eqI)
  fix n assume "n < LENGTH(32)"
  then show "bit ?l n = bit (r AND 0x0F0F0F0F) n"
    by (simp only: bit_ucast_iff bit_or_iff bit_and_iff bit_nibble_piece bit_low_nibbles) auto
qed

lemma nibble_bytes_mask:
  "nibble_bytes x = [ucast (signed_drop_bit 24 x AND mask 4), ucast (signed_drop_bit 16 x AND mask 4),
     ucast (signed_drop_bit 8 x AND mask 4), ucast (signed_drop_bit 0 x AND mask 4)]"
  by (simp add: nibble_bytes_def mask_eq_exp_minus_1)

lemma GetMeta_nibbles:
  "4 \<le> length rest \<Longrightarrow> GetMeta m (t # nibble_bytes r @ rest) =
     Ok \<lparr>MsgType = t, RequestId = r AND 0x0F0F0F0F, Timestamp = r AND 0x0F0F0F0F\<rparr>"
  using nibbles_joined [of r]
  by (simp add: GetMeta_def nibble_bytes_mask metaLength_def Let_def)

section \<open>Requests between matching peers\<close>

text \<open>The client's side of a request, as the decoder expects it.\<close>

definition encode_request ::
    "'v PacketProtocol \<Rightarrow> byte \<Rightarrow> int32 \<Rightarrow> int32 \<Rightarrow> 'v \<Rightarrow> bytes call" where
  "encode_request p t r ts v =
     bind_call (of_sum (marshal (proto_marshaler p) v)) (\<lambda>plain.
     bind_call (case proto_cryptor p of None \<Rightarrow> Ok plain | Some c \<Rightarrow> encrypt c plain) (\<lambda>body.
       let out = request_header t r ts @ body
       in case proto_signer p of
            None \<Rightarrow> Ok out
          | Some s \<Rightarrow> bind_call (sign s out) (\<lambda>signature. Ok (out @ signature))))"

locale packet_peers =
  signs: signing_pair ss rs + crypts: crypting_pair cs rc + payloads: payload_marshaler ms laws
  for ss rs :: signer and cs rc :: cryptor and ms :: "'v marshaler" and laws :: bool
begin

lemma check_signature_signed:
  assumes "sign ss (request_header t r ts @ body) = Ok sg"
  shows "check_signature (Some rs) (request_header t r ts @ body @ sg) = Ok body"
proof -
  let ?out = "request_header t r ts @ body"
  note len = signs.sign_length [OF assms] and ver = signs.sign_verifies [OF assms]
  have "int (length (?out @ sg)) - signature_len rs = int (length ?out)" using len by simp
  moreover have "take (length ?out) (?out @ sg) = ?out" "drop (length ?out) (?out @ sg) = sg"
    by simp_all
  moreover have "drop metaLength ?out = body" by simp
  ultimately show ?thesis
    using ver signs.len_positive unfolding check_signature_def by (simp add: Let_def)
qed

lemma decode_encoded:
  assumes laws
    and "encode_request \<lparr>proto_signer = Some ss, proto_cryptor = Some cs, proto_marshaler = ms\<rparr>
      t r ts v = Ok data"
  shows "DecodeReq \<lparr>proto_signer = Some rs, proto_cryptor = Some rc, proto_marshaler = ms\<rparr> data =
    Ok \<lparr>meta = \<lparr>MsgType = t, RequestId = r, Timestamp = r\<rparr>, Payload = Some v\<rparr>"
proof -
  from assms(2) obtain plain body sg where m: "marshal ms v = Inr plain"
    and e: "encrypt cs plain = Ok body" and s: "sign ss (request_header t r ts @ body) = Ok sg"
    and data: "data = request_header t r ts @ body @ sg"
    by (auto simp: encode_request_def bind_call_Ok_iff Let_def)
  note payloads.marshal_unmarshal [OF assms(1) m]
  then show ?thesis
    using check_signature_signed [OF s] crypts.decrypts [OF e] crypts.not_empty [OF e]
    by (simp add: DecodeReq_def data GetMeta_header)
qed

end

interpretation json_peers: packet_peers "hmac_signer h" "hmac_signer h"
    "ed25519_cryptor rnd e" "ed25519_cryptor rnd' e" "jsonMarshaler p" "package_laws p"
  for h rnd rnd' e p
  by (intro packet_peers.intro hmac_pair.signing_pair_axioms ed25519_pair.crypting_pair_axioms
      json_payload.payload_marshaler_axioms)

interpretation msgpack_peers: packet_peers "hmac_signer h" "hmac_signer h"
    "ed25519_cryptor rnd e" "ed25519_cryptor rnd' e" "msgpackMarshaler p" "package_laws p"
  for h rnd rnd' e p
  by (intro packet_peers.intro hmac_pair.signing_pair_axioms ed25519_pair.crypting_pair_axioms
      msgpack_payload.payload_marshaler_axioms)

section \<open>Properties\<close>



text \<open>
  C4: a packet is accepted only if its signature verifies: whenever \<^verbatim>\<open>DecodeReq\<close> returns a
  packet and a signer is configured, the packet's last \<^verbatim>\<open>SignatureLen\<close> bytes are a valid
  signature of everything before them, metadata included.
\<close>

theorem decode_only_signed:
  assumes "proto_signer m = Some s" and "DecodeReq m data = Ok packet"
  shows "\<exists>n. metaLength \<le> n \<and> n < length data \<and> int (length data - n) = signature_len s \<and>
    verify s (take n data) (drop n data) = Ok True"
proof -
  from assms obtain body where c: "check_signature (Some s) data = Ok body"
    by (auto simp: DecodeReq_def bind_call_Ok_iff)
  let ?n = "int (length data) - signature_len s"
  from c have n: "?n < int (length data)" "int metaLength \<le> ?n"
    and v: "verify s (take (nat ?n) data) (drop (nat ?n) data) = Ok True"
    by (auto simp: check_signature_def Let_def bind_call_Ok_iff split: if_splits)
  show ?thesis using n v by (intro exI [of _ "nat ?n"]) auto
qed

theorem decode_only_signed_witness:
  "\<exists>data packet n. DecodeReq (NewJsonProtocol raw_package (Some (hmac_signer (NewHmacSigner [1])))
       None) data = Ok packet \<and>
     verify (hmac_signer (NewHmacSigner [1])) (take n data) (drop n data) = Ok True"
proof -
  let ?s = "hmac_signer (NewHmacSigner [1])"
  let ?m = "NewJsonProtocol raw_package (Some ?s) None"
  let ?out = "request_header 1 2 3 @ [7]"
  have "sign ?s ?out = Ok (hmac [1] ?out)"
    by (simp add: hmac_signer_def HmacSigner_Sign_def NewHmacSigner_def)
  from json_peers.check_signature_signed [OF this]
  have d: "DecodeReq ?m (request_header 1 2 3 @ [7] @ hmac [1] ?out) =
      Ok \<lparr>meta = \<lparr>MsgType = 1, RequestId = 2, Timestamp = 2\<rparr>, Payload = Some [7]\<rparr>"
    by (simp add: DecodeReq_def GetMeta_header NewJsonProtocol_def)
  have "proto_signer ?m = Some ?s" by (simp add: NewJsonProtocol_def)
  from decode_only_signed [OF this d] d show ?thesis by blast
qed

text \<open>
  C32: A response does not say what it was asked to say. Reading its metadata gives the request id
  with the high half of each byte cleared, for every protocol and payload; and without a cryptor
  any two payloads that marshal, and any two codes, give the same bytes.
\<close>

theorem response_loses_data:
  assumes "EncodeResp m timestamp msgType requestId code payload = Ok data"
  shows "GetMeta m data = Ok \<lparr>MsgType = ucast msgType, RequestId = requestId AND 0x0F0F0F0F,
      Timestamp = requestId AND 0x0F0F0F0F\<rparr> \<and>
    (\<forall>v w bs c. proto_cryptor m = None \<longrightarrow> payload = Some v \<longrightarrow> marshal (proto_marshaler m) w = Inr bs \<longrightarrow>
      EncodeResp m timestamp msgType requestId c (Some w) = Ok data)"
proof (intro conjI allI impI)
  from assms obtain tail where "data = ucast msgType # nibble_bytes requestId @ nibble_bytes timestamp @ tail"
    by (auto simp: EncodeResp_def bind_call_Ok_iff Let_def split: option.splits if_splits)
  then show "GetMeta m data = Ok \<lparr>MsgType = ucast msgType, RequestId = requestId AND 0x0F0F0F0F,
      Timestamp = requestId AND 0x0F0F0F0F\<rparr>"
    using GetMeta_nibbles [of "nibble_bytes timestamp @ tail" m "ucast msgType" requestId]
    by (simp add: nibble_bytes_def)
  show "EncodeResp m timestamp msgType requestId c (Some w) = Ok data"
    if "proto_cryptor m = None" "payload = Some v" "marshal (proto_marshaler m) w = Inr bs" for v w bs c
    using assms that by (simp add: EncodeResp_def bind_call_Ok_iff)
qed

theorem response_loses_data_witness:
  "\<exists>data. EncodeResp (NewJsonProtocol raw_package None None) 0 1 0x12 0 (Some [5]) = Ok data \<and>
     GetMeta (NewJsonProtocol raw_package None None) data = Ok \<lparr>MsgType = 1, RequestId = 2, Timestamp = 2\<rparr> \<and>
     EncodeResp (NewJsonProtocol raw_package None None) 0 1 0x12 9 (Some [6, 7]) = Ok data"
proof -
  let ?m = "NewJsonProtocol raw_package None None"
  obtain data where d: "EncodeResp ?m 0 1 0x12 0 (Some [5]) = Ok data"
    by (simp add: EncodeResp_def NewJsonProtocol_def Let_def)
  from response_loses_data [OF d] d show ?thesis
    by (auto simp: NewJsonProtocol_def)
qed



end
