(* ===== verification/Hub_Lines.thy ===== *)
theory Hub_Lines
  imports Niu_Prelude
begin

text \<open>
  \<^verbatim>\<open>Line\<close> and \<^verbatim>\<open>UserLines\<close> of \<^verbatim>\<open>hub.go\<close>. A \<^verbatim>\<open>*Line\<close> is a number; \<open>tab\<close> maps it to the
  line's fields. A method of \<^verbatim>\<open>UserLines\<close> holds its lock throughout, so it is a function on
  the list \<^verbatim>\<open>u.lines\<close>; what it sends on the lines' channels is returned as a list of
  sends, in order. Whether a send can proceed is the subject of theory
  \<^theory_text>\<open>Hub_Steps\<close>.
\<close>

record Line =
  line_id :: string
  userId :: string
  platform :: int8
  lastActive :: int64

type_synonym lines = "nat list"
type_synonym line_tab = "nat \<Rightarrow> Line"

datatype send = SendClose (send_to: nat) | SendWrite (send_to: nat) bytes

section \<open>Reading\<close>

definition UserLines_Len :: "lines \<Rightarrow> go_int" where
  "UserLines_Len u = of_nat (length u)"

definition UserLines_add :: "nat \<Rightarrow> lines \<Rightarrow> lines" where
  "UserLines_add line u = u @ [line]"

fun UserLines_Get :: "line_tab \<Rightarrow> string \<Rightarrow> lines \<Rightarrow> nat option" where
  "UserLines_Get tab lineId [] = None"
| "UserLines_Get tab lineId (v # vs) =
     (if line_id (tab v) = lineId then Some v else UserLines_Get tab lineId vs)"

fun select_loop :: "(nat \<Rightarrow> bool) \<Rightarrow> lines \<Rightarrow> lines" where
  "select_loop P [] = []"
| "select_loop P (v # vs) = (if P v then v # select_loop P vs else select_loop P vs)"

text \<open>No platforms: \<^verbatim>\<open>nil\<close>.\<close>

definition GetPlatformLines :: "line_tab \<Rightarrow> int8 list \<Rightarrow> lines \<Rightarrow> lines option" where
  "GetPlatformLines tab platforms u =
     (if platforms = [] then None
      else Some (select_loop (\<lambda>v. List.member platforms (platform (tab v))) u))"

section \<open>Closing\<close>

text \<open>
  The loop of the closing methods: a line that meets the condition gets a message on its
  \<^verbatim>\<open>closeChan\<close>, the others go to the new slice.
\<close>

fun close_loop :: "(nat \<Rightarrow> bool) \<Rightarrow> lines \<Rightarrow> send list \<times> lines" where
  "close_loop P [] = ([], [])"
| "close_loop P (v # vs) =
     (let (sends, lines) = close_loop P vs
      in if P v then (SendClose v # sends, lines) else (sends, v # lines))"

definition UserLines_Close :: "line_tab \<Rightarrow> string \<Rightarrow> lines \<Rightarrow> send list \<times> lines" where
  "UserLines_Close tab lineId u = close_loop (\<lambda>v. line_id (tab v) = lineId) u"

definition ClosePlatforms :: "line_tab \<Rightarrow> int8 list \<Rightarrow> lines \<Rightarrow> send list \<times> lines" where
  "ClosePlatforms tab platforms u =
     (if platforms = [] then ([], u)
      else close_loop (\<lambda>v. List.member platforms (platform (tab v))) u)"

definition ClosePlatformsExcept :: "line_tab \<Rightarrow> int8 list \<Rightarrow> lines \<Rightarrow> send list \<times> lines" where
  "ClosePlatformsExcept tab exceptPlatforms u =
     (if exceptPlatforms = [] then ([], u)
      else close_loop (\<lambda>v. \<not> List.member exceptPlatforms (platform (tab v))) u)"

definition CloseLines :: "line_tab \<Rightarrow> string list \<Rightarrow> lines \<Rightarrow> send list \<times> lines" where
  "CloseLines tab lineIds u =
     (if lineIds = [] then ([], u)
      else close_loop (\<lambda>v. List.member lineIds (line_id (tab v))) u)"

definition CloseLinesExcept :: "line_tab \<Rightarrow> string list \<Rightarrow> lines \<Rightarrow> send list \<times> lines" where
  "CloseLinesExcept tab exceptLineIds u =
     (if exceptLineIds = [] then ([], u)
      else close_loop (\<lambda>v. \<not> List.member exceptLineIds (line_id (tab v))) u)"

text \<open>The loop reads the clock at each line: \<open>now v\<close> is the reading taken at line \<open>v\<close>.\<close>

definition closeInactiveLines ::
    "line_tab \<Rightarrow> (nat \<Rightarrow> int64) \<Rightarrow> int64 \<Rightarrow> lines \<Rightarrow> send list \<times> lines" where
  "closeInactiveLines tab now maxIdleSeconds u =
     (if sint maxIdleSeconds \<le> 0 then ([], u)
      else close_loop (\<lambda>v. sint (now v - lastActive (tab v)) > sint maxIdleSeconds) u)"

definition CloseAll :: "lines \<Rightarrow> send list \<times> lines" where
  "CloseAll u = (map SendClose u, [])"

section \<open>Pushing\<close>

fun push_loop :: "(nat \<Rightarrow> bool) \<Rightarrow> bytes \<Rightarrow> lines \<Rightarrow> send list" where
  "push_loop P data [] = []"
| "push_loop P data (v # vs) =
     (if P v then SendWrite v data # push_loop P data vs else push_loop P data vs)"

definition UserLines_PushMessage :: "bytes \<Rightarrow> lines \<Rightarrow> send list" where
  "UserLines_PushMessage data u = (if data = [] then [] else push_loop (\<lambda>_. True) data u)"

definition PushMessageExceptPlatforms :: "line_tab \<Rightarrow> bytes \<Rightarrow> int8 list \<Rightarrow> lines \<Rightarrow> send list" where
  "PushMessageExceptPlatforms tab data exceptPlatforms u =
     (if exceptPlatforms = [] \<or> data = [] then []
      else push_loop (\<lambda>v. \<not> List.member exceptPlatforms (platform (tab v))) data u)"

definition PushMessageExceptLines :: "line_tab \<Rightarrow> bytes \<Rightarrow> string list \<Rightarrow> lines \<Rightarrow> send list" where
  "PushMessageExceptLines tab data exceptLineIds u =
     (if exceptLineIds = [] \<or> data = [] then []
      else push_loop (\<lambda>v. \<not> List.member exceptLineIds (line_id (tab v))) data u)"

definition PushMessageToPlatforms :: "line_tab \<Rightarrow> bytes \<Rightarrow> int8 list \<Rightarrow> lines \<Rightarrow> send list" where
  "PushMessageToPlatforms tab data platforms u =
     (if platforms = [] \<or> data = [] then []
      else push_loop (\<lambda>v. List.member platforms (platform (tab v))) data u)"

definition PushMessageToLines :: "line_tab \<Rightarrow> bytes \<Rightarrow> string list \<Rightarrow> lines \<Rightarrow> send list" where
  "PushMessageToLines tab data lineIds u =
     (if lineIds = [] \<or> data = [] then []
      else push_loop (\<lambda>v. List.member lineIds (line_id (tab v))) data u)"

section \<open>Contracts\<close>

lemma select_loop_eq: "select_loop P u = filter P u"
  by (induction u) auto

lemma close_loop_eq: "close_loop P u = (map SendClose (filter P u), filter (\<lambda>v. \<not> P v) u)"
  by (induction u) auto

lemma push_loop_eq: "push_loop P data u = map (\<lambda>v. SendWrite v data) (filter P u)"
  by (induction u) auto

lemma Get_Some: "UserLines_Get tab i u = Some v \<Longrightarrow> v \<in> set u \<and> line_id (tab v) = i"
  by (induction u) (auto split: if_splits)

lemma Get_None: "UserLines_Get tab i u = None \<longleftrightarrow> (\<forall>v \<in> set u. line_id (tab v) \<noteq> i)"
  by (induction u) auto

text \<open>
  A closing method signals the lines that are \<open>doomed\<close> and keeps the others. From that
  follow, once for all methods: no line is lost or signalled twice, the kept lines keep
  their order, and a second call finds nothing to close.
\<close>

locale closing =
  fixes op :: "lines \<Rightarrow> send list \<times> lines"
    and doomed :: "nat \<Rightarrow> bool"
  assumes signals: "fst (op u) = map SendClose (filter doomed u)"
    and keeps: "snd (op u) = filter (\<lambda>v. \<not> doomed v) u"
begin

lemma partitions: "mset (snd (op u)) + mset (map send_to (fst (op u))) = mset u"
  using filter_partition_mset [of doomed u] by (simp add: signals keeps comp_def add.commute)

lemma second_call_idle: "op (snd (op u)) = ([], snd (op u))"
  by (rule prod_eqI) (simp_all add: signals keeps filter_empty_conv)

lemma kept_alive: "v \<in> set (snd (op u)) \<longleftrightarrow> v \<in> set u \<and> \<not> doomed v"
  by (simp add: keeps)

lemma kept_distinct: "distinct u \<Longrightarrow> distinct (snd (op u))"
  by (simp add: keeps)

end

interpretation close_id: closing "UserLines_Close tab i" "\<lambda>v. line_id (tab v) = i" for tab i
  by unfold_locales (simp_all add: UserLines_Close_def close_loop_eq)

interpretation close_platforms: closing "ClosePlatforms tab ps"
    "\<lambda>v. platform (tab v) \<in> set ps" for tab ps
  by unfold_locales (simp_all add: ClosePlatforms_def close_loop_eq)

interpretation close_platforms_except: closing "ClosePlatformsExcept tab ps"
    "\<lambda>v. ps \<noteq> [] \<and> platform (tab v) \<notin> set ps" for tab ps
  by unfold_locales (simp_all add: ClosePlatformsExcept_def close_loop_eq)

interpretation close_lines: closing "CloseLines tab ids"
    "\<lambda>v. line_id (tab v) \<in> set ids" for tab ids
  by unfold_locales (simp_all add: CloseLines_def close_loop_eq)

interpretation close_lines_except: closing "CloseLinesExcept tab ids"
    "\<lambda>v. ids \<noteq> [] \<and> line_id (tab v) \<notin> set ids" for tab ids
  by unfold_locales (simp_all add: CloseLinesExcept_def close_loop_eq)

interpretation close_inactive: closing "closeInactiveLines tab now mx"
    "\<lambda>v. 0 < sint mx \<and> sint (now v - lastActive (tab v)) > sint mx" for tab now mx
  by unfold_locales (auto simp: closeInactiveLines_def close_loop_eq)

interpretation close_all: closing CloseAll "\<lambda>_. True"
  by unfold_locales (simp_all add: CloseAll_def)

text \<open>A pushing method writes the data once to each target, in the order of the lines.\<close>

locale pushing =
  fixes op :: "bytes \<Rightarrow> lines \<Rightarrow> send list"
    and target :: "nat \<Rightarrow> bool"
  assumes writes: "op data u = (if data = [] then [] else map (\<lambda>v. SendWrite v data) (filter target u))"
begin

lemma empty_data_silent: "op [] u = []"
  by (simp add: writes)

lemma reaches_iff: "data \<noteq> [] \<Longrightarrow> SendWrite v data \<in> set (op data u) \<longleftrightarrow> v \<in> set u \<and> target v"
  by (auto simp: writes)

lemma once: "distinct u \<Longrightarrow> distinct (op data u)"
  by (simp add: writes distinct_map inj_on_def)

lemma only_data: "s \<in> set (op data u) \<Longrightarrow> \<exists>v. s = SendWrite v data"
  by (auto simp: writes split: if_splits)

end

interpretation push_all: pushing UserLines_PushMessage "\<lambda>_. True"
  by unfold_locales (simp add: UserLines_PushMessage_def push_loop_eq)

interpretation push_except_platforms: pushing "\<lambda>data. PushMessageExceptPlatforms tab data ps"
    "\<lambda>v. ps \<noteq> [] \<and> platform (tab v) \<notin> set ps" for tab ps
  by unfold_locales (simp add: PushMessageExceptPlatforms_def push_loop_eq)

interpretation push_except_lines: pushing "\<lambda>data. PushMessageExceptLines tab data ids"
    "\<lambda>v. ids \<noteq> [] \<and> line_id (tab v) \<notin> set ids" for tab ids
  by unfold_locales (simp add: PushMessageExceptLines_def push_loop_eq)

interpretation push_to_platforms: pushing "\<lambda>data. PushMessageToPlatforms tab data ps"
    "\<lambda>v. platform (tab v) \<in> set ps" for tab ps
  by unfold_locales (simp add: PushMessageToPlatforms_def push_loop_eq)

interpretation push_to_lines: pushing "\<lambda>data. PushMessageToLines tab data ids"
    "\<lambda>v. line_id (tab v) \<in> set ids" for tab ids
  by unfold_locales (simp add: PushMessageToLines_def push_loop_eq)

section \<open>Properties\<close>

text \<open>The closing and the pushing methods with their arguments.\<close>

datatype close_method =
    ById string
  | OnPlatforms "int8 list"
  | ExceptPlatforms "int8 list"
  | ByIds "string list"
  | ExceptIds "string list"
  | Idle "nat \<Rightarrow> int64" int64
  | Everything

fun close_by :: "line_tab \<Rightarrow> close_method \<Rightarrow> lines \<Rightarrow> send list \<times> lines" where
  "close_by tab (ById i) = UserLines_Close tab i"
| "close_by tab (OnPlatforms ps) = ClosePlatforms tab ps"
| "close_by tab (ExceptPlatforms ps) = ClosePlatformsExcept tab ps"
| "close_by tab (ByIds ids) = CloseLines tab ids"
| "close_by tab (ExceptIds ids) = CloseLinesExcept tab ids"
| "close_by tab (Idle now mx) = closeInactiveLines tab now mx"
| "close_by tab Everything = CloseAll"

text \<open>Which lines each method is meant to close.\<close>

fun doomed_by :: "line_tab \<Rightarrow> close_method \<Rightarrow> nat \<Rightarrow> bool" where
  "doomed_by tab (ById i) = (\<lambda>v. line_id (tab v) = i)"
| "doomed_by tab (OnPlatforms ps) = (\<lambda>v. platform (tab v) \<in> set ps)"
| "doomed_by tab (ExceptPlatforms ps) = (\<lambda>v. ps \<noteq> [] \<and> platform (tab v) \<notin> set ps)"
| "doomed_by tab (ByIds ids) = (\<lambda>v. line_id (tab v) \<in> set ids)"
| "doomed_by tab (ExceptIds ids) = (\<lambda>v. ids \<noteq> [] \<and> line_id (tab v) \<notin> set ids)"
| "doomed_by tab (Idle now mx) = (\<lambda>v. 0 < sint mx \<and> sint (now v - lastActive (tab v)) > sint mx)"
| "doomed_by tab Everything = (\<lambda>v. True)"

lemma closing_by: "closing (close_by tab m) (doomed_by tab m)"
  by (cases m)
    (simp_all add: close_id.closing_axioms close_platforms.closing_axioms
      close_platforms_except.closing_axioms close_lines.closing_axioms
      close_lines_except.closing_axioms close_inactive.closing_axioms close_all.closing_axioms)


datatype push_method =
    PushAll
  | PushExceptPlatforms "int8 list"
  | PushExceptLines "string list"
  | PushToPlatforms "int8 list"
  | PushToLines "string list"

fun push_by :: "line_tab \<Rightarrow> push_method \<Rightarrow> bytes \<Rightarrow> lines \<Rightarrow> send list" where
  "push_by tab PushAll = UserLines_PushMessage"
| "push_by tab (PushExceptPlatforms ps) = (\<lambda>data. PushMessageExceptPlatforms tab data ps)"
| "push_by tab (PushExceptLines ids) = (\<lambda>data. PushMessageExceptLines tab data ids)"
| "push_by tab (PushToPlatforms ps) = (\<lambda>data. PushMessageToPlatforms tab data ps)"
| "push_by tab (PushToLines ids) = (\<lambda>data. PushMessageToLines tab data ids)"

fun pushed_by :: "line_tab \<Rightarrow> push_method \<Rightarrow> nat \<Rightarrow> bool" where
  "pushed_by tab PushAll = (\<lambda>v. True)"
| "pushed_by tab (PushExceptPlatforms ps) = (\<lambda>v. ps \<noteq> [] \<and> platform (tab v) \<notin> set ps)"
| "pushed_by tab (PushExceptLines ids) = (\<lambda>v. ids \<noteq> [] \<and> line_id (tab v) \<notin> set ids)"
| "pushed_by tab (PushToPlatforms ps) = (\<lambda>v. platform (tab v) \<in> set ps)"
| "pushed_by tab (PushToLines ids) = (\<lambda>v. line_id (tab v) \<in> set ids)"

lemma pushing_by: "pushing (push_by tab m) (pushed_by tab m)"
  by (cases m)
    (simp_all add: push_all.pushing_axioms push_except_platforms.pushing_axioms
      push_except_lines.pushing_axioms push_to_platforms.pushing_axioms
      push_to_lines.pushing_axioms)

text \<open>
  C9: every pushing method of \<^verbatim>\<open>UserLines\<close> writes non-empty data exactly once to each target
  line, in the order of the lines, and to no other; empty data goes nowhere. The two
  \<^verbatim>\<open>Except\<close> methods called without exceptions reach nobody rather than everybody.
\<close>

theorem push_methods_reach_targets:
  "push_by tab m data u = (if data = [] then [] else map (\<lambda>v. SendWrite v data) (filter (pushed_by tab m) u)) \<and>
   push_by tab (PushExceptPlatforms []) data u = [] \<and> push_by tab (PushExceptLines []) data u = []"
  using pushing.writes [OF pushing_by, of tab m data u]
  by (simp add: PushMessageExceptPlatforms_def PushMessageExceptLines_def)

end
