(* ===== verification/Machines.thy ===== *)
theory Machines
  imports Niu_Prelude
begin

text \<open>
  Step machines as functions: \<open>step e s\<close> is the state after event \<open>e\<close>, \<open>None\<close> when the event
  cannot happen in \<open>s\<close>. The locale \<open>step_invariant\<close> carries an invariant from single steps to
  whole runs; \<open>step_always\<close> is the case that every event keeps it. The components with
  goroutines interpret one of them once per invariant.
\<close>

fun fires :: "('e \<Rightarrow> 's \<Rightarrow> 's option) \<Rightarrow> 'e list \<Rightarrow> 's \<Rightarrow> 's option" where
  "fires step [] s = Some s"
| "fires step (e # es) s = (case step e s of None \<Rightarrow> None | Some t \<Rightarrow> fires step es t)"

lemma fires_Cons_Some:
  "fires step (e # es) s = Some t \<longleftrightarrow> (\<exists>u. step e s = Some u \<and> fires step es u = Some t)"
  by (auto split: option.splits)

lemma fires_append:
  "fires step es s = Some t \<Longrightarrow> fires step fs t = Some u \<Longrightarrow> fires step (es @ fs) s = Some u"
  by (induction es arbitrary: s) (auto simp: fires_Cons_Some simp del: fires.simps(2))

lemma fires_append_bind: "fires step (es @ fs) s = Option.bind (fires step es s) (fires step fs)"
  by (induction es arbitrary: s) (auto split: option.splits)

locale step_invariant =
  fixes step :: "'e \<Rightarrow> 's \<Rightarrow> 's option" and allowed :: "'e \<Rightarrow> bool" and inv :: "'s \<Rightarrow> bool"
  assumes keeps: "step e s = Some t \<Longrightarrow> allowed e \<Longrightarrow> inv s \<Longrightarrow> inv t"
begin

lemma run_keeps: "fires step es s = Some t \<Longrightarrow> list_all allowed es \<Longrightarrow> inv s \<Longrightarrow> inv t"
  by (induction es arbitrary: s) (auto simp: keeps split: option.splits)

end

locale step_always =
  fixes step :: "'e \<Rightarrow> 's \<Rightarrow> 's option" and inv :: "'s \<Rightarrow> bool"
  assumes always: "step e s = Some t \<Longrightarrow> inv s \<Longrightarrow> inv t"

sublocale step_always \<subseteq> step_invariant step "\<lambda>_. True" inv
  by unfold_locales (rule always)

context step_always begin

lemma run_always: "fires step es s = Some t \<Longrightarrow> inv s \<Longrightarrow> inv t"
  by (rule run_keeps) (simp_all add: list_all_iff)

end

end
