(* ===== verification/Hub_Steps.thy ===== *)
theory Hub_Steps
  imports Hub_Lines Machines
begin

text \<open>
  The hub of \<^verbatim>\<open>hub.go\<close> as a state machine. Each connection has a reading and a writing
  goroutine; the hub has one that registers lines, one that unregisters them and one that
  looks for idle lines; callers push messages, close lines and close the hub. An event is one
  step of one of them, up to its next operation on something shared: \<open>fire e s\<close> is the state
  after the event, \<open>None\<close> when the event cannot happen (the goroutine is elsewhere, or blocked
  on a channel or a lock). A panic ends the program: no event follows it. The two
  assignments that make a line's channels are one step.
\<close>

section \<open>State\<close>

datatype chan = NilChan | OpenChan | ClosedChan

text \<open>The stages of \<^verbatim>\<open>Line.close\<close>: report the error, close the connection, ask to be unregistered.\<close>

datatype close_stage = SendErr | CloseConn | SendUnreg

text \<open>\<open>RSending a n\<close>: about to send the first \<open>n\<close> bytes of array \<open>a\<close> to \<^verbatim>\<open>messageChan\<close>.\<close>

datatype reader_pc = NoReader | Reading | RSending nat nat | RClosing close_stage | RDone

text \<open>What the writing goroutine does after a call of \<^verbatim>\<open>Line.close\<close>.\<close>

datatype writer_next = ToWrite bytes | ToLoop | ToEnd

text \<open>
  \<open>Enter\<close>: about to evaluate the channels of its \<^verbatim>\<open>select\<close>; \<open>Select\<close>: waiting on them;
  \<open>SelectNil\<close>: waiting on channels that were \<^verbatim>\<open>nil\<close> when it looked.
\<close>

datatype writer_pc = NoWriter | Enter | Select | SelectNil | Writing bytes
  | WClosing close_stage writer_next | WDone

datatype reg_pc = RegIdle | RegHas nat nat

datatype unreg_pc = UIdle | UHold nat nat | UFinish nat "nat option" | ULen nat nat | UDelete nat

text \<open>The idle check: visiting the users, with the keys to delete; then deleting them.\<close>

datatype tick_pc = TWait | TVisit "string list" | THold string nat "string list"
  | TLen string nat "string list" | TDelete "string list"

text \<open>
  A call of \<^verbatim>\<open>PushMessage\<close> or of a pushing method: users still to visit; the lines found;
  the lines still to send to, with the read lock held.
\<close>

datatype push_pc = PIdle | PUsers push_method "string list" bytes
  | PHas nat push_method "string list" bytes | PSend nat lines push_method "string list" bytes

text \<open>A call of \<^verbatim>\<open>CloseUserLines\<close>, of a closing method, or of \<^verbatim>\<open>Hub.Close\<close> (flag set).\<close>

datatype close_pc = CIdle | CUsers bool "string list" | CHas nat close_method bool "string list"
  | CHold nat bool "string list" | CShut nat

datatype holder = ByUnreg | ByTick | ByCaller nat

text \<open>
  \<open>users\<close> is \<^verbatim>\<open>h.connections\<close>: it maps a user id to a \<^verbatim>\<open>*UserLines\<close>, a number below
  \<open>next_ul\<close>, whose slice is in \<open>uls\<close>. Its lock: the pushing calls \<open>rlocks u\<close> read, or
  \<open>closing u = Some (h, m, rest, keep)\<close> while \<open>h\<close> runs closing method \<open>m\<close> with lines \<open>rest\<close> to
  visit and \<open>keep\<close> in the new slice. \<open>wbuf\<close> is the buffer of a line's \<^verbatim>\<open>writeChan\<close>, \<open>frames\<close>
  what was written to its connection, \<open>pushed\<close> everything ever sent to its \<^verbatim>\<open>writeChan\<close>.
  The arrays of the read buffers are in \<open>arr\<close>: \<open>pool\<close> are free ones, \<open>held\<close> those a reading
  goroutine returns when it ends; a queued message is an array and a length. \<open>shut\<close> counts how
  far \<^verbatim>\<open>Hub.Close\<close> has closed the hub's own channels.
\<close>

record hub =
  connMaxIdleSeconds :: int64
  tab :: line_tab
  closeChan :: "nat \<Rightarrow> chan"
  writeChan :: "nat \<Rightarrow> chan"
  wbuf :: "nat \<Rightarrow> bytes list"
  pushed :: "nat \<Rightarrow> bytes list"
  frames :: "nat \<Rightarrow> bytes list"
  connOpen :: "nat \<Rightarrow> bool"
  reader :: "nat \<Rightarrow> reader_pc"
  writer :: "nat \<Rightarrow> writer_pc"
  starting :: "nat list"
  users :: "string \<Rightarrow> nat option"
  uls :: "nat \<Rightarrow> lines"
  next_ul :: nat
  rlocks :: "nat \<Rightarrow> nat list"
  closing :: "nat \<Rightarrow> (holder \<times> close_method \<times> lines \<times> lines) option"
  registeredChan :: "nat list"
  unregisteredChan :: "nat list"
  errorChan :: "nat list"
  messageChan :: "(nat \<times> nat \<times> nat) list"
  arr :: "nat \<Rightarrow> bytes"
  next_arr :: nat
  pool :: "nat list"
  held :: "nat \<Rightarrow> nat list"
  connCount :: int32
  regPc :: reg_pc
  unregPc :: unreg_pc
  tickPc :: tick_pc
  ticking :: bool
  pushers :: "nat \<Rightarrow> push_pc"
  closers :: "nat \<Rightarrow> close_pc"
  shut :: nat
  panicked :: "string option"

definition init_hub :: "int64 \<Rightarrow> hub" where
  "init_hub maxIdle = \<lparr>connMaxIdleSeconds = maxIdle,
     tab = (\<lambda>_. \<lparr>line_id = [], userId = [], platform = 0, lastActive = 0\<rparr>),
     closeChan = (\<lambda>_. NilChan), writeChan = (\<lambda>_. NilChan), wbuf = (\<lambda>_. []), pushed = (\<lambda>_. []),
     frames = (\<lambda>_. []), connOpen = (\<lambda>_. False), reader = (\<lambda>_. NoReader), writer = (\<lambda>_. NoWriter),
     starting = [], users = Map.empty, uls = (\<lambda>_. []), next_ul = 0, rlocks = (\<lambda>_. []),
     closing = (\<lambda>_. None), registeredChan = [], unregisteredChan = [], errorChan = [],
     messageChan = [], arr = (\<lambda>_. []), next_arr = 0, pool = [], held = (\<lambda>_. []), connCount = 0,
     regPc = RegIdle, unregPc = UIdle, tickPc = TWait, ticking = True, pushers = (\<lambda>_. PIdle),
     closers = (\<lambda>_. CIdle), shut = 0, panicked = None\<rparr>"

text \<open>
  \<^verbatim>\<open>NewHub\<close>: durations are nanoseconds. \<open>submit i\<close> is the error of the pool's \<open>i\<close>-th
  \<^verbatim>\<open>Submit\<close>; no pool is \<open>None\<close>. The first component of the result is the period of the
  idle check.
\<close>

definition second_ns :: int64 where "second_ns = 1000000000"

definition NewHub :: "(nat \<Rightarrow> go_error option) option \<Rightarrow> int64 \<Rightarrow> int64 \<Rightarrow> go_error + int64 \<times> hub" where
  "NewHub submits liveCheckDuration connMaxIdleTime =
     (case submits of
        None \<Rightarrow> Inl (Err ''pool must not nil'')
      | Some submit \<Rightarrow>
          let liveCheck = (if sint liveCheckDuration < sint second_ns then second_ns else liveCheckDuration);
              h = init_hub connMaxIdleTime
          in case submit 0 of Some e \<Rightarrow> Inl e
             | None \<Rightarrow> (case submit 1 of Some e \<Rightarrow> Inl e
             | None \<Rightarrow> (case submit 2 of Some e \<Rightarrow> Inl e
             | None \<Rightarrow> Inr (liveCheck, h))))"

definition GetUserLines :: "string \<Rightarrow> hub \<Rightarrow> nat option" where
  "GetUserLines k s = users s k"

definition LiveCount :: "hub \<Rightarrow> go_int" where
  "LiveCount s = scast (connCount s)"

definition panic :: "string \<Rightarrow> hub \<Rightarrow> hub" where
  "panic msg s = s\<lparr>panicked := Some msg\<rparr>"

text \<open>A send to one of the hub's channels: it panics when closed, waits when full.\<close>

definition offer :: "bool \<Rightarrow> bool \<Rightarrow> hub \<Rightarrow> hub \<Rightarrow> hub option" where
  "offer closed room s t =
     (if closed then Some (panic ''send on closed channel'' s) else if room then Some t else None)"

section \<open>Connecting\<close>

text \<open>
  \<^verbatim>\<open>UpgradeWebSocket\<close> and \<^verbatim>\<open>Line.start\<close>: the reading goroutine is submitted, then the writing
  one; when the pool refuses either, the connection is closed and \<^verbatim>\<open>start\<close> fails.
  Then the line goes to \<^verbatim>\<open>registeredChan\<close>.
\<close>

definition upgrade :: "nat \<Rightarrow> Line \<Rightarrow> hub \<Rightarrow> hub option" where
  "upgrade l ln s =
     (if reader s l = NoReader
      then Some (s\<lparr>tab := (tab s)(l := ln), connOpen := (connOpen s)(l := True),
        reader := (reader s)(l := Reading)\<rparr>)
      else None)"

text \<open>When the pool refuses the reading goroutine the line has neither; nobody else ever knew it.\<close>

definition upgrade_fails :: "nat \<Rightarrow> Line \<Rightarrow> hub \<Rightarrow> hub option" where
  "upgrade_fails l ln s =
     (if reader s l = NoReader \<and> writer s l = NoWriter
      then Some (s\<lparr>tab := (tab s)(l := ln), connOpen := (connOpen s)(l := False),
        reader := (reader s)(l := RDone), writer := (writer s)(l := WDone)\<rparr>)
      else None)"

definition start_writer :: "nat \<Rightarrow> hub \<Rightarrow> hub option" where
  "start_writer l s =
     (if reader s l \<noteq> NoReader \<and> writer s l = NoWriter
      then Some (s\<lparr>writer := (writer s)(l := Enter), starting := l # starting s\<rparr>)
      else None)"

definition start_fails :: "nat \<Rightarrow> hub \<Rightarrow> hub option" where
  "start_fails l s =
     (if reader s l \<noteq> NoReader \<and> writer s l = NoWriter
      then Some (s\<lparr>writer := (writer s)(l := WDone), connOpen := (connOpen s)(l := False)\<rparr>)
      else None)"

definition enroll :: "nat \<Rightarrow> hub \<Rightarrow> hub option" where
  "enroll l s =
     (if l \<in> set (starting s)
      then offer (2 \<le> shut s) (length (registeredChan s) < 2048) s
        (s\<lparr>starting := removeAll l (starting s), registeredChan := registeredChan s @ [l]\<rparr>)
      else None)"

section \<open>The reading goroutine\<close>

text \<open>A ping refreshes the line while the goroutine waits for a message.\<close>

definition ping :: "nat \<Rightarrow> int64 \<Rightarrow> hub \<Rightarrow> hub option" where
  "ping l now s =
     (if reader s l = Reading \<and> connOpen s l
      then Some (s\<lparr>tab := (tab s)(l := (tab s l)\<lparr>lastActive := now\<rparr>)\<rparr>) else None)"

text \<open>
  A buffer comes from the pool (its index) or is new, with capacity 2048. Copying the message
  overwrites its array from the start; when fewer than 512 bytes would be left the buffer
  moves to a new array with \<open>extra\<close> bytes of room (\<^verbatim>\<open>bytes.Buffer.ReadFrom\<close>).
\<close>

definition take_buffer :: "nat option \<Rightarrow> hub \<Rightarrow> (nat \<times> hub) option" where
  "take_buffer pick s =
     (case pick of
        None \<Rightarrow> Some (next_arr s, s\<lparr>arr := (arr s)(next_arr s := replicate 2048 0), next_arr := Suc (next_arr s)\<rparr>)
      | Some i \<Rightarrow>
          if i < length (pool s)
          then Some (pool s ! i, s\<lparr>pool := take i (pool s) @ drop (Suc i) (pool s)\<rparr>)
          else None)"

definition fill_buffer :: "nat \<Rightarrow> nat \<Rightarrow> bytes \<Rightarrow> hub \<Rightarrow> nat \<times> hub" where
  "fill_buffer a extra msg s =
     (if length msg + 512 \<le> length (arr s a)
      then (a, s\<lparr>arr := (arr s)(a := msg @ drop (length msg) (arr s a))\<rparr>)
      else (next_arr s, s\<lparr>arr := (arr s)(next_arr s := msg @ replicate (512 + extra) 0),
              next_arr := Suc (next_arr s)\<rparr>))"

definition read_data :: "nat \<Rightarrow> nat option \<Rightarrow> nat \<Rightarrow> bytes \<Rightarrow> int64 \<Rightarrow> hub \<Rightarrow> hub option" where
  "read_data l pick extra msg now s =
     (if reader s l = Reading \<and> connOpen s l
      then if 5 \<le> shut s then Some (panic ''nil pointer dereference'' s)
        else (case take_buffer pick s of
                None \<Rightarrow> None
              | Some (a, s) \<Rightarrow>
                  let (a, s) = fill_buffer a extra msg s
                  in Some (s\<lparr>held := (held s)(l := a # held s l),
                       tab := (tab s)(l := (tab s l)\<lparr>lastActive := now\<rparr>),
                       reader := (reader s)(l := RSending a (length msg))\<rparr>))
      else None)"

text \<open>
  \<^verbatim>\<open>io.Copy\<close> may fail after a part of the message: the buffer is already in the goroutine's
  deferred calls, the line is closed with the error.
\<close>

definition read_fails :: "nat \<Rightarrow> nat option \<Rightarrow> nat \<Rightarrow> bytes \<Rightarrow> hub \<Rightarrow> hub option" where
  "read_fails l pick extra part s =
     (if reader s l = Reading
      then if 5 \<le> shut s then Some (panic ''nil pointer dereference'' s)
        else (case take_buffer pick s of
                None \<Rightarrow> None
              | Some (a, s) \<Rightarrow>
                  let (a, s) = fill_buffer a extra part s
                  in Some (s\<lparr>held := (held s)(l := a # held s l),
                       reader := (reader s)(l := RClosing SendErr)\<rparr>))
      else None)"

definition read_send :: "nat \<Rightarrow> hub \<Rightarrow> hub option" where
  "read_send l s =
     (case reader s l of
        RSending a n \<Rightarrow>
          offer (1 \<le> shut s) (length (messageChan s) < 4096) s
            (s\<lparr>messageChan := messageChan s @ [(l, a, n)], reader := (reader s)(l := Reading)\<rparr>)
      | _ \<Rightarrow> None)"

text \<open>Every way out of the loop goes through \<^verbatim>\<open>Line.close\<close>; then the deferred \<^verbatim>\<open>Put\<close>s run.\<close>

definition read_ends :: "nat \<Rightarrow> close_stage \<Rightarrow> hub \<Rightarrow> hub option" where
  "read_ends l stage s =
     (if reader s l = Reading then Some (s\<lparr>reader := (reader s)(l := RClosing stage)\<rparr>) else None)"

definition reader_close :: "nat \<Rightarrow> hub \<Rightarrow> hub option" where
  "reader_close l s =
     (case reader s l of
        RClosing SendErr \<Rightarrow>
          offer (4 \<le> shut s) (length (errorChan s) < 2048) s
            (s\<lparr>errorChan := errorChan s @ [l], reader := (reader s)(l := RClosing CloseConn)\<rparr>)
      | RClosing CloseConn \<Rightarrow>
          Some (s\<lparr>connOpen := (connOpen s)(l := False), reader := (reader s)(l := RClosing SendUnreg)\<rparr>)
      | RClosing SendUnreg \<Rightarrow>
          offer (3 \<le> shut s) (length (unregisteredChan s) < 2048) s
            (s\<lparr>unregisteredChan := unregisteredChan s @ [l], reader := (reader s)(l := RDone),
               pool := held s l @ pool s, held := (held s)(l := [])\<rparr>)
      | _ \<Rightarrow> None)"

text \<open>What a receiver of a queued message reads from its \<^verbatim>\<open>Data\<close>.\<close>

definition message_data :: "nat \<times> nat \<times> nat \<Rightarrow> hub \<Rightarrow> bytes" where
  "message_data = (\<lambda>(l, a, n) s. take n (arr s a))"

section \<open>The writing goroutine\<close>

text \<open>
  \<^verbatim>\<open>select\<close> evaluates its channels once when it is entered; a \<^verbatim>\<open>nil\<close> channel never becomes
  ready. A closed \<^verbatim>\<open>writeChan\<close> yields an empty message once its buffer is drained.
\<close>

definition writer_enter :: "nat \<Rightarrow> hub \<Rightarrow> hub option" where
  "writer_enter l s =
     (if writer s l = Enter
      then Some (s\<lparr>writer := (writer s)(l :=
        if closeChan s l = NilChan \<and> writeChan s l = NilChan then SelectNil else Select)\<rparr>)
      else None)"

text \<open>When \<^verbatim>\<open>SetWriteDeadline\<close> fails the line is closed and the message is still written.\<close>

definition writer_take :: "nat \<Rightarrow> bool \<Rightarrow> hub \<Rightarrow> hub option" where
  "writer_take l deadline_ok s =
     (case (writer s l, wbuf s l) of
        (Select, m # ms) \<Rightarrow>
          Some (s\<lparr>wbuf := (wbuf s)(l := ms),
            writer := (writer s)(l := if deadline_ok then Writing m else WClosing SendErr (ToWrite m))\<rparr>)
      | _ \<Rightarrow> None)"

definition writer_take_closed :: "nat \<Rightarrow> bool \<Rightarrow> hub \<Rightarrow> hub option" where
  "writer_take_closed l deadline_ok s =
     (if writer s l = Select \<and> writeChan s l = ClosedChan \<and> wbuf s l = []
      then Some (s\<lparr>writer := (writer s)(l :=
        if deadline_ok then Writing [] else WClosing SendErr (ToWrite []))\<rparr>) else None)"

definition writer_sees_closed :: "nat \<Rightarrow> hub \<Rightarrow> hub option" where
  "writer_sees_closed l s =
     (if writer s l = Select \<and> closeChan s l = ClosedChan
      then Some (s\<lparr>writer := (writer s)(l := WClosing CloseConn ToEnd)\<rparr>) else None)"

text \<open>\<^verbatim>\<open>WriteMessage\<close>: it can fail at any time, and always does on a closed connection.\<close>

definition writer_write :: "nat \<Rightarrow> bool \<Rightarrow> hub \<Rightarrow> hub option" where
  "writer_write l ok s =
     (case writer s l of
        Writing m \<Rightarrow>
          if ok
          then (if connOpen s l
                then Some (s\<lparr>frames := (frames s)(l := frames s l @ [m]), writer := (writer s)(l := Enter)\<rparr>)
                else None)
          else Some (s\<lparr>writer := (writer s)(l := WClosing SendErr ToLoop)\<rparr>)
      | _ \<Rightarrow> None)"

fun resume :: "writer_next \<Rightarrow> writer_pc" where
  "resume (ToWrite m) = Writing m"
| "resume ToLoop = Enter"
| "resume ToEnd = WDone"

definition writer_close :: "nat \<Rightarrow> hub \<Rightarrow> hub option" where
  "writer_close l s =
     (case writer s l of
        WClosing SendErr nxt \<Rightarrow>
          offer (4 \<le> shut s) (length (errorChan s) < 2048) s
            (s\<lparr>errorChan := errorChan s @ [l], writer := (writer s)(l := WClosing CloseConn nxt)\<rparr>)
      | WClosing CloseConn nxt \<Rightarrow>
          Some (s\<lparr>connOpen := (connOpen s)(l := False), writer := (writer s)(l := WClosing SendUnreg nxt)\<rparr>)
      | WClosing SendUnreg nxt \<Rightarrow>
          offer (3 \<le> shut s) (length (unregisteredChan s) < 2048) s
            (s\<lparr>unregisteredChan := unregisteredChan s @ [l], writer := (writer s)(l := resume nxt)\<rparr>)
      | _ \<Rightarrow> None)"

section \<open>The lock of the lines of a user\<close>

text \<open>
  A closing method takes the lock and visits line after line; closing one is a rendezvous
  with its writing goroutine, which then runs \<^verbatim>\<open>Line.close(true, nil)\<close>. The methods that
  get a list return before the lock when it is empty.
\<close>

definition hold :: "holder \<Rightarrow> nat \<Rightarrow> close_method \<Rightarrow> hub \<Rightarrow> hub option" where
  "hold h u m s =
     (if closing s u = None \<and> rlocks s u = []
      then Some (s\<lparr>closing := (closing s)(u \<mapsto> (h, m, uls s u, []))\<rparr>) else None)"

fun close_returns_early :: "close_method \<Rightarrow> bool" where
  "close_returns_early (OnPlatforms ps) = (ps = [])"
| "close_returns_early (ExceptPlatforms ps) = (ps = [])"
| "close_returns_early (ByIds ids) = (ids = [])"
| "close_returns_early (ExceptIds ids) = (ids = [])"
| "close_returns_early (Idle now mx) = (sint mx \<le> 0)"
| "close_returns_early _ = False"

definition close_line :: "nat \<Rightarrow> hub \<Rightarrow> hub option" where
  "close_line u s =
     (case closing s u of
        Some (h, m, v # rest, keep) \<Rightarrow>
          if fst (close_by (tab s) m [v]) = []
          then Some (s\<lparr>closing := (closing s)(u \<mapsto> (h, m, rest, keep @ [v]))\<rparr>)
          else (case closeChan s v of
             NilChan \<Rightarrow> None
           | ClosedChan \<Rightarrow> Some (panic ''send on closed channel'' s)
           | OpenChan \<Rightarrow>
               if writer s v = Select
               then Some (s\<lparr>writer := (writer s)(v := WClosing CloseConn ToEnd),
                 closing := (closing s)(u \<mapsto> (h, m, rest, keep))\<rparr>)
               else None)
      | _ \<Rightarrow> None)"

definition release :: "holder \<Rightarrow> nat \<Rightarrow> hub \<Rightarrow> hub option" where
  "release h u s =
     (case closing s u of
        Some (h', m, [], keep) \<Rightarrow>
          if h' = h then Some (s\<lparr>uls := (uls s)(u := keep), closing := (closing s)(u := None)\<rparr>) else None
      | _ \<Rightarrow> None)"

section \<open>The goroutines of the hub\<close>

text \<open>Registering: make the channels, find or store the user's lines, then add.\<close>

definition reg_take :: "hub \<Rightarrow> hub option" where
  "reg_take s =
     (case (regPc s, registeredChan s) of
        (RegIdle, l # ls) \<Rightarrow>
          let s = s\<lparr>registeredChan := ls, closeChan := (closeChan s)(l := OpenChan),
                writeChan := (writeChan s)(l := OpenChan), wbuf := (wbuf s)(l := [])\<rparr>
          in Some (case users s (userId (tab s l)) of
                     Some u \<Rightarrow> s\<lparr>regPc := RegHas l u\<rparr>
                   | None \<Rightarrow> s\<lparr>users := (users s)(userId (tab s l) \<mapsto> next_ul s),
                       uls := (uls s)(next_ul s := []), next_ul := Suc (next_ul s),
                       regPc := RegHas l (next_ul s)\<rparr>)
      | _ \<Rightarrow> None)"

definition reg_add :: "hub \<Rightarrow> hub option" where
  "reg_add s =
     (case regPc s of
        RegHas l u \<Rightarrow>
          if closing s u = None \<and> rlocks s u = []
          then Some (s\<lparr>uls := (uls s)(u := UserLines_add l (uls s u)), connCount := connCount s + 1,
            regPc := RegIdle\<rparr>)
          else None
      | RegIdle \<Rightarrow> None)"

text \<open>Unregistering.\<close>

definition unreg_take :: "hub \<Rightarrow> hub option" where
  "unreg_take s =
     (case (unregPc s, unregisteredChan s) of
        (UIdle, l # ls) \<Rightarrow>
          (case users s (userId (tab s l)) of
             None \<Rightarrow> Some (s\<lparr>unregisteredChan := ls, unregPc := UFinish l None\<rparr>)
           | Some u \<Rightarrow>
               map_option (\<lambda>s. s\<lparr>unregisteredChan := ls, unregPc := UHold l u\<rparr>)
                 (hold ByUnreg u (ById (line_id (tab s l))) s))
      | _ \<Rightarrow> None)"

definition unreg_unlock :: "hub \<Rightarrow> hub option" where
  "unreg_unlock s =
     (case unregPc s of
        UHold l u \<Rightarrow> map_option (\<lambda>s. s\<lparr>unregPc := UFinish l (Some u)\<rparr>) (release ByUnreg u s)
      | _ \<Rightarrow> None)"

definition unreg_finish :: "hub \<Rightarrow> hub option" where
  "unreg_finish s =
     (case unregPc s of
        UFinish l ou \<Rightarrow>
          let s = s\<lparr>connCount := connCount s - 1\<rparr>
          in Some (case closeChan s l of
               NilChan \<Rightarrow> panic ''close of nil channel'' s
             | ClosedChan \<Rightarrow> panic ''close of closed channel'' s
             | OpenChan \<Rightarrow>
                 s\<lparr>closeChan := (closeChan s)(l := ClosedChan), writeChan := (writeChan s)(l := ClosedChan),
                   unregPc := (case ou of None \<Rightarrow> UIdle | Some u \<Rightarrow> ULen l u)\<rparr>)
      | _ \<Rightarrow> None)"

definition unreg_len :: "hub \<Rightarrow> hub option" where
  "unreg_len s =
     (case unregPc s of
        ULen l u \<Rightarrow>
          if closing s u = None
          then Some (s\<lparr>unregPc := (if UserLines_Len (uls s u) = 0 then UDelete l else UIdle)\<rparr>)
          else None
      | _ \<Rightarrow> None)"

definition unreg_delete :: "hub \<Rightarrow> hub option" where
  "unreg_delete s =
     (case unregPc s of
        UDelete l \<Rightarrow> Some (s\<lparr>users := (users s)(userId (tab s l) := None), unregPc := UIdle\<rparr>)
      | _ \<Rightarrow> None)"

text \<open>
  The idle check: at each tick it visits the users in some order (\<open>k\<close>, or the end of the
  traversal), closes their idle lines, remembers those without lines and deletes them
  after the traversal. \<open>now v\<close> is the clock when line \<open>v\<close> is visited.
\<close>

definition tick :: "hub \<Rightarrow> hub option" where
  "tick s = (if tickPc s = TWait \<and> ticking s then Some (s\<lparr>tickPc := TVisit []\<rparr>) else None)"

definition tick_visit :: "string \<Rightarrow> (nat \<Rightarrow> int64) \<Rightarrow> hub \<Rightarrow> hub option" where
  "tick_visit k now s =
     (case (tickPc s, users s k) of
        (TVisit del, Some u) \<Rightarrow>
          if close_returns_early (Idle now (connMaxIdleSeconds s))
          then Some (s\<lparr>tickPc := TLen k u del\<rparr>)
          else map_option (\<lambda>s. s\<lparr>tickPc := THold k u del\<rparr>)
                 (hold ByTick u (Idle now (connMaxIdleSeconds s)) s)
      | _ \<Rightarrow> None)"

definition tick_next :: "hub \<Rightarrow> hub option" where
  "tick_next s =
     (case tickPc s of
        TVisit del \<Rightarrow> Some (s\<lparr>tickPc := TDelete del\<rparr>)
      | THold k u del \<Rightarrow> map_option (\<lambda>s. s\<lparr>tickPc := TLen k u del\<rparr>) (release ByTick u s)
      | TLen k u del \<Rightarrow>
          if closing s u = None
          then Some (s\<lparr>tickPc := TVisit (if UserLines_Len (uls s u) = 0 then del @ [k] else del)\<rparr>)
          else None
      | TDelete (k # ks) \<Rightarrow> Some (s\<lparr>users := (users s)(k := None), tickPc := TDelete ks\<rparr>)
      | TDelete [] \<Rightarrow> Some (s\<lparr>tickPc := TWait\<rparr>)
      | TWait \<Rightarrow> None)"

section \<open>Callers\<close>

text \<open>
  \<^verbatim>\<open>Hub.PushMessage\<close> looks the users up one by one and pushes to the lines it found; so does
  \<^verbatim>\<open>BroadcastMessage\<close> for the keys of its traversal. A pushing method called on what
  \<^verbatim>\<open>GetUserLines\<close> gave starts at the lock.
\<close>

definition Hub_PushMessage :: "nat \<Rightarrow> string list \<Rightarrow> bytes \<Rightarrow> hub \<Rightarrow> hub option" where
  "Hub_PushMessage i userIds data s =
     (if pushers s i \<noteq> PIdle then None
      else if userIds = [] \<or> data = [] then Some s
      else Some (s\<lparr>pushers := (pushers s)(i := PUsers PushAll userIds data)\<rparr>))"

definition BroadcastMessage :: "nat \<Rightarrow> string list \<Rightarrow> bytes \<Rightarrow> hub \<Rightarrow> hub option" where
  "BroadcastMessage i keys data s =
     (if pushers s i \<noteq> PIdle then None
      else if data = [] then Some s
      else Some (s\<lparr>pushers := (pushers s)(i := PUsers PushAll keys data)\<rparr>))"

definition push_lines :: "nat \<Rightarrow> nat \<Rightarrow> push_method \<Rightarrow> bytes \<Rightarrow> hub \<Rightarrow> hub option" where
  "push_lines i u m data s =
     (if pushers s i = PIdle \<and> u < next_ul s
      then Some (s\<lparr>pushers := (pushers s)(i := PHas u m [] data)\<rparr>) else None)"

fun push_returns_early :: "push_method \<Rightarrow> bytes \<Rightarrow> bool" where
  "push_returns_early PushAll data = (data = [])"
| "push_returns_early (PushExceptPlatforms ps) data = (ps = [] \<or> data = [])"
| "push_returns_early (PushExceptLines ids) data = (ids = [] \<or> data = [])"
| "push_returns_early (PushToPlatforms ps) data = (ps = [] \<or> data = [])"
| "push_returns_early (PushToLines ids) data = (ids = [] \<or> data = [])"

definition push_line :: "nat \<Rightarrow> nat \<Rightarrow> nat \<Rightarrow> lines \<Rightarrow> push_method \<Rightarrow> string list \<Rightarrow> bytes \<Rightarrow> hub \<Rightarrow> hub option" where
  "push_line i u v rest m ks data s =
     (let s' = s\<lparr>pushers := (pushers s)(i := PSend u rest m ks data)\<rparr>
      in if push_by (tab s) m data [v] = [] then Some s'
         else (case writeChan s v of
            NilChan \<Rightarrow> None
          | ClosedChan \<Rightarrow> Some (panic ''send on closed channel'' s)
          | OpenChan \<Rightarrow>
              if length (wbuf s v) < 2048
              then Some (s'\<lparr>wbuf := (wbuf s)(v := wbuf s v @ [data]), pushed := (pushed s)(v := pushed s v @ [data])\<rparr>)
              else None))"

definition push_next :: "nat \<Rightarrow> hub \<Rightarrow> hub option" where
  "push_next i s =
     (case pushers s i of
        PIdle \<Rightarrow> None
      | PUsers m [] data \<Rightarrow> Some (s\<lparr>pushers := (pushers s)(i := PIdle)\<rparr>)
      | PUsers m (k # ks) data \<Rightarrow>
          Some (s\<lparr>pushers := (pushers s)(i :=
            case users s k of None \<Rightarrow> PUsers m ks data | Some u \<Rightarrow> PHas u m ks data)\<rparr>)
      | PHas u m ks data \<Rightarrow>
          if push_returns_early m data then Some (s\<lparr>pushers := (pushers s)(i := PUsers m ks data)\<rparr>)
          else if closing s u = None
          then Some (s\<lparr>rlocks := (rlocks s)(u := i # rlocks s u),
            pushers := (pushers s)(i := PSend u (uls s u) m ks data)\<rparr>)
          else None
      | PSend u [] m ks data \<Rightarrow>
          Some (s\<lparr>rlocks := (rlocks s)(u := removeAll i (rlocks s u)), pushers := (pushers s)(i := PUsers m ks data)\<rparr>)
      | PSend u (v # rest) m ks data \<Rightarrow> push_line i u v rest m ks data s)"

text \<open>
  \<^verbatim>\<open>CloseUserLines\<close>, a closing method called on what \<^verbatim>\<open>GetUserLines\<close> gave, and \<^verbatim>\<open>Hub.Close\<close>,
  which ends by closing the hub's channels; a panic of its own (another \<^verbatim>\<open>Hub.Close\<close> was
  there first) is recovered.
\<close>

definition CloseUserLines :: "nat \<Rightarrow> string list \<Rightarrow> hub \<Rightarrow> hub option" where
  "CloseUserLines j userIds s =
     (case closers s j of
        CIdle \<Rightarrow> Some (if userIds = [] then s
                        else s\<lparr>closers := (closers s)(j := CUsers False userIds)\<rparr>)
      | _ \<Rightarrow> None)"

definition close_lines :: "nat \<Rightarrow> nat \<Rightarrow> close_method \<Rightarrow> hub \<Rightarrow> hub option" where
  "close_lines j u m s =
     (case closers s j of
        CIdle \<Rightarrow> if u < next_ul s
                 then Some (s\<lparr>closers := (closers s)(j := CHas u m False [])\<rparr>) else None
      | _ \<Rightarrow> None)"

definition Hub_Close :: "nat \<Rightarrow> string list \<Rightarrow> hub \<Rightarrow> hub option" where
  "Hub_Close j keys s =
     (case closers s j of
        CIdle \<Rightarrow> Some (s\<lparr>ticking := False, closers := (closers s)(j := CUsers True keys)\<rparr>)
      | _ \<Rightarrow> None)"

definition shut_next :: "nat \<Rightarrow> nat \<Rightarrow> hub \<Rightarrow> hub option" where
  "shut_next j n s =
     (if n = 5 then Some (s\<lparr>closers := (closers s)(j := CIdle)\<rparr>)
      else if n < shut s then Some (s\<lparr>closers := (closers s)(j := CIdle)\<rparr>)
      else Some (s\<lparr>shut := Suc n, users := (if n = 4 then Map.empty else users s),
        closers := (closers s)(j := CShut (Suc n))\<rparr>))"

definition close_next :: "nat \<Rightarrow> hub \<Rightarrow> hub option" where
  "close_next j s =
     (case closers s j of
        CIdle \<Rightarrow> None
      | CUsers final [] \<Rightarrow> Some (s\<lparr>closers := (closers s)(j := if final then CShut 0 else CIdle)\<rparr>)
      | CUsers final (k # ks) \<Rightarrow>
          Some (s\<lparr>closers := (closers s)(j :=
            if \<not> final \<and> k = [] then CUsers final ks
            else case users s k of None \<Rightarrow> CUsers final ks | Some u \<Rightarrow> CHas u Everything final ks)\<rparr>)
      | CHas u m final ks \<Rightarrow>
          if close_returns_early m then Some (s\<lparr>closers := (closers s)(j := CUsers final ks)\<rparr>)
          else map_option (\<lambda>s. s\<lparr>closers := (closers s)(j := CHold u final ks)\<rparr>) (hold (ByCaller j) u m s)
      | CHold u final ks \<Rightarrow>
          map_option (\<lambda>s. s\<lparr>closers := (closers s)(j := CUsers final ks)\<rparr>) (release (ByCaller j) u s)
      | CShut n \<Rightarrow> shut_next j n s)"

text \<open>Receiving from the channels that \<^verbatim>\<open>MessageChan\<close>, \<^verbatim>\<open>ErrorChan\<close>, \<^verbatim>\<open>RegisteredChan\<close> and \<^verbatim>\<open>UnegisteredChan\<close> give.\<close>

definition take_message :: "hub \<Rightarrow> hub option" where
  "take_message s = (case messageChan s of [] \<Rightarrow> None | _ # ms \<Rightarrow> Some (s\<lparr>messageChan := ms\<rparr>))"

definition take_error :: "hub \<Rightarrow> hub option" where
  "take_error s = (case errorChan s of [] \<Rightarrow> None | _ # es \<Rightarrow> Some (s\<lparr>errorChan := es\<rparr>))"

definition take_registered :: "hub \<Rightarrow> hub option" where
  "take_registered s = (case registeredChan s of [] \<Rightarrow> None | _ # ls \<Rightarrow> Some (s\<lparr>registeredChan := ls\<rparr>))"

definition take_unregistered :: "hub \<Rightarrow> hub option" where
  "take_unregistered s = (case unregisteredChan s of [] \<Rightarrow> None | _ # ls \<Rightarrow> Some (s\<lparr>unregisteredChan := ls\<rparr>))"

section \<open>Runs\<close>

datatype event =
    Upgrade nat Line | UpgradeFails nat Line | StartWriter nat | StartFails nat | Enroll nat
  | Ping nat int64 | ReadData nat "nat option" nat bytes int64
  | ReadFails nat "nat option" nat bytes | ReadSend nat
  | ReadError nat | ReadClose nat | ReaderClose nat
  | WriterEnter nat | WriterTake nat bool | WriterTakeClosed nat bool
  | WriterSeesClosed nat | WriterWrite nat bool | WriterClose nat
  | CloseLine nat | RegTake | RegAdd
  | UnregTake | UnregUnlock | UnregFinish | UnregLen | UnregDelete
  | Tick | TickVisit string "nat \<Rightarrow> int64" | TickNext
  | CallPush nat "string list" bytes | CallBroadcast nat "string list" bytes
  | CallPushLines nat nat push_method bytes | PushNext nat
  | CallCloseUsers nat "string list" | CallCloseLines nat nat close_method
  | CallClose nat "string list" | CloseNext nat
  | TakeMessage | TakeError | TakeRegistered | TakeUnregistered

fun act :: "event \<Rightarrow> hub \<Rightarrow> hub option" where
  "act (Upgrade l ln) = upgrade l ln"
| "act (UpgradeFails l ln) = upgrade_fails l ln"
| "act (StartWriter l) = start_writer l"
| "act (StartFails l) = start_fails l"
| "act (Enroll l) = enroll l"
| "act (Ping l now) = ping l now"
| "act (ReadData l pick extra msg now) = read_data l pick extra msg now"
| "act (ReadFails l pick extra part) = read_fails l pick extra part"
| "act (ReadSend l) = read_send l"
| "act (ReadError l) = read_ends l SendErr"
| "act (ReadClose l) = read_ends l CloseConn"
| "act (ReaderClose l) = reader_close l"
| "act (WriterEnter l) = writer_enter l"
| "act (WriterTake l ok) = writer_take l ok"
| "act (WriterTakeClosed l ok) = writer_take_closed l ok"
| "act (WriterSeesClosed l) = writer_sees_closed l"
| "act (WriterWrite l ok) = writer_write l ok"
| "act (WriterClose l) = writer_close l"
| "act (CloseLine u) = close_line u"
| "act RegTake = reg_take"
| "act RegAdd = reg_add"
| "act UnregTake = unreg_take"
| "act UnregUnlock = unreg_unlock"
| "act UnregFinish = unreg_finish"
| "act UnregLen = unreg_len"
| "act UnregDelete = unreg_delete"
| "act Tick = tick"
| "act (TickVisit k now) = tick_visit k now"
| "act TickNext = tick_next"
| "act (CallPush i ks data) = Hub_PushMessage i ks data"
| "act (CallBroadcast i ks data) = BroadcastMessage i ks data"
| "act (CallPushLines i u m data) = push_lines i u m data"
| "act (PushNext i) = push_next i"
| "act (CallCloseUsers j ks) = CloseUserLines j ks"
| "act (CallCloseLines j u m) = close_lines j u m"
| "act (CallClose j ks) = Hub_Close j ks"
| "act (CloseNext j) = close_next j"
| "act TakeMessage = take_message"
| "act TakeError = take_error"
| "act TakeRegistered = take_registered"
| "act TakeUnregistered = take_unregistered"

definition fire :: "event \<Rightarrow> hub \<Rightarrow> hub option" where
  "fire e s = (if panicked s = None then act e s else None)"

abbreviation fire_all :: "event list \<Rightarrow> hub \<Rightarrow> hub option" where
  "fire_all \<equiv> fires fire"

inductive reachable :: "int64 \<Rightarrow> hub \<Rightarrow> bool" for maxIdle where
  init: "reachable maxIdle (init_hub maxIdle)"
| step: "reachable maxIdle s \<Longrightarrow> fire e s = Some t \<Longrightarrow> reachable maxIdle t"

end
