(* ===== verification/Hub_Safety.thy ===== *)
theory Hub_Safety
imports Hub_Steps "HOL-Library.Sublist"
begin

text \<open>
  What holds in every reachable state of the hub: the lists of lines are consistent, messages
  reach a connection in the order they were pushed, and the unregistering goroutine closes
  the channels of a line only after its connection.
\<close>

section \<open>Automation\<close>

lemmas connect_defs = upgrade_def upgrade_fails_def start_writer_def start_fails_def enroll_def offer_def panic_def
lemmas reader_defs = ping_def take_buffer_def fill_buffer_def read_data_def
  read_fails_def read_send_def read_ends_def reader_close_def
lemmas writer_defs = writer_enter_def writer_take_def writer_take_closed_def
  writer_sees_closed_def writer_write_def writer_close_def
lemmas hub_defs = close_line_def hold_def release_def reg_take_def reg_add_def unreg_take_def
  unreg_unlock_def unreg_finish_def unreg_len_def unreg_delete_def
  tick_def tick_visit_def tick_next_def
lemmas caller_defs = Hub_PushMessage_def BroadcastMessage_def push_lines_def push_next_def
  push_line_def CloseUserLines_def close_lines_def Hub_Close_def shut_next_def close_next_def
  take_message_def take_error_def take_registered_def take_unregistered_def
lemmas step_defs = connect_defs reader_defs writer_defs hub_defs caller_defs
lemmas step_splits = if_splits option.splits list.splits prod.splits chan.splits
  reader_pc.splits writer_pc.splits reg_pc.splits unreg_pc.splits tick_pc.splits push_pc.splits
  close_pc.splits close_stage.splits


section \<open>What a step changes\<close>

lemma resume_neq [simp]: "resume n \<noteq> NoWriter" "resume n \<noteq> SelectNil" "resume n \<noteq> Select"
  by (cases n; simp)+

lemma reader_mono: "act e s = Some t \<Longrightarrow> reader s l \<noteq> NoReader \<Longrightarrow> reader t l \<noteq> NoReader"
  by (cases e) (auto simp: step_defs Let_def split: step_splits)

lemma writer_mono: "act e s = Some t \<Longrightarrow> writer s l \<noteq> NoWriter \<Longrightarrow> writer t l \<noteq> NoWriter"
  by (cases e) (auto simp: step_defs Let_def split: step_splits)

lemma writer_needs_reader:
  "act e s = Some t \<Longrightarrow> (writer s l \<noteq> NoWriter \<longrightarrow> reader s l \<noteq> NoReader) \<Longrightarrow> writer t l \<noteq> NoWriter \<Longrightarrow> reader t l \<noteq> NoReader"
  by (cases e) (auto simp: step_defs Let_def split: step_splits)

lemma tab_step:
  "act e s = Some t \<Longrightarrow> reader s l \<noteq> NoReader \<Longrightarrow>
   userId (tab t l) = userId (tab s l) \<and> line_id (tab t l) = line_id (tab s l)"
  by (cases e) (auto simp: step_defs Let_def split: step_splits)

lemma starting_step:
  "act e s = Some t \<Longrightarrow> l \<in> set (starting t) \<Longrightarrow> l \<in> set (starting s) \<or> e = StartWriter l"
  by (cases e) (auto simp: step_defs Let_def split: step_splits)

lemma registered_step:
  "act e s = Some t \<Longrightarrow> registeredChan t = registeredChan s \<or> registeredChan t = tl (registeredChan s) \<or>
     (\<exists>l \<in> set (starting s). registeredChan t = registeredChan s @ [l] \<and> l \<notin> set (starting t))"
  by (cases e) (auto simp: step_defs Let_def split: step_splits)

lemma reg_step:
  "act e s = Some t \<Longrightarrow> regPc t = RegHas l u \<Longrightarrow> regPc s = RegHas l u \<or>
    registeredChan s = l # registeredChan t \<and> closeChan t l = OpenChan \<and> writeChan t l = OpenChan \<and>
    users t (userId (tab s l)) = Some u"
  by (cases e) (auto simp: step_defs Let_def split: step_splits)

lemma closing_step:
  "act e s = Some t \<Longrightarrow> closing t u = Some (h, m, rest, keep) \<Longrightarrow>
    closing s u = Some (h, m, rest, keep) \<or>
    closing s u = None \<and> rlocks s u = [] \<and> rest = uls s u \<and> keep = [] \<or>
    (\<exists>v. closing s u = Some (h, m, v # rest, keep)) \<or>
    (\<exists>v keep'. closing s u = Some (h, m, v # rest, keep') \<and> keep = keep' @ [v] \<and> fst (close_by (tab s) m [v]) = [])"
  by (cases e) (auto simp: step_defs Let_def split: step_splits)

lemma uls_step:
  "act e s = Some t \<Longrightarrow> uls t u = uls s u \<or> u = next_ul s \<and> uls t u = [] \<or>
    (\<exists>l. regPc s = RegHas l u \<and> regPc t = RegIdle \<and> uls t u = uls s u @ [l] \<and> closing s u = None \<and> rlocks s u = []) \<or>
    (\<exists>h m keep. closing s u = Some (h, m, [], keep) \<and> uls t u = keep \<and> closing t u = None)"
  by (cases e) (auto simp: step_defs Let_def UserLines_add_def split: step_splits)

lemma users_step:
  "act e s = Some t \<Longrightarrow> users t k = Some u \<Longrightarrow> users s k = Some u \<or>
    u = next_ul s \<and> next_ul t = Suc u \<and> uls t u = [] \<and> (\<exists>l. regPc t = RegHas l u \<and> k = userId (tab s l))"
  by (cases e) (auto simp: step_defs Let_def split: step_splits)

lemma next_ul_mono: "act e s = Some t \<Longrightarrow> next_ul s \<le> next_ul t"
  by (cases e) (auto simp: step_defs Let_def split: step_splits)

lemma closeChan_step: "act e s = Some t \<Longrightarrow> closeChan s l \<noteq> NilChan \<Longrightarrow> closeChan t l \<noteq> NilChan"
  by (cases e) (auto simp: step_defs Let_def split: step_splits)

lemma writeChan_step: "act e s = Some t \<Longrightarrow> writeChan s l \<noteq> NilChan \<Longrightarrow> writeChan t l \<noteq> NilChan"
  by (cases e) (auto simp: step_defs Let_def split: step_splits)

lemma closing_origin:
  "act e s = Some t \<Longrightarrow> closing t u \<noteq> None \<Longrightarrow> closing s u \<noteq> None \<or> (\<exists>k. users s k = Some u) \<or>
    (\<exists>j m f ks. closers s j = CHas u m f ks)"
  by (cases e) (auto simp: step_defs Let_def split: step_splits)

lemma closers_step:
  "act e s = Some t \<Longrightarrow> closers t j = CHas u m f ks \<Longrightarrow>
    closers s j = CHas u m f ks \<or> u < next_ul s \<or> (\<exists>k. users s k = Some u)"
  by (cases e) (auto simp: step_defs Let_def split: step_splits)

section \<open>Consistent lists\<close>

text \<open>Where a line is on its way into the lists.\<close>

datatype place = Starting | Registered | Registering | Listed nat

fun at :: "nat \<Rightarrow> place \<Rightarrow> hub \<Rightarrow> bool" where
  "at l Starting s = (l \<in> set (starting s))"
| "at l Registered s = (l \<in> set (registeredChan s))"
| "at l Registering s = (\<exists>u. regPc s = RegHas l u)"
| "at l (Listed u) s = (l \<in> set (uls s u))"

definition locks_ok :: "hub \<Rightarrow> bool" where
  "locks_ok s \<longleftrightarrow> (\<forall>u h m rest keep. closing s u = Some (h, m, rest, keep) \<longrightarrow>
     distinct (keep @ rest) \<and> set (keep @ rest) \<subseteq> set (uls s u))"

definition places_ok :: "hub \<Rightarrow> bool" where
  "places_ok s \<longleftrightarrow> (\<forall>l. writer s l \<noteq> NoWriter \<longrightarrow> reader s l \<noteq> NoReader) \<and>
     (\<forall>l p. at l p s \<longrightarrow> writer s l \<noteq> NoWriter) \<and>
     (\<forall>l p q. at l p s \<longrightarrow> at l q s \<longrightarrow> p = q) \<and>
     distinct (registeredChan s) \<and> (\<forall>u. distinct (uls s u))"

definition owners_ok :: "hub \<Rightarrow> bool" where
  "owners_ok s \<longleftrightarrow>
     (\<forall>u. next_ul s \<le> u \<longrightarrow> uls s u = [] \<and> closing s u = None) \<and>
     (\<forall>l u. regPc s = RegHas l u \<longrightarrow> u < next_ul s) \<and>
     (\<forall>j u m f ks. closers s j = CHas u m f ks \<longrightarrow> u < next_ul s) \<and>
     (\<forall>k u. users s k = Some u \<longrightarrow> u < next_ul s) \<and>
     (\<forall>k k' u. users s k = Some u \<longrightarrow> users s k' = Some u \<longrightarrow> k = k') \<and>
     (\<forall>k l u. users s k = Some u \<longrightarrow> l \<in> set (uls s u) \<or> regPc s = RegHas l u \<longrightarrow> userId (tab s l) = k)"

definition chans_ok :: "hub \<Rightarrow> bool" where
  "chans_ok s \<longleftrightarrow> (\<forall>l u. l \<in> set (uls s u) \<or> regPc s = RegHas l u \<longrightarrow>
     closeChan s l \<noteq> NilChan \<and> writeChan s l \<noteq> NilChan)"

lemma locks_okD: "locks_ok s \<Longrightarrow> closing s u = Some (h, m, rest, keep) \<Longrightarrow>
    distinct (keep @ rest) \<and> set (keep @ rest) \<subseteq> set (uls s u)"
  by (simp add: locks_ok_def)

fun onward :: "place \<Rightarrow> hub \<Rightarrow> place" where
  "onward Starting s = Registered"
| "onward Registered s = Registering"
| "onward _ s = Listed (case regPc s of RegHas l u \<Rightarrow> u | RegIdle \<Rightarrow> 0)"

lemma in_set_tl: "x \<in> set (tl xs) \<Longrightarrow> x \<in> set xs"
  by (cases xs) auto

lemma at_new:
  assumes "act e s = Some t" and "locks_ok s" and "places_ok s" and "at l p t" and "\<not> at l p s"
  shows "p = Starting \<and> (\<forall>q. \<not> at l q s) \<or> (\<exists>p'. p = onward p' s \<and> at l p' s \<and> \<not> at l p' t)"
proof (cases p)
  case Starting
  then have "e = StartWriter l" using starting_step [OF assms(1)] assms(4,5) by auto
  then have "writer s l = NoWriter" using assms(1) by (simp add: start_writer_def split: if_splits)
  then show ?thesis using Starting assms(3) unfolding places_ok_def by blast
next
  case Registered
  then have "at l Starting s \<and> \<not> at l Starting t"
    using registered_step [OF assms(1)] assms(4,5) by (auto dest: in_set_tl)
  then show ?thesis using Registered by (intro disjI2 exI [of _ Starting]) simp
next
  case Registering
  then obtain u where "regPc t = RegHas l u" "regPc s \<noteq> RegHas l u" using assms(4,5) by auto
  then have "at l Registered s \<and> \<not> at l Registered t"
    using reg_step [OF assms(1)] assms(3) by (fastforce simp: places_ok_def)
  then show ?thesis using Registering by (intro disjI2 exI [of _ Registered]) simp
next
  case (Listed u)
  then have "regPc s = RegHas l u \<and> regPc t = RegIdle"
    using uls_step [OF assms(1), of u] assms(4,5) locks_okD [OF assms(2)] by fastforce
  then show ?thesis using Listed by (intro disjI2 exI [of _ Registering]) simp
qed

lemma at_unique: "places_ok s \<Longrightarrow> at l p s \<Longrightarrow> at l q s \<Longrightarrow> p = q"
  by (simp add: places_ok_def)

lemma at_unique_step:
  assumes step: "act e s = Some t" "locks_ok s" "places_ok s" and "at l p t" and "at l q t"
  shows "p = q"
  using at_new [OF step] at_unique [OF step(3)] assms(4,5) by metis

lemma places_ok_step:
  assumes step: "act e s = Some t" "locks_ok s" "places_ok s"
  shows "places_ok t"
proof -
  have w: "writer t l \<noteq> NoWriter" if "at l p t" for l p
  proof (cases "at l p s")
    case True
    then show ?thesis using writer_mono [OF step(1)] step(3) by (auto simp: places_ok_def)
  next
    case False
    show ?thesis
    proof (cases "\<exists>p'. at l p' s")
      case True
      then show ?thesis using writer_mono [OF step(1)] step(3) by (auto simp: places_ok_def)
    next
      case none: False
      then have "e = StartWriter l"
        using at_new [OF step that False] starting_step [OF step(1)] that by (metis at.simps(1))
      then show ?thesis using step(1) by (auto simp: start_writer_def split: if_splits)
    qed
  qed
  have "distinct (registeredChan t)"
    using registered_step [OF step(1)] step(3) at_unique [OF step(3), of _ Starting Registered]
    by (auto simp: places_ok_def distinct_tl)
  moreover have "distinct (uls t u)" for u
    using uls_step [OF step(1), of u] step(3) locks_okD [OF step(2)] at_unique [OF step(3), of _ Registering "Listed u"]
    by (fastforce simp: places_ok_def)
  moreover have "writer t l \<noteq> NoWriter \<longrightarrow> reader t l \<noteq> NoReader" for l
    using writer_needs_reader [OF step(1), of l] step(3) by (auto simp: places_ok_def)
  ultimately show ?thesis using w at_unique_step [OF step] unfolding places_ok_def by blast
qed

lemma locks_ok_step:
  assumes step: "act e s = Some t" "locks_ok s" "places_ok s" "owners_ok s"
  shows "locks_ok t"
  unfolding locks_ok_def
proof (intro allI impI)
  fix u h m rest keep
  assume c: "closing t u = Some (h, m, rest, keep)"
  have d: "distinct (uls s u)" using step(3) by (simp add: places_ok_def)
  have "distinct (keep @ rest) \<and> set (keep @ rest) \<subseteq> set (uls s u)"
    using closing_step [OF step(1) c] d locks_okD [OF step(2), of u] by (elim disjE exE conjE) force+
  moreover have "set (uls s u) \<subseteq> set (uls t u)"
    using uls_step [OF step(1), of u] c step(4) by (auto simp: owners_ok_def)
  ultimately show "distinct (keep @ rest) \<and> set (keep @ rest) \<subseteq> set (uls t u)" by blast
qed

lemma at_tab:
  "act e s = Some t \<Longrightarrow> places_ok s \<Longrightarrow> at l p s \<Longrightarrow>
   userId (tab t l) = userId (tab s l) \<and> line_id (tab t l) = line_id (tab s l)"
  by (rule tab_step) (auto simp: places_ok_def)

lemma owners_bound:
  "owners_ok s \<Longrightarrow> users s k = Some u \<Longrightarrow> u < next_ul s"
  "owners_ok s \<Longrightarrow> regPc s = RegHas l u \<Longrightarrow> u < next_ul s"
  "owners_ok s \<Longrightarrow> l \<in> set (uls s u) \<Longrightarrow> u < next_ul s"
  by (auto simp: owners_ok_def intro: not_le_imp_less)

lemma users_bound_step:
  assumes step: "act e s = Some t" "owners_ok s" and "users t k = Some u"
  shows "u < next_ul t"
  using users_step [OF step(1) assms(3)]
proof (elim disjE conjE)
  assume "users s k = Some u"
  then show ?thesis using owners_bound(1) [OF step(2)] next_ul_mono [OF step(1)] by (meson less_le_trans)
qed simp

lemma users_inj_step:
  assumes step: "act e s = Some t" "owners_ok s" and "users t k = Some u" and "users t k' = Some u"
  shows "k = k'"
  using users_step [OF step(1) assms(3)] users_step [OF step(1) assms(4)] step(2)
  by (fastforce simp: owners_ok_def)

lemma owner_step:
  assumes step: "act e s = Some t" "locks_ok s" "places_ok s" "owners_ok s"
    and k: "users t k = Some u" and l: "l \<in> set (uls t u) \<or> regPc t = RegHas l u"
  shows "userId (tab t l) = k"
proof -
  have inj: "k' = k" if "users t k' = Some u" for k'
    using users_inj_step [OF step(1,4) that k] .
  have "(l \<in> set (uls s u) \<or> regPc s = RegHas l u) \<and> u < next_ul s \<or>
      l \<in> set (registeredChan s) \<and> users t (userId (tab s l)) = Some u"
    using l
  proof
    assume "l \<in> set (uls t u)"
    then have "l \<in> set (uls s u) \<or> regPc s = RegHas l u"
      using uls_step [OF step(1), of u] locks_okD [OF step(2), of u] by fastforce
    then show ?thesis using owners_bound(2,3) [OF step(4)] by blast
  next
    assume "regPc t = RegHas l u"
    from reg_step [OF step(1) this] show ?thesis using owners_bound(2) [OF step(4)] by auto
  qed
  then show ?thesis
  proof (elim disjE conjE)
    assume "u < next_ul s" and old: "l \<in> set (uls s u)"
    then have "users s k = Some u" using users_step [OF step(1) k] by auto
    then show ?thesis using old step(4) at_tab [OF step(1,3), of l "Listed u"]
      by (auto simp: owners_ok_def)
  next
    assume "u < next_ul s" and old: "regPc s = RegHas l u"
    then have "users s k = Some u" using users_step [OF step(1) k] by auto
    then show ?thesis using old step(4) at_tab [OF step(1,3), of l Registering]
      by (auto simp: owners_ok_def)
  next
    assume "l \<in> set (registeredChan s)" and "users t (userId (tab s l)) = Some u"
    then show ?thesis using inj at_tab [OF step(1,3), of l Registered] by auto
  qed
qed

lemma owners_ok_step:
  assumes step: "act e s = Some t" "locks_ok s" "places_ok s" "owners_ok s"
  shows "owners_ok t"
proof -
  have "uls t u = [] \<and> closing t u = None" if "next_ul t \<le> u" for u
  proof -
    have u: "next_ul s \<le> u" using that next_ul_mono [OF step(1)] by simp
    have "closing t u = None"
      using closing_origin [OF step(1), of u] u step(4) by (fastforce simp: owners_ok_def)
    moreover have "uls t u = []"
      using uls_step [OF step(1), of u] u step(4) by (fastforce simp: owners_ok_def)
    ultimately show ?thesis by simp
  qed
  moreover have "u < next_ul t" if "regPc t = RegHas l u" for l u
    using reg_step [OF step(1) that] users_bound_step [OF step(1,4)] step(4) next_ul_mono [OF step(1)]
    by (fastforce simp: owners_ok_def)
  moreover have "u < next_ul t" if "closers t j = CHas u m f ks" for j u m f ks
    using closers_step [OF step(1) that] step(4) next_ul_mono [OF step(1)]
    by (fastforce simp: owners_ok_def)
  ultimately show ?thesis
    unfolding owners_ok_def
    using users_bound_step [OF step(1,4)] users_inj_step [OF step(1,4)] owner_step [OF step] by blast
qed

lemma chans_ok_step:
  assumes step: "act e s = Some t" "locks_ok s" "chans_ok s"
  shows "chans_ok t"
proof -
  have "closeChan t l \<noteq> NilChan \<and> writeChan t l \<noteq> NilChan"
    if "l \<in> set (uls t u) \<or> regPc t = RegHas l u" for l u
    using that uls_step [OF step(1), of u] reg_step [OF step(1), of l u] locks_okD [OF step(2)] step(3)
      closeChan_step [OF step(1)] writeChan_step [OF step(1)]
    by (elim disjE exE conjE) (fastforce simp: chans_ok_def)+
  then show ?thesis unfolding chans_ok_def by blast
qed

definition hub_ok :: "hub \<Rightarrow> bool" where
  "hub_ok s \<longleftrightarrow> locks_ok s \<and> places_ok s \<and> owners_ok s \<and> chans_ok s"

lemma at_init: "\<not> at l p (init_hub mx)"
  by (cases p) (simp_all add: init_hub_def)

lemma hub_ok_init: "hub_ok (init_hub mx)"
  using at_init by (simp add: hub_ok_def places_ok_def)
    (simp add: init_hub_def locks_ok_def owners_ok_def chans_ok_def)

lemma hub_ok_step: "fire e s = Some t \<Longrightarrow> hub_ok s \<Longrightarrow> hub_ok t"
  using locks_ok_step places_ok_step owners_ok_step chans_ok_step
  by (fastforce simp: hub_ok_def fire_def split: if_splits)

lemma reachable_hub_ok: "reachable mx s \<Longrightarrow> hub_ok s"
  by (induction rule: reachable.induct) (auto simp: hub_ok_init intro: hub_ok_step)

section \<open>Scripts\<close>

text \<open>A line is connected and registered; its peer then goes away.\<close>

definition connect :: "nat \<Rightarrow> Line \<Rightarrow> event list" where
  "connect l ln = [Upgrade l ln, StartWriter l, Enroll l, RegTake, RegAdd, WriterEnter l]"

definition peer_gone :: "nat \<Rightarrow> event list" where
  "peer_gone l = [ReadError l, ReaderClose l, ReaderClose l, ReaderClose l]"

definition unregister :: "nat \<Rightarrow> event list" where
  "unregister u = [UnregTake, CloseLine u, UnregUnlock, UnregFinish, UnregLen]"

lemmas script_defs = connect_def peer_gone_def unregister_def

definition client :: "string \<Rightarrow> Line" where
  "client i = \<lparr>line_id = i, userId = ''ann'', platform = 1, lastActive = 0\<rparr>"

lemmas run_simps = script_defs fire_def init_hub_def step_defs UserLines_add_def
  UserLines_Close_def UserLines_Len_def UserLines_PushMessage_def

text \<open>
  What every step of every goroutine keeps holds at the end of every run. The lists of lines
  are one such invariant.
\<close>

lemma fire_act: "fire e s = Some t \<Longrightarrow> act e s = Some t"
  by (simp add: fire_def split: if_splits)

interpretation listed: step_always fire hub_ok
  by unfold_locales (rule hub_ok_step)

interpretation reached: step_always fire "reachable mx" for mx
  by unfold_locales (rule reachable.step)

lemma run_reachable: "fire_all es (init_hub mx) = Some s \<Longrightarrow> reachable mx s"
  using reached.run_always reachable.init by blast

section \<open>Properties\<close>

text \<open>
  C1: in every state the hub can reach, the lists of lines are consistent: a line is in at most one
  list and once; the list found under a user id holds only lines of that user, each with its
  channels made; different users have different lists.
\<close>

theorem hub_lists_consistent:
  assumes "reachable mx s"
  shows "distinct (uls s u) \<and> (u \<noteq> u' \<longrightarrow> set (uls s u) \<inter> set (uls s u') = {}) \<and>
    (GetUserLines k s = Some u \<longrightarrow>
       (\<forall>l \<in> set (uls s u). userId (tab s l) = k \<and> closeChan s l \<noteq> NilChan \<and> writeChan s l \<noteq> NilChan) \<and>
       (\<forall>k'. GetUserLines k' s = Some u \<longrightarrow> k' = k))"
proof -
  have ok: "places_ok s" "owners_ok s" "chans_ok s"
    using reachable_hub_ok [OF assms] by (auto simp: hub_ok_def)
  have "distinct (uls s u)" using ok(1) by (simp add: places_ok_def)
  moreover have "u \<noteq> u' \<longrightarrow> set (uls s u) \<inter> set (uls s u') = {}"
    using at_unique [OF ok(1), of _ "Listed u" "Listed u'"] by auto
  moreover have "\<forall>l \<in> set (uls s u). closeChan s l \<noteq> NilChan \<and> writeChan s l \<noteq> NilChan"
    using ok(3) unfolding chans_ok_def by blast
  moreover have "(\<forall>l \<in> set (uls s u). userId (tab s l) = k) \<and> (\<forall>k'. GetUserLines k' s = Some u \<longrightarrow> k' = k)"
    if "GetUserLines k s = Some u"
    using ok(2) that unfolding owners_ok_def GetUserLines_def by blast
  ultimately show ?thesis by blast
qed

theorem hub_lists_consistent_witness:
  "\<exists>s. fire_all (connect 0 (client ''1'') @ connect 1 (client ''2'')) (init_hub 0) = Some s \<and>
     GetUserLines ''ann'' s = Some 0 \<and> uls s 0 = [0, 1] \<and> (\<forall>l \<in> set (uls s 0). userId (tab s l) = ''ann'')"
proof -
  obtain s where s: "fire_all (connect 0 (client ''1'') @ connect 1 (client ''2'')) (init_hub 0) = Some s"
      "GetUserLines ''ann'' s = Some 0" "uls s 0 = [0, 1]"
    by (simp add: client_def run_simps GetUserLines_def)
  show ?thesis using s hub_lists_consistent [OF run_reachable [OF s(1)], of 0 1 "''ann''"] by blast
qed

end
