(* ===== verification/Hub_Delivery.thy ===== *)
theory Hub_Delivery
  imports Hub_Safety
begin

text \<open>
  From \<^verbatim>\<open>PushMessage\<close> to the connection: messages are written in the order they were pushed,
  each at most once, and none is lost while the connection is open and no write has failed.
\<close>

section \<open>What a step changes\<close>

fun next_message :: "writer_next \<Rightarrow> bytes list" where
  "next_message (ToWrite m) = [m]"
| "next_message _ = []"

fun in_hand :: "writer_pc \<Rightarrow> bytes list" where
  "in_hand (Writing m) = [m]"
| "in_hand (WClosing st n) = next_message n"
| "in_hand _ = []"

definition wire :: "nat \<Rightarrow> hub \<Rightarrow> bytes list" where
  "wire l s = frames s l @ filter (\<lambda>m. m \<noteq> []) (in_hand (writer s l)) @ wbuf s l"

definition write_failed :: "writer_pc \<Rightarrow> bool" where
  "write_failed w \<longleftrightarrow> (\<exists>st. w = WClosing st ToLoop)"

lemma in_hand_resume [simp]: "in_hand (resume n) = next_message n"
  by (cases n) simp_all

text \<open>A line about to be unregistered, or whose channels are closed.\<close>

definition leaving :: "nat \<Rightarrow> hub \<Rightarrow> bool" where
  "leaving l s \<longleftrightarrow> l \<in> set (unregisteredChan s) \<or> (\<exists>u. unregPc s = UHold l u) \<or>
     (\<exists>ou. unregPc s = UFinish l ou) \<or> closeChan s l = ClosedChan \<or> writeChan s l = ClosedChan \<or>
     reader s l = RClosing SendUnreg \<or> reader s l = RDone \<or> (\<exists>n. writer s l = WClosing SendUnreg n) \<or>
     [] \<in> set (in_hand (writer s l))"

lemma connOpen_step: "act e s = Some t \<Longrightarrow> connOpen t l \<Longrightarrow> connOpen s l \<or> reader s l = NoReader"
  by (cases e) (auto simp: step_defs Let_def split: step_splits)

lemma unregisteredChan_step:
  "act e s = Some t \<Longrightarrow> l \<in> set (unregisteredChan t) \<Longrightarrow> l \<in> set (unregisteredChan s) \<or>
    reader s l = RClosing SendUnreg \<or> (\<exists>n. writer s l = WClosing SendUnreg n)"
  by (cases e) (auto simp: step_defs Let_def split: step_splits)

lemma unregPc_step:
  "act e s = Some t \<Longrightarrow> unregPc t = UHold l u \<Longrightarrow> unregPc s = UHold l u \<or> l \<in> set (unregisteredChan s)"
  "act e s = Some t \<Longrightarrow> unregPc t = UFinish l ou \<Longrightarrow>
    unregPc s = UFinish l ou \<or> (\<exists>u. unregPc s = UHold l u) \<or> l \<in> set (unregisteredChan s)"
  by (cases e; auto simp: step_defs Let_def split: step_splits)+

lemma closed_step:
  "act e s = Some t \<Longrightarrow> closeChan t l = ClosedChan \<Longrightarrow> closeChan s l = ClosedChan \<or> (\<exists>ou. unregPc s = UFinish l ou)"
  "act e s = Some t \<Longrightarrow> writeChan t l = ClosedChan \<Longrightarrow> writeChan s l = ClosedChan \<or> (\<exists>ou. unregPc s = UFinish l ou)"
  by (cases e; auto simp: step_defs Let_def split: step_splits)+

lemma reader_closing_step:
  "act e s = Some t \<Longrightarrow> reader t l = RClosing SendUnreg \<Longrightarrow> reader s l = RClosing SendUnreg \<or> \<not> connOpen t l"
  "act e s = Some t \<Longrightarrow> reader t l = RDone \<Longrightarrow> reader s l = RDone \<or> reader s l = RClosing SendUnreg \<or> \<not> connOpen t l"
  by (cases e; auto simp: step_defs Let_def split: step_splits)+

lemma resume_WClosing [simp]: "resume n \<noteq> WClosing st m"
  by (cases n) simp_all

lemma writer_closing_step:
  "act e s = Some t \<Longrightarrow> writer t l = WClosing SendUnreg n \<Longrightarrow> writer s l = WClosing SendUnreg n \<or> \<not> connOpen t l"
  by (cases e) (auto simp: step_defs Let_def split: step_splits)

lemma push_by_data: "push_by tb m data [v] \<noteq> [] \<Longrightarrow> data \<noteq> []"
  using pushing.empty_data_silent [OF pushing_by] by blast

lemma frames_step:
  "act e s = Some t \<Longrightarrow> frames t l = frames s l \<or> (\<exists>m. writer s l = Writing m \<and> writer t l = Enter \<and>
    connOpen s l \<and> frames t l = frames s l @ [m] \<and> wbuf t l = wbuf s l \<and> pushed t l = pushed s l)"
  by (cases e) (auto simp: step_defs Let_def split: step_splits)

lemma pushed_step:
  "act e s = Some t \<Longrightarrow> pushed t l = pushed s l \<or> (\<exists>data. data \<noteq> [] \<and> writeChan s l = OpenChan \<and>
    pushed t l = pushed s l @ [data] \<and> wbuf t l = wbuf s l @ [data] \<and> writer t l = writer s l \<and>
    frames t l = frames s l)"
  by (cases e) (auto simp: step_defs Let_def dest: push_by_data split: step_splits)

lemma wbuf_step:
  "act e s = Some t \<Longrightarrow> wbuf t l = wbuf s l \<or> e = RegTake \<or> (\<exists>ok. e = WriterTake l ok) \<or> pushed t l \<noteq> pushed s l"
  by (cases e) (auto simp: step_defs Let_def split: step_splits)

lemma RegTake_step:
  "act RegTake s = Some t \<Longrightarrow> frames t = frames s \<and> writer t = writer s \<and> pushed t = pushed s \<and>
    (wbuf t l = wbuf s l \<or> registeredChan s = l # registeredChan t \<and> wbuf t l = [])"
  by (auto simp: reg_take_def Let_def split: step_splits)

lemma WriterTake_step:
  "act (WriterTake l ok) s = Some t \<Longrightarrow> frames t = frames s \<and> pushed t = pushed s \<and>
    (\<exists>m. wbuf s l = m # wbuf t l \<and> writer s l = Select \<and> in_hand (writer t l) = [m])"
  by (auto simp: writer_take_def split: step_splits)

lemma in_hand_step:
  "act e s = Some t \<Longrightarrow> in_hand (writer t l) = in_hand (writer s l) \<or>
    in_hand (writer t l) = [] \<and> (\<exists>ok. e = WriterWrite l ok) \<or>
    (\<exists>ok. e = WriterTake l ok) \<or> writeChan s l = ClosedChan \<and> in_hand (writer s l) = [] \<and> in_hand (writer t l) = [[]]"
  by (cases e) (auto simp: step_defs Let_def split: step_splits)

lemma WriterWrite_step:
  "act (WriterWrite l ok) s = Some t \<Longrightarrow> frames t l = frames s l \<Longrightarrow> write_failed (writer t l)"
  by (auto simp: writer_write_def write_failed_def split: step_splits)

lemma write_failed_step:
  "act e s = Some t \<Longrightarrow> write_failed (writer s l) \<Longrightarrow> write_failed (writer t l) \<or> \<not> connOpen t l \<or>
    writer s l = WClosing SendUnreg ToLoop"
  by (cases e) (auto simp: step_defs Let_def write_failed_def split: step_splits)

lemma same_chans_step: "act e s = Some t \<Longrightarrow> closeChan s l = writeChan s l \<Longrightarrow> closeChan t l = writeChan t l"
  by (cases e) (auto simp: step_defs Let_def split: step_splits)

lemma writeChan_new:
  "act e s = Some t \<Longrightarrow> closeChan s l = writeChan s l \<Longrightarrow> writeChan t l \<noteq> NilChan \<Longrightarrow> writeChan s l \<noteq> NilChan \<or>
    l \<in> set (registeredChan s) \<and> (\<exists>u. regPc t = RegHas l u)"
  by (cases e) (auto simp: step_defs Let_def split: step_splits)

section \<open>Delivery\<close>

lemma leaving_step:
  assumes "act e s = Some t" and "[] \<notin> set (wbuf s l)" and "leaving l t"
  shows "leaving l s \<or> \<not> connOpen t l \<and>
    (reader t l = RClosing SendUnreg \<or> reader t l = RDone \<or> (\<exists>n. writer t l = WClosing SendUnreg n))"
  using assms(2,3) unregisteredChan_step [OF assms(1), of l] unregPc_step [OF assms(1)]
    closed_step [OF assms(1), of l] reader_closing_step [OF assms(1), of l] writer_closing_step [OF assms(1)]
    in_hand_step [OF assms(1), of l] WriterTake_step [of l _ s t] assms(1)
  unfolding leaving_def by (elim disjE exE) fastforce+

lemma wbuf_nonempty_step: "act e s = Some t \<Longrightarrow> [] \<notin> set (wbuf s l) \<Longrightarrow> [] \<notin> set (wbuf t l)"
  using wbuf_step [of e s t l] pushed_step [of e s t l] RegTake_step [of s t l] WriterTake_step [of l _ s t]
  by fastforce

lemma subseq_delete: "subseq (xs @ zs) (xs @ ys @ zs)"
  by (rule list_emb_append_mono) (auto intro: subseq_drop_many)

lemma wire_step:
  assumes "act e s = Some t" and "[] \<notin> set (wbuf s l)" and "leaving l s \<longrightarrow> \<not> connOpen s l"
    and "l \<in> set (registeredChan s) \<longrightarrow> wbuf s l = []"
  shows "pushed t l = pushed s l \<and> (wire l t = wire l s \<or> write_failed (writer t l) \<and> subseq (wire l t) (wire l s)) \<or>
    (\<exists>data. pushed t l = pushed s l @ [data] \<and> wire l t = wire l s @ [data])"
proof (cases "pushed t l = pushed s l")
  case False
  then show ?thesis using pushed_step [OF assms(1), of l] by (auto simp: wire_def)
next
  case same: True
  consider "e = RegTake" | ok where "e = WriterTake l ok" | "wbuf t l = wbuf s l" "\<nexists>ok. e = WriterTake l ok"
    using wbuf_step [OF assms(1), of l] same by blast
  then show ?thesis
  proof cases
    case 1
    then show ?thesis using RegTake_step [of s t l] assms(1,4) same by (auto simp: wire_def)
  next
    case (2 ok)
    then show ?thesis using WriterTake_step [of l ok s t] assms(1,2) same by (auto simp: wire_def)
  next
    case 3
    from frames_step [OF assms(1), of l] show ?thesis
    proof (elim disjE exE conjE)
      assume "frames t l = frames s l"
      then show ?thesis using 3 in_hand_step [OF assms(1), of l] same assms(1) WriterWrite_step [of l _ s t]
        by (elim disjE) (auto simp add: wire_def subseq_delete simp del: act.simps)
    next
      fix m assume "writer s l = Writing m" "writer t l = Enter" "connOpen s l"
        "frames t l = frames s l @ [m]"
      moreover from this have "m \<noteq> []" using assms(3) by (auto simp: leaving_def)
      ultimately show ?thesis using 3 same by (simp add: wire_def)
    qed
  qed
qed

definition fresh_ok :: "hub \<Rightarrow> bool" where
  "fresh_ok s \<longleftrightarrow> (\<forall>l. closeChan s l = writeChan s l \<and> (writer s l = NoWriter \<or> at l Starting s \<or> at l Registered s \<longrightarrow> writeChan s l = NilChan) \<and>
     (writeChan s l = NilChan \<longrightarrow> wbuf s l = [] \<and> pushed s l = []))"

definition delivery_ok :: "hub \<Rightarrow> bool" where
  "delivery_ok s \<longleftrightarrow> (\<forall>l. [] \<notin> set (wbuf s l) \<and>
     (leaving l s \<longrightarrow> \<not> connOpen s l \<and> reader s l \<noteq> NoReader) \<and>
     subseq (wire l s) (pushed s l) \<and>
     (connOpen s l \<and> \<not> write_failed (writer s l) \<longrightarrow> wire l s = pushed s l))"

lemma fresh_ok_step:
  assumes step: "act e s = Some t" "locks_ok s" "places_ok s" and "fresh_ok s"
  shows "fresh_ok t"
  unfolding fresh_ok_def
proof (intro allI conjI impI)
  fix l
  have old: "writeChan s l = NilChan" if "writer s l = NoWriter \<or> at l Starting s \<or> at l Registered s"
    using that assms(4) by (auto simp: fresh_ok_def)
  have same: "closeChan s l = writeChan s l" using assms(4) by (simp add: fresh_ok_def)
  then show "closeChan t l = writeChan t l" by (rule same_chans_step [OF step(1)])
  show "writeChan t l = NilChan" if new: "writer t l = NoWriter \<or> at l Starting t \<or> at l Registered t"
  proof (rule ccontr)
    assume "writeChan t l \<noteq> NilChan"
    then consider "writeChan s l \<noteq> NilChan" | "at l Registered s" "at l Registering t"
      using writeChan_new [OF step(1) same] by auto
    then show False
    proof cases
      case 1
      then have "\<not> at l Starting s" "\<not> at l Registered s" "writer s l \<noteq> NoWriter" using old by auto
      then show False
        using new writer_mono [OF step(1)] starting_step [OF step(1), of l] registered_step [OF step(1)] step(1)
        by (auto simp: start_writer_def dest: in_set_tl split: if_splits)
    next
      case 2
      then show False
        using new at_unique_step [OF step] places_ok_step [OF step] unfolding places_ok_def by blast
    qed
  qed
  assume nil: "writeChan t l = NilChan"
  then have "writeChan s l = NilChan" using writeChan_step [OF step(1)] by blast
  then have s: "wbuf s l = []" "pushed s l = []" using assms(4) by (auto simp: fresh_ok_def)
  then have p: "pushed t l = pushed s l" using pushed_step [OF step(1), of l] \<open>writeChan s l = NilChan\<close> by auto
  show "pushed t l = []" using p s by simp
  show "wbuf t l = []"
    using wbuf_step [OF step(1), of l] p s RegTake_step [of s t l] WriterTake_step [of l _ s t] step(1)
    by (elim disjE exE) force+
qed

lemma delivery_ok_step:
  assumes step: "act e s = Some t" "locks_ok s" "places_ok s" and "fresh_ok s" and ok: "delivery_ok s"
  shows "delivery_ok t"
  unfolding delivery_ok_def
proof (intro allI conjI impI)
  fix l
  have wb: "[] \<notin> set (wbuf s l)" and lv: "leaving l s \<longrightarrow> \<not> connOpen s l \<and> reader s l \<noteq> NoReader"
    and sub: "subseq (wire l s) (pushed s l)"
    and exact: "connOpen s l \<and> \<not> write_failed (writer s l) \<longrightarrow> wire l s = pushed s l"
    using ok by (auto simp: delivery_ok_def)
  have reg: "l \<in> set (registeredChan s) \<longrightarrow> wbuf s l = []" using assms(4) by (auto simp: fresh_ok_def)
  have wire: "pushed t l = pushed s l \<and> (wire l t = wire l s \<or> write_failed (writer t l) \<and> subseq (wire l t) (wire l s)) \<or>
    (\<exists>data. pushed t l = pushed s l @ [data] \<and> wire l t = wire l s @ [data])"
    using wire_step [OF step(1) wb _ reg] lv by blast
  show "[] \<notin> set (wbuf t l)" by (rule wbuf_nonempty_step [OF step(1) wb])
  show sub': "subseq (wire l t) (pushed t l)"
    using wire sub by (auto intro: subseq_order.trans)
  show "\<not> connOpen t l" "reader t l \<noteq> NoReader" if "leaving l t"
    using leaving_step [OF step(1) wb that] lv connOpen_step [OF step(1), of l] reader_mono [OF step(1), of l]
      places_ok_step [OF step] by (auto simp: places_ok_def)
  assume open_t: "connOpen t l \<and> \<not> write_failed (writer t l)"
  show "wire l t = pushed t l"
  proof (cases "reader s l = NoReader")
    case True
    then have "writeChan s l = NilChan" using step(3) assms(4) by (auto simp: places_ok_def fresh_ok_def)
    then have "pushed t l = []" using pushed_step [OF step(1), of l] assms(4) by (auto simp: fresh_ok_def)
    then show ?thesis using sub' by simp
  next
    case False
    then have "connOpen s l" using connOpen_step [OF step(1), of l] open_t by blast
    moreover have "\<not> write_failed (writer s l)"
      using write_failed_step [OF step(1), of l] open_t lv calculation by (auto simp: leaving_def)
    ultimately show ?thesis using exact wire open_t by auto
  qed
qed

lemma delivery_ok_init: "fresh_ok (init_hub mx) \<and> delivery_ok (init_hub mx)"
  by (simp add: init_hub_def fresh_ok_def delivery_ok_def wire_def leaving_def)

lemma reachable_delivery_ok: "reachable mx s \<Longrightarrow> hub_ok s \<and> fresh_ok s \<and> delivery_ok s"
proof (induction rule: reachable.induct)
  case init
  then show ?case using hub_ok_init delivery_ok_init by blast
next
  case (step s e t)
  then have "act e s = Some t" by (simp add: fire_def split: if_splits)
  then show ?case
    using step fresh_ok_step delivery_ok_step hub_ok_step [of e s t] unfolding hub_ok_def by blast
qed

section \<open>Unregistering\<close>

text \<open>What the unregistering goroutine has done so far of its visit to the lines of \<open>u\<close>.\<close>

definition visit_ok :: "nat \<Rightarrow> nat \<Rightarrow> hub \<Rightarrow> bool" where
  "visit_ok l u s \<longleftrightarrow> (\<exists>rest keep. closing s u = Some (ByUnreg, ById (line_id (tab s l)), rest, keep) \<and>
     {v \<in> set (uls s u). line_id (tab s v) \<noteq> line_id (tab s l)} \<subseteq> set keep \<union> set rest \<and>
     (\<forall>v \<in> set keep. line_id (tab s v) \<noteq> line_id (tab s l)))"

lemma UHold_new:
  "act e s = Some t \<Longrightarrow> unregPc t = UHold l u \<Longrightarrow> unregPc s \<noteq> UHold l u \<Longrightarrow>
    closing t u = Some (ByUnreg, ById (line_id (tab s l)), uls s u, []) \<and> uls t u = uls s u \<and> tab t = tab s"
  by (cases e) (auto simp: step_defs Let_def split: step_splits)

lemma UHold_keeps_uls:
  "act e s = Some t \<Longrightarrow> unregPc s = UHold l u \<Longrightarrow> unregPc t = UHold l u \<Longrightarrow>
    closing s u = Some (ByUnreg, m, rest, keep) \<Longrightarrow> u < next_ul s \<Longrightarrow> uls t u = uls s u"
  by (cases e) (auto simp: step_defs Let_def split: step_splits)

lemma visit_step:
  "act e s = Some t \<Longrightarrow> unregPc s = UHold l u \<Longrightarrow> unregPc t = UHold l u \<Longrightarrow>
    closing s u = Some (ByUnreg, m, rest, keep) \<Longrightarrow> closing t u = closing s u \<or>
    (\<exists>v rest'. rest = v # rest' \<and> closing t u = Some (ByUnreg, m, rest',
       if fst (close_by (tab s) m [v]) = [] then keep @ [v] else keep))"
  by (cases e) (auto simp: step_defs Let_def split: step_splits)

definition parts_ok :: "line_tab \<Rightarrow> string \<Rightarrow> nat list \<Rightarrow> nat list \<Rightarrow> nat list \<Rightarrow> bool" where
  "parts_ok tb i us rest keep \<longleftrightarrow> set keep \<union> set rest \<subseteq> set us \<and>
     {v \<in> set us. line_id (tb v) \<noteq> i} \<subseteq> set keep \<union> set rest \<and> (\<forall>v \<in> set keep. line_id (tb v) \<noteq> i)"

lemma parts_ok_next:
  "parts_ok tb i us (w # rest) keep \<Longrightarrow> line_id (tb w) = i \<Longrightarrow> parts_ok tb i us rest keep"
  "parts_ok tb i us (w # rest) keep \<Longrightarrow> line_id (tb w) \<noteq> i \<Longrightarrow> parts_ok tb i us rest (keep @ [w])"
  by (auto simp: parts_ok_def)

lemma parts_ok_cong:
  assumes "parts_ok tb i us rest keep" and "\<And>v. v \<in> set us \<Longrightarrow> line_id (tb' v) = line_id (tb v)"
  shows "parts_ok tb' i us rest keep"
proof -
  have "{v \<in> set us. line_id (tb' v) \<noteq> i} = {v \<in> set us. line_id (tb v) \<noteq> i}" using assms(2) by auto
  then show ?thesis using assms by (auto simp: parts_ok_def)
qed

lemma visit_ok_step:
  assumes step: "act e s = Some t" "hub_ok s" and known: "reader s l \<noteq> NoReader"
    and ok: "unregPc s = UHold l u \<Longrightarrow> visit_ok l u s" and "unregPc t = UHold l u"
  shows "visit_ok l u t"
proof (cases "unregPc s = UHold l u")
  case False
  then show ?thesis using UHold_new [OF step(1) assms(5)] by (simp add: visit_ok_def)
next
  case True
  let ?i = "line_id (tab s l)"
  from ok [OF True] obtain rest keep where v: "closing s u = Some (ByUnreg, ById ?i, rest, keep)"
      "{v \<in> set (uls s u). line_id (tab s v) \<noteq> ?i} \<subseteq> set keep \<union> set rest" "\<forall>v \<in> set keep. line_id (tab s v) \<noteq> ?i"
    unfolding visit_ok_def by blast
  have ok_s: "locks_ok s" "places_ok s" "owners_ok s" using step(2) by (auto simp: hub_ok_def)
  have parts: "parts_ok (tab s) ?i (uls s u) rest keep"
    using locks_okD [OF ok_s(1) v(1)] v(2,3) by (simp add: parts_ok_def)
  have "u < next_ul s" using ok_s(3) v(1) unfolding owners_ok_def by (metis not_le_imp_less option.distinct(1))
  then have same: "uls t u = uls s u" by (rule UHold_keeps_uls [OF step(1) True assms(5) v(1)])
  have id_l: "line_id (tab t l) = ?i" using tab_step [OF step(1) known] by simp
  have ids: "line_id (tab t v) = line_id (tab s v)" if "v \<in> set (uls s u)" for v
    using at_tab [OF step(1) ok_s(2), of v "Listed u"] that by simp
  have "\<exists>rest' keep'. closing t u = Some (ByUnreg, ById ?i, rest', keep') \<and> parts_ok (tab s) ?i (uls s u) rest' keep'"
    using visit_step [OF step(1) True assms(5) v(1)] v(1) parts
    by (auto simp: close_id.signals intro: parts_ok_next split: if_splits)
  then obtain rest' keep' where t: "closing t u = Some (ByUnreg, ById ?i, rest', keep')"
    and "parts_ok (tab s) ?i (uls s u) rest' keep'" by blast
  then have "parts_ok (tab t) ?i (uls t u) rest' keep'" using same by (simp add: parts_ok_cong ids)
  then show ?thesis using t id_l unfolding visit_ok_def parts_ok_def by simp
qed

lemma reachable_visit_ok: "reachable mx s \<Longrightarrow> unregPc s = UHold l u \<Longrightarrow> visit_ok l u s"
proof (induction rule: reachable.induct)
  case init
  then show ?case by (simp add: init_hub_def)
next
  case (step s e t)
  have act: "act e s = Some t" using step.hyps(2) by (simp add: fire_def split: if_splits)
  have s: "hub_ok s" "delivery_ok s" using reachable_delivery_ok [OF step.hyps(1)] by auto
  have "leaving l s" using unregPc_step(1) [OF act step.prems] by (auto simp: leaving_def)
  then have "reader s l \<noteq> NoReader" using s(2) by (simp add: delivery_ok_def)
  then show ?case using visit_ok_step [OF act s(1)] step.IH step.prems by blast
qed

section \<open>Properties\<close>

text \<open>
  C14: when the unregistering goroutine gives back the lock of the lines of a user, exactly the lines
  that do not have the id of the line it unregisters are left: that line is gone from the list before its
  channels are closed, and no other line is lost, whatever the other goroutines did meanwhile.
\<close>

theorem unregister_removes_line:
  assumes "reachable mx s" and "unregPc s = UHold l u" and "fire UnregUnlock s = Some t"
  shows "set (uls t u) = {v \<in> set (uls s u). line_id (tab s v) \<noteq> line_id (tab s l)} \<and>
    unregPc t = UFinish l (Some u) \<and> closing t u = None"
proof -
  have ok: "locks_ok s" using reachable_hub_ok [OF assms(1)] by (simp add: hub_ok_def)
  obtain rest keep where v: "closing s u = Some (ByUnreg, ById (line_id (tab s l)), rest, keep)"
      "{v \<in> set (uls s u). line_id (tab s v) \<noteq> line_id (tab s l)} \<subseteq> set keep \<union> set rest"
      "\<forall>v \<in> set keep. line_id (tab s v) \<noteq> line_id (tab s l)"
    using reachable_visit_ok [OF assms(1,2)] unfolding visit_ok_def by blast
  have t: "rest = []" "uls t u = keep" "unregPc t = UFinish l (Some u)" "closing t u = None"
    using assms(2,3) v(1) by (auto simp: fire_def unreg_unlock_def release_def split: step_splits)
  then show ?thesis using v(2,3) locks_okD [OF ok v(1)] by auto
qed

theorem unregister_removes_line_witness:
  "\<exists>s t. fire_all (connect 0 (client ''1'') @ connect 1 (client ''2'') @ peer_gone 0 @ [UnregTake, CloseLine 0, CloseLine 0])
       (init_hub 0) = Some s \<and> fire UnregUnlock s = Some t \<and> uls s 0 = [0, 1] \<and>
     set (uls t 0) = {v \<in> set (uls s 0). line_id (tab s v) \<noteq> line_id (tab s 0)}"
proof -
  let ?run = "connect 0 (client ''1'') @ connect 1 (client ''2'') @ peer_gone 0 @ [UnregTake, CloseLine 0, CloseLine 0]"
  obtain s t where s: "fire_all ?run (init_hub 0) = Some s" "unregPc s = UHold 0 0" "fire UnregUnlock s = Some t"
      "uls s 0 = [0, 1]"
    by (simp add: client_def run_simps)
  show ?thesis using s unregister_removes_line [OF run_reachable [OF s(1)] s(2,3)] by blast
qed

text \<open>
  C2: in every state the hub can reach, what was written to a connection are messages pushed to its
  line, in the order they were pushed and each at most once. While the connection is open and no write to
  it has failed, nothing is lost: what was written, what the writing goroutine has in hand and
  what waits in the buffer are together exactly what was pushed.
\<close>

theorem hub_delivers_in_order:
  assumes "reachable mx s"
  shows "subseq (frames s l) (pushed s l) \<and>
    (connOpen s l \<and> \<not> write_failed (writer s l) \<longrightarrow> frames s l @ in_hand (writer s l) @ wbuf s l = pushed s l)"
proof -
  have ok: "delivery_ok s" using reachable_delivery_ok [OF assms] by blast
  then have "subseq (wire l s) (pushed s l)" by (simp add: delivery_ok_def)
  then have "subseq (frames s l) (pushed s l)"
    unfolding wire_def by (rule subseq_order.trans [OF list_emb_prefix, rotated]) auto
  moreover have "frames s l @ in_hand (writer s l) @ wbuf s l = pushed s l"
    if "connOpen s l" "\<not> write_failed (writer s l)"
  proof -
    have "[] \<notin> set (in_hand (writer s l))" using ok that(1) by (auto simp: delivery_ok_def leaving_def)
    then have "filter (\<lambda>m. m \<noteq> []) (in_hand (writer s l)) = in_hand (writer s l)"
      by (auto simp: filter_id_conv)
    moreover have "wire l s = pushed s l" using ok that by (simp add: delivery_ok_def)
    ultimately show ?thesis by (simp add: wire_def)
  qed
  ultimately show ?thesis by blast
qed

theorem hub_delivers_in_order_witness:
  "\<exists>s. fire_all (connect 0 (client ''1'') @ [CallPush 0 [''ann''] [7], CallPush 1 [''ann''] [8, 9]] @
       [PushNext 1, PushNext 1, PushNext 1, PushNext 0, PushNext 0, PushNext 0, WriterTake 0 True, WriterWrite 0 True])
       (init_hub 0) = Some s \<and> frames s 0 = [[8, 9]] \<and> pushed s 0 = [[8, 9], [7]] \<and> subseq (frames s 0) (pushed s 0)"
proof -
  let ?run = "connect 0 (client ''1'') @ [CallPush 0 [''ann''] [7], CallPush 1 [''ann''] [8, 9]] @
       [PushNext 1, PushNext 1, PushNext 1, PushNext 0, PushNext 0, PushNext 0, WriterTake 0 True, WriterWrite 0 True]"
  obtain s where s: "fire_all ?run (init_hub 0) = Some s" "frames s 0 = [[8, 9]]" "pushed s 0 = [[8, 9], [7]]"
    by (simp add: client_def run_simps)
  show ?thesis using s hub_delivers_in_order [OF run_reachable [OF s(1)], of 0] by blast
qed



end
