(* ===== verification/Hub_Buffers.thy ===== *)
theory Hub_Buffers
  imports Hub_Safety
begin

text \<open>
  The read buffers of the hub: who owns an array, and which slices of it are under way.
\<close>

section \<open>Owners\<close>

text \<open>A buffer is free in the pool or belongs to one reading goroutine.\<close>

definition buffers_ok :: "hub \<Rightarrow> bool" where
  "buffers_ok s \<longleftrightarrow> distinct (pool s) \<and> (\<forall>l. distinct (held s l)) \<and> (\<forall>a \<in> set (pool s). a < next_arr s) \<and>
     (\<forall>l. \<forall>a \<in> set (held s l). a < next_arr s \<and> a \<notin> set (pool s) \<and> (\<forall>l'. a \<in> set (held s l') \<longrightarrow> l' = l))"

definition unowned :: "nat \<Rightarrow> hub \<Rightarrow> bool" where
  "unowned a s \<longleftrightarrow> a < next_arr s \<and> a \<notin> set (pool s) \<and> (\<forall>l. a \<notin> set (held s l))"

lemma buffers_ok_cong:
  "pool t = pool s \<Longrightarrow> held t = held s \<Longrightarrow> next_arr t = next_arr s \<Longrightarrow> buffers_ok t = buffers_ok s"
  by (simp add: buffers_ok_def)

lemma next_arr_unowned: "buffers_ok s \<Longrightarrow> next_arr s \<notin> set (pool s) \<and> next_arr s \<notin> set (held s l)"
  by (auto simp: buffers_ok_def)

lemma take_buffer_ok:
  assumes "take_buffer pick s = Some (a, t)" and "buffers_ok s"
  shows "buffers_ok t \<and> unowned a t"
proof (cases pick)
  case None
  then show ?thesis using assms next_arr_unowned [OF assms(2)]
    by (auto simp: take_buffer_def buffers_ok_def unowned_def less_Suc_eq)
next
  case (Some i)
  then have i: "i < length (pool s)" "a = pool s ! i" and t: "t = s\<lparr>pool := take i (pool s) @ drop (Suc i) (pool s)\<rparr>"
    using assms(1) by (auto simp: take_buffer_def split: if_splits)
  define xs ys where "xs = take i (pool s)" and "ys = drop (Suc i) (pool s)"
  have "pool s = xs @ a # ys" "pool t = xs @ ys" "held t = held s" "next_arr t = next_arr s"
    using id_take_nth_drop [OF i(1)] by (simp_all add: i(2) t xs_def ys_def)
  then show ?thesis using assms(2) by (auto simp: buffers_ok_def unowned_def)
qed

lemma fill_buffer_ok:
  assumes "fill_buffer a extra msg s = (a', t)" and "buffers_ok s" and "unowned a s"
  shows "buffers_ok t \<and> unowned a' t"
  using assms next_arr_unowned [OF assms(2)]
  by (auto simp: fill_buffer_def buffers_ok_def unowned_def less_Suc_eq split: if_splits)

lemma held_ok:
  assumes "take_buffer pick s = Some (a', s')" and "fill_buffer a' extra msg s' = (a, u)" and "buffers_ok s"
    and "pool t = pool u" and "held t = (held u)(l := a # held u l)" and "next_arr t = next_arr u"
  shows "buffers_ok t"
proof -
  have "buffers_ok u \<and> unowned a u" using take_buffer_ok fill_buffer_ok assms(1-3) by blast
  then show ?thesis using assms(4-6) by (auto simp: buffers_ok_def unowned_def)
qed

lemma read_data_buffers: "read_data l pick extra msg now s = Some t \<Longrightarrow> buffers_ok s \<Longrightarrow> buffers_ok t"
  by (auto simp: read_data_def panic_def buffers_ok_cong [of "_\<lparr>panicked := _\<rparr>"] split: if_splits option.splits prod.splits
      intro: held_ok)

lemma read_fails_buffers: "read_fails l pick extra msg s = Some t \<Longrightarrow> buffers_ok s \<Longrightarrow> buffers_ok t"
  by (auto simp: read_fails_def panic_def buffers_ok_cong [of "_\<lparr>panicked := _\<rparr>"] split: if_splits option.splits prod.splits
      intro: held_ok)

text \<open>What every other step does to the buffers: nothing, or a goroutine gives its own back.\<close>

lemma buffers_step:
  "act e s = Some t \<Longrightarrow> pool t = pool s \<and> held t = held s \<and> next_arr t = next_arr s \<or>
     (\<exists>l pick extra msg now. e = ReadData l pick extra msg now) \<or>
     (\<exists>l pick extra msg. e = ReadFails l pick extra msg) \<or>
     (\<exists>l. pool t = held s l @ pool s \<and> held t = (held s)(l := []) \<and> next_arr t = next_arr s)"
  by (cases e) (auto simp: step_defs Let_def split: step_splits)

lemma buffers_ok_step:
  assumes "fire e s = Some t" and "buffers_ok s"
  shows "buffers_ok t"
  using buffers_step [OF fire_act [OF assms(1)]]
proof (elim disjE exE conjE)
  fix l
  assume "pool t = held s l @ pool s" "held t = (held s)(l := [])" "next_arr t = next_arr s"
  then show ?thesis using assms(2) by (auto simp: buffers_ok_def)
qed (use fire_act [OF assms(1)] assms(2) buffers_ok_cong [of t s] read_data_buffers read_fails_buffers in auto)

section \<open>Slices\<close>

text \<open>
  The slice a reading goroutine is about to send lies in a buffer of its own; a queued slice
  lies in an array that exists, within its length.
\<close>

definition slices_ok :: "hub \<Rightarrow> bool" where
  "slices_ok s \<longleftrightarrow>
     (\<forall>l a n. reader s l = RSending a n \<longrightarrow> a \<in> set (held s l) \<and> n \<le> length (arr s a)) \<and>
     (\<forall>(l, a, n) \<in> set (messageChan s). a < next_arr s \<and> n \<le> length (arr s a))"

lemma arr_step:
  "act e s = Some t \<Longrightarrow> a < next_arr s \<Longrightarrow> a < next_arr t \<and> length (arr t a) = length (arr s a)"
  by (cases e) (auto simp: step_defs Let_def split: step_splits)

lemma sending_step:
  "act e s = Some t \<Longrightarrow> reader t l = RSending a n \<Longrightarrow>
    reader s l = RSending a n \<and> held t l = held s l \<or> a \<in> set (held t l) \<and> n \<le> length (arr t a)"
  by (cases e) (auto simp: step_defs Let_def split: step_splits)

lemma queued_step:
  "act e s = Some t \<Longrightarrow> x \<in> set (messageChan t) \<Longrightarrow>
    x \<in> set (messageChan s) \<or> (\<exists>l a n. x = (l, a, n) \<and> reader s l = RSending a n)"
  by (cases e) (auto simp: step_defs Let_def split: step_splits)

lemma slices_ok_step:
  assumes "fire e s = Some t" and "buffers_ok s \<and> slices_ok s"
  shows "buffers_ok t \<and> slices_ok t"
proof -
  note step = fire_act [OF assms(1)]
  have sends: "a \<in> set (held s l) \<and> n \<le> length (arr s a) \<and> a < next_arr s"
    if "reader s l = RSending a n" for l a n
    using assms(2) that unfolding slices_ok_def buffers_ok_def by blast
  have queued: "n \<le> length (arr s a) \<and> a < next_arr s" if "(l, a, n) \<in> set (messageChan s)" for l a n
    using assms(2) that unfolding slices_ok_def by blast
  have "a \<in> set (held t l) \<and> n \<le> length (arr t a)" if "reader t l = RSending a n" for l a n
    using sending_step [OF step that] arr_step [OF step, of a] sends [of l a n] by auto
  moreover have "a < next_arr t \<and> n \<le> length (arr t a)" if "(l, a, n) \<in> set (messageChan t)" for l a n
    using queued_step [OF step that] arr_step [OF step, of a] sends [of l a n] queued [of l a n] by auto
  ultimately have "slices_ok t" unfolding slices_ok_def by blast
  then show ?thesis using buffers_ok_step [OF assms(1)] assms(2) by blast
qed

interpretation buffers: step_always fire "\<lambda>s. buffers_ok s \<and> slices_ok s"
  by unfold_locales (rule slices_ok_step)

lemma buffers_init: "buffers_ok (init_hub mx) \<and> slices_ok (init_hub mx)"
  by (simp add: buffers_ok_def slices_ok_def init_hub_def)

section \<open>Properties\<close>



end
