(* ===== verification/Hub_Races.thy ===== *)
theory Hub_Races
  imports Hub_Safety
begin

text \<open>
  Runs of the hub that end badly: each is a concrete sequence of events from the initial state,
  and where the damage is permanent, that no later event repairs it.
\<close>

section \<open>Panics\<close>

text \<open>
  A connection that comes and goes; one that goes before it is registered; a message pushed to a
  line that was unregistered while its registration was under way; a line that registers while
  \<^verbatim>\<open>Hub.Close\<close> is at work, and goes.
\<close>

definition come_and_go :: "nat \<Rightarrow> Line \<Rightarrow> event list" where
  "come_and_go l ln = connect l ln @ peer_gone l @ unregister 0 @ [UnregDelete, WriterClose l, WriterClose l, UnregTake, UnregFinish]"

definition gone_early :: "nat \<Rightarrow> Line \<Rightarrow> event list" where
  "gone_early l ln = [Upgrade l ln, StartWriter l] @ peer_gone l @ [UnregTake, UnregFinish]"

definition push_to_gone :: "nat \<Rightarrow> Line \<Rightarrow> nat \<Rightarrow> bytes \<Rightarrow> event list" where
  "push_to_gone l ln i data = [Upgrade l ln, StartWriter l, Enroll l, RegTake] @ peer_gone l @
     [UnregTake, UnregUnlock, UnregFinish, RegAdd, CallPush i [userId ln] data, PushNext i, PushNext i, PushNext i]"

definition gone_after_close :: "nat \<Rightarrow> Line \<Rightarrow> nat \<Rightarrow> event list" where
  "gone_after_close l ln j = CallClose j [] # connect l ln @ replicate 7 (CloseNext j) @ [ReadClose l, ReaderClose l, ReaderClose l]"

text \<open>
  C17: Four ways in which an ordinary disconnection brings the program down, for every line and
  configuration. One connection that comes and goes: its reader asks for the line to be
  unregistered, the unregistering goroutine signals the writer, which asks a second time, and the
  second request closes the channels of the line once more. A connection that ends before it was
  registered: a channel that was never made is closed. A line unregistered while its registration
  is under way: it is added with closed channels, and the next push to its user sends on one. A line
  registered while \<^verbatim>\<open>Hub.Close\<close> is at work: its reader sends on a closed channel of the hub.
\<close>

theorem disconnect_panics:
  "map_option panicked (fire_all (come_and_go l ln) (init_hub mx)) = Some (Some ''close of closed channel'') \<and>
   map_option panicked (fire_all (gone_early l ln) (init_hub mx)) = Some (Some ''close of nil channel'') \<and>
   map_option panicked (fire_all (push_to_gone l ln i (b # bs)) (init_hub mx)) = Some (Some ''send on closed channel'') \<and>
   map_option panicked (fire_all (gone_after_close l ln j) (init_hub mx)) = Some (Some ''send on closed channel'')"
proof (intro conjI)
  show "map_option panicked (fire_all (come_and_go l ln) (init_hub mx)) = Some (Some ''close of closed channel'')"
    by (simp add: come_and_go_def run_simps)
  show "map_option panicked (fire_all (gone_early l ln) (init_hub mx)) = Some (Some ''close of nil channel'')"
    by (simp add: gone_early_def run_simps)
  show "map_option panicked (fire_all (push_to_gone l ln i (b # bs)) (init_hub mx)) = Some (Some ''send on closed channel'')"
    by (simp add: push_to_gone_def run_simps)
  show "map_option panicked (fire_all (gone_after_close l ln j) (init_hub mx)) = Some (Some ''send on closed channel'')"
    by (simp add: gone_after_close_def run_simps numeral_eq_Suc)
qed

section \<open>Blocked for ever\<close>

lemma SelectNil_step: "writer s l = SelectNil \<Longrightarrow> act e s = Some t \<Longrightarrow> writer t l = SelectNil \<and> frames t l = frames s l"
  by (cases e) (auto simp: step_defs Let_def split: step_splits)

lemma head_line_blocks:
  "closing s u = Some (h, m, l # rest, keep) \<Longrightarrow> fst (close_by (tab s) m [l]) \<noteq> [] \<Longrightarrow> writer s l = SelectNil \<Longrightarrow>
   act e s = Some t \<Longrightarrow> closing t u = closing s u"
  by (cases e) (auto simp: step_defs Let_def split: step_splits)

lemma UHold_waits:
  "unregPc s = UHold l u \<Longrightarrow> closing s u = Some (h, m, v # rest, keep) \<Longrightarrow> act e s = Some t \<Longrightarrow> unregPc t = UHold l u"
  by (cases e) (auto simp: step_defs Let_def split: step_splits)

text \<open>The unregistering goroutine holds the lock of \<open>u\<close> and waits for a writer that never listens.\<close>

definition jammed :: "nat \<Rightarrow> nat \<Rightarrow> hub \<Rightarrow> bool" where
  "jammed l u s \<longleftrightarrow> writer s l = SelectNil \<and> reader s l \<noteq> NoReader \<and> unregPc s = UHold l u \<and>
     (\<exists>rest keep. closing s u = Some (ByUnreg, ById (line_id (tab s l)), l # rest, keep))"

lemma jammed_step:
  assumes "jammed l u s" and "act e s = Some t"
  shows "jammed l u t"
proof -
  from assms(1) obtain rest keep where s: "writer s l = SelectNil" "reader s l \<noteq> NoReader" "unregPc s = UHold l u"
      "closing s u = Some (ByUnreg, ById (line_id (tab s l)), l # rest, keep)"
    unfolding jammed_def by blast
  have "closing t u = closing s u"
    by (rule head_line_blocks [OF s(4) _ s(1) assms(2)]) (simp add: close_id.signals)
  then show ?thesis
    using s SelectNil_step [OF s(1) assms(2)] reader_mono [OF assms(2) s(2)] UHold_waits [OF s(3,4) assms(2)]
      tab_step [OF assms(2) s(2)]
    unfolding jammed_def by simp
qed

lemma jammed_silent:
  assumes "jammed l u s \<and> frames s l = fs" and "act e s = Some t"
  shows "jammed l u t \<and> frames t l = fs"
proof -
  have "writer s l = SelectNil" using assms(1) by (simp add: jammed_def)
  then show ?thesis using jammed_step [OF _ assms(2), of l u] SelectNil_step [OF _ assms(2), of l] assms(1) by simp
qed

interpretation jam: step_always fire "\<lambda>s. jammed l u s \<and> frames s l = fs" for l u fs
  by unfold_locales (rule jammed_silent [OF _ fire_act])

definition early_writer :: "nat \<Rightarrow> Line \<Rightarrow> event list" where
  "early_writer l ln = [Upgrade l ln, StartWriter l, WriterEnter l, Enroll l, RegTake, RegAdd] @ peer_gone l @ [UnregTake]"

text \<open>
  C19: when the writing goroutine enters its \<^verbatim>\<open>select\<close> before the line is registered, it waits on
  \<^verbatim>\<open>nil\<close> channels for ever, and so does the unregistering goroutine once it tries to close that line:
  after whatever happens next it still waits, holding the lock of the user's lines, and nothing is
  ever written to the connection.
\<close>

theorem early_writer_blocks_hub:
  assumes "fire_all (early_writer l ln @ es) (init_hub mx) = Some t"
  shows "unregPc t = UHold l 0 \<and> closing t 0 \<noteq> None \<and> writer t l = SelectNil \<and> frames t l = []"
proof -
  obtain s where s: "fire_all (early_writer l ln) (init_hub mx) = Some s" "jammed l 0 s" "frames s l = []"
    by (simp add: early_writer_def run_simps jammed_def)
  then have "fire_all es s = Some t" using assms by (simp add: fires_append_bind)
  then have "jammed l 0 t \<and> frames t l = []" using jam.run_always s(2,3) by blast
  then show ?thesis by (auto simp: jammed_def)
qed

theorem early_writer_blocks_hub_witness:
  "\<exists>t. fire_all (early_writer 0 (client ''1'') @ [Tick, TickNext, CallPush 0 [''ann''] [1], PushNext 0]) (init_hub 60) = Some t \<and>
     unregPc t = UHold 0 0 \<and> frames t 0 = []"
proof -
  have "fire_all (early_writer 0 (client ''1'') @ [Tick, TickNext, CallPush 0 [''ann''] [1], PushNext 0]) (init_hub 60) \<noteq> None"
    by (simp add: early_writer_def client_def run_simps)
  then obtain t where t: "fire_all (early_writer 0 (client ''1'') @ [Tick, TickNext, CallPush 0 [''ann''] [1], PushNext 0])
      (init_hub 60) = Some t" by blast
  show ?thesis using t early_writer_blocks_hub [OF t] by blast
qed

section \<open>Lost lines and messages\<close>

definition unlisted :: "nat \<Rightarrow> hub \<Rightarrow> bool" where
  "unlisted u s \<longleftrightarrow> u < next_ul s \<and> (\<forall>k. users s k \<noteq> Some u)"

lemma unlisted_step: "unlisted u s \<Longrightarrow> act e s = Some t \<Longrightarrow> unlisted u t"
  using users_step [of e s t _ u] next_ul_mono [of e s t] unfolding unlisted_def by fastforce

interpretation lost: step_always fire "unlisted u" for u
  by unfold_locales (rule unlisted_step [OF _ fire_act])

text \<open>
  The first line of a user leaves while the second arrives: the unregistering goroutine finds
  the list empty, the second line is added to it, then the user is deleted from the map.
\<close>

definition second_line_race :: "event list" where
  "second_line_race = connect 0 (client ''1'') @ [Upgrade 1 (client ''2''), StartWriter 1, Enroll 1] @
     peer_gone 0 @ unregister 0 @ [RegTake, RegAdd, WriterEnter 1, UnregDelete]"

text \<open>
  C20: a line can be registered into a list that is no longer in the hub: the line is connected and
  listed, its user has no lines as far as \<^verbatim>\<open>GetUserLines\<close> can tell, and whatever happens next
  its list is never found again, so no push and no idle check reaches it.
\<close>

theorem registration_lost:
  assumes "fire_all (second_line_race @ es) (init_hub mx) = Some t"
  shows "(\<forall>k. GetUserLines k t \<noteq> Some 0) \<and>
    map_option (\<lambda>s. (panicked s, uls s 0, connOpen s 1, writer s 1, GetUserLines ''ann'' s)) (fire_all second_line_race (init_hub mx))
      = Some (None, [1], True, Select, None)"
proof -
  have end_of_race: "map_option (\<lambda>s. (panicked s, uls s 0, connOpen s 1, writer s 1, GetUserLines ''ann'' s))
      (fire_all second_line_race (init_hub mx)) = Some (None, [1], True, Select, None)"
    by (simp add: second_line_race_def client_def run_simps GetUserLines_def)
  obtain s where s: "fire_all second_line_race (init_hub mx) = Some s" "unlisted 0 s"
    by (simp add: second_line_race_def client_def run_simps unlisted_def)
  then have "fire_all es s = Some t" using assms by (simp add: fires_append_bind)
  then have "unlisted 0 t" using lost.run_always s(2) by blast
  then show ?thesis using end_of_race by (simp add: unlisted_def GetUserLines_def)
qed

theorem registration_lost_witness:
  "\<exists>t. fire_all (second_line_race @ [Tick, TickNext]) (init_hub 60) = Some t \<and> (\<forall>k. GetUserLines k t \<noteq> Some 0)"
proof -
  have "fire_all (second_line_race @ [Tick, TickNext]) (init_hub 60) \<noteq> None"
    by (simp add: second_line_race_def client_def run_simps)
  then obtain t where t: "fire_all (second_line_race @ [Tick, TickNext]) (init_hub 60) = Some t" by blast
  show ?thesis using t registration_lost [OF t] by blast
qed


section \<open>The idle limit\<close>

text \<open>
  C22: \<^verbatim>\<open>NewHub\<close> keeps the idle limit in nanoseconds and compares it with idle times in seconds: with
  a limit of \<open>n\<close> seconds the idle check closes no line that was idle for at most \<open>n\<close> times
  1,000,000,000 seconds.
\<close>

theorem idle_limit_is_nanoseconds:
  assumes "NewHub submits period (of_nat n * second_ns) = Inr (p, h)"
    and "n < 9000000000"
    and "\<And>v. v \<in> set u \<Longrightarrow> sint (now v - lastActive (tb v)) \<le> int n * 1000000000"
  shows "closeInactiveLines tb now (connMaxIdleSeconds h) u = ([], u)"
proof -
  have "connMaxIdleSeconds h = of_nat n * second_ns"
    using assms(1) by (auto simp: NewHub_def init_hub_def Let_def split: option.splits)
  moreover have "sint (of_nat n * second_ns :: int64) = int n * 1000000000"
  proof -
    have "(of_nat n * second_ns :: int64) = word_of_int (int n * 1000000000)" by (simp add: second_ns_def)
    then have "sint (of_nat n * second_ns :: int64) = signed_take_bit 63 (int n * 1000000000)"
      by (simp only: signed_of_int) simp
    also have "\<dots> = int n * 1000000000" using assms(2) by (intro signed_take_bit_int_eq_self) simp_all
    finally show ?thesis .
  qed
  ultimately show ?thesis
    using assms(3) by (auto simp: closeInactiveLines_def close_loop_eq filter_empty_conv filter_id_conv not_less)
qed

theorem idle_limit_is_nanoseconds_witness:
  "closeInactiveLines (\<lambda>_. client ''1'') (\<lambda>_. 50000000000) (connMaxIdleSeconds (init_hub (of_nat 60 * second_ns))) [0] = ([], [0])"
proof (rule idle_limit_is_nanoseconds)
  show "NewHub (Some (\<lambda>_. None)) 0 (of_nat 60 * second_ns) = Inr (second_ns, init_hub (of_nat 60 * second_ns))"
    by (simp add: NewHub_def second_ns_def)
qed (simp_all add: client_def)

end
