(* ===== verification/Slices.thy ===== *)
theory Slices
  imports Niu_Prelude
begin

text \<open>
  The generic slice functions of \<^verbatim>\<open>slice.go\<close>. A callback gets a pointer to the loop's own
  copy of an element, so it can change that copy: it is a function to its result and the new
  value of the copy, and what the loop stores afterwards is the changed copy. A callback
  that only reads is \<open>reading p\<close>.
\<close>

type_synonym ('a, 'r) callback = "'a \<Rightarrow> 'r \<times> 'a"

definition reading :: "('a \<Rightarrow> 'r) \<Rightarrow> ('a, 'r) callback" where
  "reading p = (\<lambda>v. (p v, v))"

section \<open>Searching and selecting\<close>

fun First :: "'a list \<Rightarrow> ('a, bool) callback \<Rightarrow> 'a option" where
  "First [] f = None"
| "First (v # data) f = (let (found, v) = f v in if found then Some v else First data f)"

fun FirstOrDefault :: "'a list \<Rightarrow> ('a, bool) callback \<Rightarrow> 'a \<Rightarrow> 'a" where
  "FirstOrDefault [] f defaultVal = defaultVal"
| "FirstOrDefault (v # data) f defaultVal =
     (let (found, v) = f v in if found then v else FirstOrDefault data f defaultVal)"

fun Filter_loop :: "'a list \<Rightarrow> ('a, bool) callback \<Rightarrow> 'a list \<Rightarrow> 'a list" where
  "Filter_loop [] f outArr = outArr"
| "Filter_loop (item # data) f outArr =
     (let (keep, item) = f item in Filter_loop data f (if keep then outArr @ [item] else outArr))"

definition Filter :: "'a list \<Rightarrow> ('a, bool) callback \<Rightarrow> 'a list" where
  "Filter data f = Filter_loop data f []"

text \<open>\<open>toLower\<close> stands for \<^verbatim>\<open>strings.ToLower\<close>, whose Unicode tables are not modelled.\<close>

fun ContainsIgnoreCase_loop :: "(string \<Rightarrow> string) \<Rightarrow> string list \<Rightarrow> string \<Rightarrow> bool" where
  "ContainsIgnoreCase_loop toLower [] tgtLow = False"
| "ContainsIgnoreCase_loop toLower (v # data) tgtLow =
     (if toLower v = tgtLow then True else ContainsIgnoreCase_loop toLower data tgtLow)"

definition ContainsIgnoreCase :: "(string \<Rightarrow> string) \<Rightarrow> string list \<Rightarrow> string \<Rightarrow> bool" where
  "ContainsIgnoreCase toLower data target = ContainsIgnoreCase_loop toLower data (toLower target)"

fun Map_loop :: "'a list \<Rightarrow> ('a, 'b \<times> bool) callback \<Rightarrow> 'b list \<Rightarrow> 'b list" where
  "Map_loop [] f outArr = outArr"
| "Map_loop (v # data) f outArr =
     (let ((out, ok), v) = f v in Map_loop data f (if ok then outArr @ [out] else outArr))"

definition Map :: "'a list \<Rightarrow> ('a, 'b \<times> bool) callback \<Rightarrow> 'b list" where
  "Map data f = Map_loop data f []"

fun Any :: "'a list \<Rightarrow> ('a, bool) callback \<Rightarrow> bool" where
  "Any [] condition = False"
| "Any (v # data) condition = (if fst (condition v) then True else Any data condition)"

fun All_slice :: "'a list \<Rightarrow> ('a, bool) callback \<Rightarrow> bool" where
  "All_slice [] condition = True"
| "All_slice (v # data) condition = (if \<not> fst (condition v) then False else All_slice data condition)"

fun Count_loop :: "'a list \<Rightarrow> ('a, bool) callback \<Rightarrow> go_int \<Rightarrow> go_int" where
  "Count_loop [] condition cnt = cnt"
| "Count_loop (v # arr) condition cnt =
     Count_loop arr condition (if fst (condition v) then cnt + 1 else cnt)"

definition Count :: "'a list \<Rightarrow> ('a, bool) callback \<Rightarrow> go_int" where
  "Count arr condition = Count_loop arr condition 0"

section \<open>Grouping\<close>

text \<open>A missing key of a Go map reads as the zero value, here the empty slice.\<close>

definition read_slice :: "('k, 'v list) gomap \<Rightarrow> 'k \<Rightarrow> 'v list" where
  "read_slice m k = (case map_of m k of None \<Rightarrow> [] | Some vs \<Rightarrow> vs)"

definition append_to :: "'k \<Rightarrow> 'v \<Rightarrow> ('k, 'v list) gomap \<Rightarrow> ('k, 'v list) gomap" where
  "append_to f v out =
     (let out = (if read_slice out f = [] then AList.update f [] out else out)
      in AList.update f (read_slice out f @ [v]) out)"

fun GroupBy_loop :: "'a list \<Rightarrow> ('a, 'k) callback \<Rightarrow> ('k, 'a list) gomap \<Rightarrow> ('k, 'a list) gomap" where
  "GroupBy_loop [] fieldFilter out = out"
| "GroupBy_loop (v # data) fieldFilter out =
     (let (f, v) = fieldFilter v in GroupBy_loop data fieldFilter (append_to f v out))"

definition GroupBy :: "'a list \<Rightarrow> ('a, 'k) callback \<Rightarrow> ('k, 'a list) gomap" where
  "GroupBy data fieldFilter = GroupBy_loop data fieldFilter []"

fun GroupByWithMap_loop ::
    "'a list \<Rightarrow> ('a, 'k) callback \<Rightarrow> ('a, 'v) callback \<Rightarrow> ('k, 'v list) gomap \<Rightarrow> ('k, 'v list) gomap" where
  "GroupByWithMap_loop [] fieldFilter mapper out = out"
| "GroupByWithMap_loop (v # data) fieldFilter mapper out =
     (let (f, v) = fieldFilter v; (field, v) = mapper v
      in GroupByWithMap_loop data fieldFilter mapper (append_to f field out))"

definition GroupByWithMap :: "'a list \<Rightarrow> ('a, 'k) callback \<Rightarrow> ('a, 'v) callback \<Rightarrow> ('k, 'v list) gomap" where
  "GroupByWithMap data fieldFilter mapper = GroupByWithMap_loop data fieldFilter mapper []"

section \<open>Batches\<close>

fun batch_loop :: "go_int \<Rightarrow> 'a list \<Rightarrow> 'a list \<Rightarrow> 'a list list \<Rightarrow> 'a list \<times> 'a list list" where
  "batch_loop itemsPerBatch [] curBatch batches = (curBatch, batches)"
| "batch_loop itemsPerBatch (x # arr) curBatch batches =
     (let curBatch = curBatch @ [x]
      in if int (length curBatch) < sint itemsPerBatch
         then batch_loop itemsPerBatch arr curBatch batches
         else batch_loop itemsPerBatch arr [] (batches @ [curBatch]))"

definition SplitIntoBatches :: "'a list \<Rightarrow> go_int \<Rightarrow> 'a list list" where
  "SplitIntoBatches arr itemsPerBatch =
     (if arr = [] then []
      else let (curBatch, batches) = batch_loop itemsPerBatch arr [] []
           in if length curBatch > 0 then batches @ [curBatch] else batches)"

section \<open>Duplicates and order\<close>

definition Deduplication :: "('a list \<Rightarrow> 'a list) \<Rightarrow> 'a list \<Rightarrow> 'a list" where
  "Deduplication ord arr =
     (let tmp = foldl (\<lambda>tmp v. AList.update v () tmp) [] arr
      in foldl (\<lambda>newSlice k. newSlice @ [k]) [] (ord (map fst tmp)))"

definition swap :: "nat \<Rightarrow> nat \<Rightarrow> 'a list \<Rightarrow> 'a list" where
  "swap i j arr = arr[i := arr ! j, j := arr ! i]"

text \<open>
  \<^verbatim>\<open>rand.Rand.Shuffle\<close>: for \<open>i\<close> from the last index down to 1, swap with index \<open>rnd i\<close>, a
  random number from 0 to \<open>i\<close>.
\<close>

fun rand_Shuffle :: "(nat \<Rightarrow> nat) \<Rightarrow> nat \<Rightarrow> 'a list \<Rightarrow> 'a list" where
  "rand_Shuffle rnd 0 arr = arr"
| "rand_Shuffle rnd (Suc i) arr = rand_Shuffle rnd i (swap (Suc i) (rnd (Suc i)) arr)"

definition Shuffle :: "(nat \<Rightarrow> nat) \<Rightarrow> 'a list \<Rightarrow> 'a list" where
  "Shuffle rnd arr = (if length arr = 0 then arr else rand_Shuffle rnd (length arr - 1) arr)"

text \<open>The copy and the slice it was made from, after the call.\<close>

definition ShuffleCopy :: "(nat \<Rightarrow> nat) \<Rightarrow> 'a list \<Rightarrow> 'a list \<times> 'a list" where
  "ShuffleCopy rnd arr =
     (if length arr = 0 then ([], arr)
      else let target = arr in (rand_Shuffle rnd (length target - 1) target, arr))"

section \<open>Lemmas\<close>

lemma reading_simps [simp]: "fst (reading p v) = p v" "reading p v = (p v, v)"
  by (simp_all add: reading_def)

lemma reading_comp [simp]: "fst \<circ> reading p = p" "snd \<circ> reading p = id" "fst \<circ> (fst \<circ> reading h) = fst \<circ> h"
    "snd \<circ> (fst \<circ> reading h) = snd \<circ> h"
  by (auto simp: reading_def)

lemma Filter_loop_eq: "Filter_loop data f out = out @ map (snd \<circ> f) (filter (fst \<circ> f) data)"
  by (induction data arbitrary: out) (auto split: prod.splits)

lemma Map_loop_eq: "Map_loop data f out = out @ map (fst \<circ> (fst \<circ> f)) (filter (snd \<circ> (fst \<circ> f)) data)"
  by (induction data arbitrary: out) (auto split: prod.splits)

lemma Count_loop_eq: "Count_loop data f n = n + of_nat (length (filter (fst \<circ> f) data))"
  by (induction data arbitrary: n) auto

lemma First_reading: "First data (reading p) = find p data"
  by (induction data) auto

lemma FirstOrDefault_reading:
  "FirstOrDefault data (reading p) d = (case find p data of None \<Rightarrow> d | Some v \<Rightarrow> v)"
  by (induction data) auto

lemma Any_reading: "Any data (reading p) = list_ex p data"
  by (induction data) auto

lemma All_reading: "All_slice data (reading p) = list_all p data"
  by (induction data) auto

lemma read_slice_Nil: "read_slice [] k = []"
  by (simp add: read_slice_def)

lemma read_append_to: "read_slice (append_to k v m) k' = (if k' = k then read_slice m k @ [v] else read_slice m k')"
  by (auto simp: read_slice_def append_to_def update_conv' Let_def)

lemma append_to_keys: "fst ` set (append_to k v m) = insert k (fst ` set m)"
  by (simp add: append_to_def Let_def gomap_simps)

lemma append_to_wf: "gomap_wf m \<Longrightarrow> gomap_wf (append_to k v m)"
  by (simp add: append_to_def Let_def gomap_simps)

lemma GroupByWithMap_loop_eq:
  "read_slice (GroupByWithMap_loop data (reading key) (reading g) m) k =
     read_slice m k @ map g (filter (\<lambda>v. key v = k) data) \<and>
   fst ` set (GroupByWithMap_loop data (reading key) (reading g) m) = fst ` set m \<union> key ` set data \<and>
   (gomap_wf m \<longrightarrow> gomap_wf (GroupByWithMap_loop data (reading key) (reading g) m))"
proof (induction data arbitrary: m)
  case (Cons v data)
  show ?case using Cons.IH [of "append_to (key v) (g v) m"]
    by (auto simp: read_append_to append_to_keys append_to_wf)
qed simp

lemma GroupBy_as_map: "GroupBy_loop data (reading key) m = GroupByWithMap_loop data (reading key) (reading (\<lambda>v. v)) m"
  by (induction data arbitrary: m) auto

lemma swap_length [simp]: "length (swap i j arr) = length arr"
  by (simp add: swap_def)

lemma swap_mset: "i < length arr \<Longrightarrow> j < length arr \<Longrightarrow> mset (swap i j arr) = mset arr"
  by (simp add: swap_def mset_swap)

lemma rand_Shuffle_mset:
  "\<forall>i. rnd i \<le> i \<Longrightarrow> n < length arr \<Longrightarrow> mset (rand_Shuffle rnd n arr) = mset arr"
proof (induction n arbitrary: arr)
  case (Suc n)
  have "rnd (Suc n) < length arr" using Suc.prems by (meson le_less_trans)
  then show ?case using Suc.IH [of "swap (Suc n) (rnd (Suc n)) arr"] Suc.prems by (simp add: swap_mset)
qed simp

lemma snoc_loop_eq: "foldl (\<lambda>out k. out @ [k]) out ks = out @ ks"
  by (induction ks arbitrary: out) auto

lemma dedup_loop:
  "fst ` set (foldl (\<lambda>tmp v. AList.update v () tmp) m arr) = fst ` set m \<union> set arr \<and>
   (gomap_wf m \<longrightarrow> gomap_wf (foldl (\<lambda>tmp v. AList.update v () tmp) m arr))"
  by (induction arr arbitrary: m) (auto simp: gomap_simps)

lemma batch_loop_full:
  assumes k: "k = nat (max 1 (sint n))"
  shows "\<lbrakk>\<forall>b \<in> set batches. length b = k; length cur < k; batch_loop n arr cur batches = (cur', batches')\<rbrakk> \<Longrightarrow>
    (\<forall>b \<in> set batches'. length b = k) \<and> length cur' < k \<and> concat batches' @ cur' = concat batches @ cur @ arr"
proof (induction arr arbitrary: cur batches)
  case (Cons x arr)
  show ?case
  proof (cases "int (length (cur @ [x])) < sint n")
    case True
    have "length (cur @ [x]) < k" using True unfolding k by linarith
    moreover have "batch_loop n arr (cur @ [x]) batches = (cur', batches')"
      using Cons.prems(3) True by (simp only: batch_loop.simps Let_def if_True)
    ultimately show ?thesis using Cons.IH [OF Cons.prems(1)] by fastforce
  next
    case False
    have "length (cur @ [x]) = k" "0 < k" using False Cons.prems(2) unfolding k by auto
    moreover have "batch_loop n arr [] (batches @ [cur @ [x]]) = (cur', batches')"
      using Cons.prems(3) False by (simp only: batch_loop.simps Let_def if_False)
    ultimately show ?thesis using Cons.IH [of "batches @ [cur @ [x]]" "[]"] Cons.prems(1) by fastforce
  qed
qed simp

section \<open>Properties\<close>

text \<open>
  C37: with callbacks that only read, the slice functions are the list functions they are named after:
  searching, selecting, mapping, the two quantifiers and counting (modulo \<open>2 ^ 64\<close>); a group of
  \<^verbatim>\<open>GroupBy\<close> holds the elements with that field in their order, and the fields that occur are
  the keys.
\<close>

theorem slice_functions_correct:
  "First data (reading p) = find p data \<and>
   FirstOrDefault data (reading p) d = (case find p data of None \<Rightarrow> d | Some v \<Rightarrow> v) \<and>
   Filter data (reading p) = filter p data \<and>
   Map data (reading h) = map (fst \<circ> h) (filter (snd \<circ> h) data) \<and>
   Any data (reading p) = list_ex p data \<and> All_slice data (reading p) = list_all p data \<and>
   Count data (reading p) = of_nat (length (filter p data)) \<and>
   read_slice (GroupBy data (reading key)) k = filter (\<lambda>v. key v = k) data \<and>
   fst ` set (GroupBy data (reading key)) = key ` set data \<and>
   read_slice (GroupByWithMap data (reading key) (reading g)) k = map g (filter (\<lambda>v. key v = k) data)"
  using GroupByWithMap_loop_eq [of data key "\<lambda>v. v" "[]" k] GroupByWithMap_loop_eq [of data key g "[]" k]
  by (simp add: First_reading FirstOrDefault_reading Filter_def Filter_loop_eq Map_def Map_loop_eq Any_reading
      All_reading Count_def Count_loop_eq GroupBy_def GroupBy_as_map GroupByWithMap_def read_slice_Nil)

text \<open>
  C38: \<^verbatim>\<open>SplitIntoBatches\<close> cuts a slice into consecutive pieces: put together again they are the
  slice, no batch is empty, all have the wanted size but the last, which is not larger. A size
  of zero or less counts as one.
\<close>

theorem batches_partition_slice:
  "concat (SplitIntoBatches arr n) = arr \<and>
   (\<forall>b \<in> set (SplitIntoBatches arr n). b \<noteq> [] \<and> length b \<le> nat (max 1 (sint n))) \<and>
   (\<forall>b \<in> set (butlast (SplitIntoBatches arr n)). length b = nat (max 1 (sint n)))"
proof (cases "arr = []")
  case True
  then show ?thesis by (simp add: SplitIntoBatches_def)
next
  case False
  let ?k = "nat (max 1 (sint n))"
  obtain cur bs where r: "batch_loop n arr [] [] = (cur, bs)" by (cases "batch_loop n arr [] []")
  from batch_loop_full [OF refl _ _ this]
  have full: "\<forall>b \<in> set bs. length b = ?k" and cur: "length cur < ?k" and cat: "concat bs @ cur = arr"
    by auto
  have "SplitIntoBatches arr n = (if cur = [] then bs else bs @ [cur])"
    using False r by (simp add: SplitIntoBatches_def)
  moreover have "b \<noteq> []" if "b \<in> set bs" for b using full that by (cases b) auto
  moreover have "\<forall>b \<in> set (butlast bs). length b = ?k" using full by (auto dest: in_set_butlastD)
  ultimately show ?thesis using full cur cat by (auto simp: butlast_append)
qed

theorem batches_partition_slice_witness:
  "SplitIntoBatches [1, 2, 3, 4, 5 :: nat] 2 = [[1, 2], [3, 4], [5]] \<and>
   concat (SplitIntoBatches [1, 2, 3, 4, 5 :: nat] 2) = [1, 2, 3, 4, 5]"
  using batches_partition_slice [of "[1, 2, 3, 4, 5 :: nat]" 2] by (simp add: SplitIntoBatches_def)

text \<open>
  \<^verbatim>\<open>Shuffle\<close> permutes the slice, whatever the random numbers; \<^verbatim>\<open>ShuffleCopy\<close> returns a permutation
  and leaves the slice as it was; \<^verbatim>\<open>Deduplication\<close> returns each element once, in some order.
\<close>

lemma shuffle_and_dedup:
  assumes "\<forall>i. rnd i \<le> i" and "iteration_order ord"
  shows "mset (Shuffle rnd arr) = mset arr \<and>
    mset (fst (ShuffleCopy rnd arr)) = mset arr \<and> snd (ShuffleCopy rnd arr) = arr \<and>
    set (Deduplication ord arr) = set arr \<and> distinct (Deduplication ord arr)"
proof -
  have d: "Deduplication ord arr = ord (map fst (foldl (\<lambda>tmp v. AList.update v () tmp) [] arr))"
    by (simp add: Deduplication_def snoc_loop_eq)
  have "set (Deduplication ord arr) = set arr \<and> distinct (Deduplication ord arr)"
    using dedup_loop [of "[]" arr]
    by (simp add: d iteration_order_set [OF assms(2)] iteration_order_distinct [OF assms(2)] gomap_wf_def)
  then show ?thesis
    using rand_Shuffle_mset [OF assms(1), of "length arr - 1" arr]
    by (cases "arr = []") (simp_all add: Shuffle_def ShuffleCopy_def)
qed

end
