(* ===== verification/Texts.thy ===== *)
theory Texts
  imports Niu_Prelude
begin

text \<open>
  The string functions of \<^verbatim>\<open>strs.go\<close> and \<^verbatim>\<open>uuid.go\<close>, with what they use of \<^verbatim>\<open>strconv\<close>,
  \<^verbatim>\<open>strings\<close> and \<^verbatim>\<open>unicode/utf8\<close>. A Go string is a sequence of bytes, as \<^typ>\<open>string\<close> is.
\<close>

section \<open>Decimal numbers\<close>

definition digit :: "nat \<Rightarrow> char" where
  "digit d = char_of (48 + d)"

function decimal :: "nat \<Rightarrow> string" where
  "decimal n = (if n < 10 then [digit n] else decimal (n div 10) @ [digit (n mod 10)])"
  by pat_completeness auto
termination
  by (relation "measure id") auto

declare decimal.simps [simp del]

definition Itoa :: "go_int \<Rightarrow> string" where
  "Itoa i = (if sint i < 0 then CHR ''-'' # decimal (nat (- sint i)) else decimal (nat (sint i)))"

definition is_digit :: "char \<Rightarrow> bool" where
  "is_digit c \<longleftrightarrow> 48 \<le> (of_char c :: nat) \<and> of_char c \<le> (57 :: nat)"

definition digits_value :: "string \<Rightarrow> nat" where
  "digits_value s = foldl (\<lambda>n c. 10 * n + (of_char c - 48)) 0 s"

text \<open>\<^verbatim>\<open>strconv.Atoi\<close>: an optional sign, then at least one digit; 64 bits.\<close>

definition Atoi :: "string \<Rightarrow> go_error + go_int" where
  "Atoi s =
     (let (neg, ds) = (case s of
            [] \<Rightarrow> (False, [])
          | c # cs \<Rightarrow> if c = CHR ''-'' then (True, cs) else if c = CHR ''+'' then (False, cs) else (False, s))
      in if ds = [] \<or> \<not> list_all is_digit ds then Inl (Err ''invalid syntax'')
         else if neg then (if digits_value ds \<le> 2 ^ 63 then Inr (word_of_int (- int (digits_value ds)))
                           else Inl (Err ''value out of range''))
         else if digits_value ds < 2 ^ 63 then Inr (of_nat (digits_value ds))
         else Inl (Err ''value out of range''))"

lemma digit_simps: "d < 10 \<Longrightarrow> is_digit (digit d) \<and> of_char (digit d) - 48 = d"
  by (simp add: digit_def is_digit_def of_char_of)

lemma decimal_digits: "list_all is_digit (decimal n) \<and> decimal n \<noteq> [] \<and> digits_value (decimal n) = n"
proof (induction n rule: decimal.induct)
  case (1 n)
  show ?case
  proof (cases "n < 10")
    case True
    then show ?thesis using digit_simps [of n] by (simp add: decimal.simps [of n] digits_value_def)
  next
    case False
    then show ?thesis
      using 1 digit_simps [of "n mod 10"] by (simp add: decimal.simps [of n] digits_value_def)
  qed
qed

lemma decimal_Cons: "\<exists>c cs. decimal n = c # cs \<and> is_digit c"
  using decimal_digits [of n] by (cases "decimal n") auto

lemma sint_range: "- (2 ^ 63) \<le> sint (i :: go_int)" "sint (i :: go_int) < 2 ^ 63"
  using sint_greater_eq [of i] sint_less [of i] by simp_all

lemma Atoi_Itoa: "Atoi (Itoa i) = Inr i"
proof (cases "sint i < 0")
  case True
  then show ?thesis
    using decimal_digits [of "nat (- sint i)"] sint_range [of i]
    by (auto simp: Atoi_def Itoa_def Let_def)
next
  case False
  obtain c cs where d: "decimal (nat (sint i)) = c # cs" "is_digit c" using decimal_Cons by blast
  then have "c \<noteq> CHR ''-''" "c \<noteq> CHR ''+''" by (auto simp: is_digit_def)
  then show ?thesis
    using False d(1) decimal_digits [of "nat (sint i)"] sint_range [of i]
    by (auto simp: Atoi_def Itoa_def Let_def)
qed

section \<open>Padding and masking\<close>

definition Repeat :: "string \<Rightarrow> nat \<Rightarrow> string" where
  "Repeat s n = concat (replicate n s)"

definition PadLeft :: "string \<Rightarrow> go_int \<Rightarrow> string \<Rightarrow> string" where
  "PadLeft val fixLen char =
     (let valLen = int (length val)
      in if valLen \<ge> sint fixLen then val else Repeat char (nat (sint fixLen - valLen)) @ val)"

definition PadLeftInt :: "go_int \<Rightarrow> go_int \<Rightarrow> string \<Rightarrow> string" where
  "PadLeftInt num fixLen char =
     (let val = Itoa num; valLen = int (length val)
      in if valLen \<ge> sint fixLen then val else Repeat char (nat (sint fixLen - valLen)) @ val)"

definition PadRight :: "string \<Rightarrow> go_int \<Rightarrow> string \<Rightarrow> string" where
  "PadRight val fixLen char =
     (let valLen = int (length val)
      in if valLen \<ge> sint fixLen then val else val @ Repeat char (nat (sint fixLen - valLen)))"

definition PadRightInt :: "go_int \<Rightarrow> go_int \<Rightarrow> string \<Rightarrow> string" where
  "PadRightInt num fixLen char =
     (let val = Itoa num; valLen = int (length val)
      in if valLen \<ge> sint fixLen then val else val @ Repeat char (nat (sint fixLen - valLen)))"

text \<open>Slicing a string beyond its end panics.\<close>

definition MaskPhone :: "string \<Rightarrow> string outcome" where
  "MaskPhone phone =
     (if length phone < 3 then Panic ''slice bounds out of range''
      else if length phone < 7 then Panic ''slice bounds out of range''
      else Ret (take 3 phone @ ''****'' @ drop 7 phone))"

lemma Repeat_length: "length (Repeat s n) = n * length s"
  by (induction n) (simp_all add: Repeat_def)

section \<open>Runes\<close>

text \<open>
  \<^verbatim>\<open>utf8.DecodeRuneInString\<close>: how many bytes the first rune takes. Bytes that are not
  well-formed UTF-8 count as one rune each.
\<close>

definition continues :: "nat \<Rightarrow> nat \<Rightarrow> char \<Rightarrow> bool" where
  "continues lo hi c \<longleftrightarrow> lo \<le> (of_char c :: nat) \<and> of_char c \<le> hi"

definition second_range :: "nat \<Rightarrow> nat \<times> nat" where
  "second_range b = (if b = 0xE0 then (0xA0, 0xBF) else if b = 0xED then (0x80, 0x9F)
     else if b = 0xF0 then (0x90, 0xBF) else if b = 0xF4 then (0x80, 0x8F) else (0x80, 0xBF))"

definition rune_size :: "nat \<Rightarrow> nat" where
  "rune_size b = (if b < 0xC2 then 1 else if b < 0xE0 then 2 else if b < 0xF0 then 3
     else if b < 0xF5 then 4 else 1)"

definition rune_width :: "char \<Rightarrow> string \<Rightarrow> nat" where
  "rune_width c cs =
     (let b = of_char c; n = rune_size b; (lo, hi) = second_range b; rest = take (n - 1) cs
      in if length rest = n - 1 \<and> (rest = [] \<or> continues lo hi (hd rest)) \<and> list_all (continues 0x80 0xBF) (tl rest)
         then n else 1)"

function runes :: "string \<Rightarrow> string list" where
  "runes [] = []"
| "runes (c # cs) = (c # take (rune_width c cs - 1) cs) # runes (drop (rune_width c cs - 1) cs)"
  by pat_completeness auto
termination
  by (relation "measure length") auto

definition RuneCountInString :: "string \<Rightarrow> go_int" where
  "RuneCountInString s = of_nat (length (runes s))"

lemma concat_runes: "concat (runes s) = s"
  by (induction s rule: runes.induct) simp_all

section \<open>Splitting\<close>

text \<open>\<^verbatim>\<open>strings.Index\<close>, and \<^verbatim>\<open>strings.SplitSeq\<close>: an empty separator splits into runes.\<close>

fun is_prefix :: "string \<Rightarrow> string \<Rightarrow> bool" where
  "is_prefix [] s = True"
| "is_prefix (p # ps) [] = False"
| "is_prefix (p # ps) (c # cs) = (p = c \<and> is_prefix ps cs)"

fun Index :: "string \<Rightarrow> string \<Rightarrow> nat option" where
  "Index [] sep = (if is_prefix sep [] then Some 0 else None)"
| "Index (c # cs) sep = (if is_prefix sep (c # cs) then Some 0 else map_option Suc (Index cs sep))"

lemma Index_le: "Index s sep = Some i \<Longrightarrow> i \<le> length s"
  by (induction s arbitrary: i) (auto split: if_splits)

lemma Index_Nil: "sep \<noteq> [] \<Longrightarrow> Index [] sep = None"
  by (cases sep) auto

function cut_all :: "string \<Rightarrow> string \<Rightarrow> string list" where
  "cut_all s sep =
     (if sep = [] then [s]
      else case Index s sep of
             None \<Rightarrow> [s]
           | Some i \<Rightarrow> take i s # cut_all (drop (i + length sep) s) sep)"
  by pat_completeness auto
termination
proof (relation "measure (length \<circ> fst)")
  fix s sep :: string and i
  assume "sep \<noteq> []" and "Index s sep = Some i"
  then show "((drop (i + length sep) s, sep), s, sep) \<in> measure (length \<circ> fst)"
    using Index_Nil [of sep] by (cases "s = []") auto
qed simp

declare cut_all.simps [simp del]

definition SplitSeq :: "string \<Rightarrow> string \<Rightarrow> string list" where
  "SplitSeq s sep = (if sep = [] then runes s else cut_all s sep)"

definition trim :: "('a \<Rightarrow> bool) \<Rightarrow> 'a list \<Rightarrow> 'a list" where
  "trim P v = rev (dropWhile P (rev (dropWhile P v)))"

definition Trim_space :: "string \<Rightarrow> string" where
  "Trim_space = trim (\<lambda>c. c = CHR '' '')"

fun items_loop :: "string list \<Rightarrow> string list \<Rightarrow> string list" where
  "items_loop [] items = items"
| "items_loop (v # spl) items =
     (let val = Trim_space v in items_loop spl (if length val > 0 then items @ [val] else items))"

definition SplitJoinedItems :: "string \<Rightarrow> string list \<Rightarrow> string list" where
  "SplitJoinedItems joinedStr sep =
     (if length joinedStr \<le> 0 then []
      else let sepStr = (case sep of [] \<Rightarrow> '','' | p # _ \<Rightarrow> p)
           in items_loop (SplitSeq joinedStr sepStr) [])"

definition SplitCommaString :: "string \<Rightarrow> string list" where
  "SplitCommaString str = SplitJoinedItems str ['','']"

section \<open>UUIDs\<close>

text \<open>\<open>uid\<close> is what \<^verbatim>\<open>uuid.New().String()\<close> gave.\<close>

fun join :: "string \<Rightarrow> string list \<Rightarrow> string" where
  "join sep [] = []"
| "join sep [x] = x"
| "join sep (x # y # ys) = x @ sep @ join sep (y # ys)"

definition ReplaceAll :: "string \<Rightarrow> string \<Rightarrow> string \<Rightarrow> string" where
  "ReplaceAll s old new = join new (cut_all s old)"

definition NewUUID :: "string \<Rightarrow> string" where
  "NewUUID uid = uid"

definition NewUUIDWithoutDash :: "string \<Rightarrow> string" where
  "NewUUIDWithoutDash uid = ReplaceAll uid ''-'' []"

section \<open>Lemmas\<close>

lemma cut_all_single:
  "cut_all (xs @ c # ys) [c] = xs # cut_all ys [c]" if "c \<notin> set xs"
proof -
  have "Index (xs @ c # ys) [c] = Some (length xs)" using that by (induction xs) auto
  then show ?thesis by (subst cut_all.simps) simp
qed

lemma cut_all_none: "c \<notin> set xs \<Longrightarrow> cut_all xs [c] = [xs]"
proof -
  assume "c \<notin> set xs"
  then have "Index xs [c] = None" by (induction xs) auto
  then show ?thesis by (subst cut_all.simps) simp
qed

lemma cut_all_join:
  "items \<noteq> [] \<Longrightarrow> \<forall>x \<in> set items. c \<notin> set x \<Longrightarrow> cut_all (join [c] items) [c] = items"
proof (induction "[c]" items rule: join.induct)
  case (3 x y ys)
  then show ?case using cut_all_single [of c x "join [c] (y # ys)"] by simp
qed (simp_all add: cut_all_none)

lemma cut_all_pieces: "x \<in> set (cut_all s [c]) \<Longrightarrow> c \<notin> set x"
proof (induction s "[c]" rule: cut_all.induct)
  case (1 s)
  have pre: "c \<notin> set (take i s)" if "Index s [c] = Some i" for i
    using that by (induction s arbitrary: i) (auto split: if_splits)
  have none: "c \<notin> set s" if "Index s [c] = None"
    using that by (induction s) (auto split: if_splits)
  from 1 pre none show ?case by (subst (asm) (2) cut_all.simps) (auto split: option.splits)
qed

lemma items_loop_eq: "items_loop spl items = items @ filter (\<lambda>v. v \<noteq> []) (map Trim_space spl)"
  by (induction spl arbitrary: items) auto

lemma trim_id: "v \<noteq> [] \<Longrightarrow> \<not> P (hd v) \<Longrightarrow> \<not> P (last v) \<Longrightarrow> trim P v = v"
proof -
  assume v: "v \<noteq> []" "\<not> P (hd v)" "\<not> P (last v)"
  have "dropWhile P v = v" using v by (simp add: dropWhile_eq_self_iff)
  moreover have "dropWhile P (rev v) = rev v" using v by (simp add: dropWhile_eq_self_iff hd_rev)
  ultimately show ?thesis by (simp add: trim_def)
qed

lemma trim_ends:
  assumes "trim P v \<noteq> []"
  shows "\<not> P (hd (trim P v)) \<and> \<not> P (last (trim P v))"
proof -
  let ?w = "dropWhile P v"
  have ne: "dropWhile P (rev ?w) \<noteq> []" using assms by (simp add: trim_def)
  then have w: "?w \<noteq> []" by (cases ?w) simp_all
  have "\<not> P (hd (dropWhile P (rev ?w)))" using ne by (rule hd_dropWhile)
  moreover have "\<not> P (hd ?w)" using w by (rule hd_dropWhile)
  moreover have "last (dropWhile P (rev ?w)) = last (rev ?w)"
    using ne by (metis last_appendR takeWhile_dropWhile_id)
  ultimately show ?thesis using ne w by (simp add: trim_def hd_rev last_rev)
qed

lemma set_trim: "set (trim P v) \<subseteq> set v"
proof
  fix x assume "x \<in> set (trim P v)"
  then have "x \<in> set (dropWhile P v)" using set_dropWhileD [of x P "rev (dropWhile P v)"] by (simp add: trim_def)
  then show "x \<in> set v" by (auto dest: set_dropWhileD)
qed

definition trimmed :: "string \<Rightarrow> bool" where
  "trimmed v \<longleftrightarrow> v \<noteq> [] \<and> hd v \<noteq> CHR '' '' \<and> last v \<noteq> CHR '' ''"

lemma Trim_trimmed: "trimmed v \<Longrightarrow> Trim_space v = v"
  by (simp add: trimmed_def Trim_space_def trim_id)

lemma trimmed_Trim: "Trim_space v \<noteq> [] \<Longrightarrow> trimmed (Trim_space v)"
  using trim_ends [of "\<lambda>c. c = CHR '' ''" v] by (simp add: trimmed_def Trim_space_def)

lemma join_Nil_eq: "join [] xs = concat xs"
  by (induction "[] :: string" xs rule: join.induct) auto

lemma concat_cut_all: "concat (cut_all s [c]) = filter (\<lambda>x. x \<noteq> c) s"
proof (induction s "[c]" rule: cut_all.induct)
  case (1 s)
  show ?case
  proof (cases "Index s [c]")
    case None
    then have "c \<notin> set s" by (induction s) (auto split: if_splits)
    then have "filter (\<lambda>x. x \<noteq> c) s = s" by (auto simp: filter_id_conv)
    then show ?thesis using \<open>c \<notin> set s\<close> by (simp add: cut_all_none)
  next
    case (Some i)
    then have "c \<notin> set (take i s) \<and> s = take i s @ c # drop (Suc i) s"
      by (induction s arbitrary: i) (auto split: if_splits)
    then have cut: "c \<notin> set (take i s)" and s: "s = take i s @ c # drop (Suc i) s" by auto
    have "filter (\<lambda>x. x \<noteq> c) (take i s) = take i s" using cut by (auto simp: filter_id_conv)
    then have "filter (\<lambda>x. x \<noteq> c) s = take i s @ filter (\<lambda>x. x \<noteq> c) (drop (Suc i) s)"
      by (subst s) simp
    moreover have "cut_all s [c] = take i s # cut_all (drop (Suc i) s) [c]" using Some by (subst cut_all.simps) simp
    moreover have "concat (cut_all (drop (Suc i) s) [c]) = filter (\<lambda>x. x \<noteq> c) (drop (Suc i) s)"
      using 1 [OF _ Some] by simp
    ultimately show ?thesis by simp
  qed
qed

section \<open>Properties\<close>



text \<open>
  Numbers survive their decimal text, for all 64-bit integers. With a pad of one byte the padded
  text has at least the wanted length, exactly it when the value is shorter, and the value at its end
  (or beginning). \<^verbatim>\<open>MaskPhone\<close> hides bytes 4 to 7 and keeps the length; fewer than 7 bytes panic.
\<close>

lemma number_and_pad_texts:
  "Atoi (Itoa i) = Inr i \<and>
   length (PadLeft val n [c]) = max (length val) (nat (sint n)) \<and>
   length (PadRight val n [c]) = max (length val) (nat (sint n)) \<and>
   drop (length (PadLeft val n [c]) - length val) (PadLeft val n [c]) = val \<and>
   take (length val) (PadRight val n [c]) = val \<and>
   PadLeftInt i n pad = PadLeft (Itoa i) n pad \<and> PadRightInt i n pad = PadRight (Itoa i) n pad \<and>
   MaskPhone val = (if length val < 7 then Panic ''slice bounds out of range''
     else Ret (take 3 val @ ''****'' @ drop 7 val))"
  by (auto simp: Atoi_Itoa PadLeft_def PadRight_def PadLeftInt_def PadRightInt_def MaskPhone_def Let_def
      Repeat_length max_def)

lemma NewUUIDWithoutDash_eq: "NewUUIDWithoutDash uid = filter (\<lambda>c. c \<noteq> CHR ''-'') uid"
  by (simp add: NewUUIDWithoutDash_def ReplaceAll_def join_Nil_eq concat_cut_all)

end
