(* ===== verification/Validation.thy ===== *)
theory Validation
  imports Texts
begin

text \<open>
  The checks of \<^verbatim>\<open>strs_validation.go\<close> and the platform codes of \<^verbatim>\<open>platform.go\<close>. Regular
  expressions of \<^verbatim>\<open>regexp\<close> are terms, matched by derivatives. All classes in use are ASCII, so
  matching bytes is matching runes.
\<close>

section \<open>Regular expressions\<close>

datatype re = Fail | Blank | Cls "char \<Rightarrow> bool" | Cat re re | Or re re | Many re

fun nullable :: "re \<Rightarrow> bool" where
  "nullable Fail = False"
| "nullable Blank = True"
| "nullable (Cls P) = False"
| "nullable (Cat r q) = (nullable r \<and> nullable q)"
| "nullable (Or r q) = (nullable r \<or> nullable q)"
| "nullable (Many r) = True"

fun after :: "char \<Rightarrow> re \<Rightarrow> re" where
  "after c Fail = Fail"
| "after c Blank = Fail"
| "after c (Cls P) = (if P c then Blank else Fail)"
| "after c (Cat r q) = Or (Cat (after c r) q) (if nullable r then after c q else Fail)"
| "after c (Or r q) = Or (after c r) (after c q)"
| "after c (Many r) = Cat (after c r) (Many r)"

fun matches :: "re \<Rightarrow> string \<Rightarrow> bool" where
  "matches r [] = nullable r"
| "matches r (c # cs) = matches (after c r) cs"

text \<open>An expression without anchors is searched for anywhere in the text.\<close>

definition found_in :: "re \<Rightarrow> string \<Rightarrow> bool" where
  "found_in r s = matches (Cat (Many (Cls (\<lambda>_. True))) (Cat r (Many (Cls (\<lambda>_. True))))) s"

text \<open>The operators \<^verbatim>\<open>+\<close>, \<^verbatim>\<open>?\<close>, \<^verbatim>\<open>{n}\<close>, \<^verbatim>\<open>{n,m}\<close> and literal text.\<close>

definition plus1 :: "re \<Rightarrow> re" where
  "plus1 r = Cat r (Many r)"

definition optional :: "re \<Rightarrow> re" where
  "optional r = Or r Blank"

fun rep :: "nat \<Rightarrow> re \<Rightarrow> re" where
  "rep 0 r = Blank"
| "rep (Suc n) r = Cat r (rep n r)"

definition between :: "nat \<Rightarrow> nat \<Rightarrow> re \<Rightarrow> re" where
  "between n m r = Cat (rep n r) (rep (m - n) (optional r))"

definition chr :: "char \<Rightarrow> re" where
  "chr c = Cls (\<lambda>x. x = c)"

fun lit :: "string \<Rightarrow> re" where
  "lit [] = Blank"
| "lit (c # cs) = Cat (chr c) (lit cs)"

fun seq :: "re list \<Rightarrow> re" where
  "seq [] = Blank"
| "seq (r # rs) = Cat r (seq rs)"

definition in_range :: "char \<Rightarrow> char \<Rightarrow> char \<Rightarrow> bool" where
  "in_range lo hi c \<longleftrightarrow> (of_char lo :: nat) \<le> of_char c \<and> (of_char c :: nat) \<le> of_char hi"

definition letter :: "char \<Rightarrow> bool" where
  "letter c \<longleftrightarrow> in_range CHR ''a'' CHR ''z'' c \<or> in_range CHR ''A'' CHR ''Z'' c"

definition word_char :: "char \<Rightarrow> bool" where
  "word_char c \<longleftrightarrow> letter c \<or> is_digit c \<or> c = CHR ''_''"

definition hex_char :: "char \<Rightarrow> bool" where
  "hex_char c \<longleftrightarrow> in_range CHR ''a'' CHR ''f'' c \<or> in_range CHR ''A'' CHR ''F'' c \<or> is_digit c"

definition cellphoneRegex :: re where
  "cellphoneRegex = seq [chr CHR ''1'', rep 1 (Cls (\<lambda>c. List.member ''345789'' c)), rep 9 (Cls is_digit)]"

definition telephoneRegex :: re where
  "telephoneRegex = Cat (optional (Cat (between 3 4 (Cls is_digit)) (chr CHR ''-''))) (between 6 8 (Cls is_digit))"

definition urlRegex :: re where
  "urlRegex = seq [Or (lit ''http'') (Or (lit ''ftp'') (lit ''https'')), lit ''://'',
     Or (seq [plus1 (Cls (\<lambda>c. letter c \<or> is_digit c \<or> List.member ''._-'' c)), chr CHR ''.'', between 2 6 (Cls letter)])
        (seq [between 1 3 (Cls is_digit), chr CHR ''.'', between 1 3 (Cls is_digit), chr CHR ''.'',
              between 1 3 (Cls is_digit), chr CHR ''.'', between 1 3 (Cls is_digit)]),
     Many (Cat (chr CHR '':'') (between 1 4 (Cls is_digit))),
     optional (Cat (chr CHR ''/'') (Many (Cls (\<lambda>c. letter c \<or> is_digit c \<or> List.member ''&%_.-'' c \<or>
       in_range CHR ''/'' CHR ''~'' c))))]"

definition emailRegex :: re where
  "emailRegex = seq [plus1 (Cls word_char), Many (Cat (Cls (\<lambda>c. List.member ''-+.'' c)) (plus1 (Cls word_char))),
     chr CHR ''@'', plus1 (Cls word_char), Many (Cat (Cls (\<lambda>c. List.member ''-.'' c)) (plus1 (Cls word_char))),
     chr CHR ''.'', plus1 (Cls word_char), Many (Cat (Cls (\<lambda>c. List.member ''-.'' c)) (plus1 (Cls word_char)))]"

definition colorRegex :: re where
  "colorRegex = Cat (chr CHR ''#'') (rep 8 (Cls hex_char))"

definition numberRegex :: re where
  "numberRegex = Many (Cls is_digit)"

section \<open>The checks\<close>

definition IsFixedLengthInt :: "string \<Rightarrow> go_int \<Rightarrow> bool" where
  "IsFixedLengthInt value len =
     (if RuneCountInString value \<noteq> len then False
      else case Atoi value of Inl _ \<Rightarrow> False | Inr _ \<Rightarrow> True)"

definition IsLengthInRange :: "string \<Rightarrow> go_int \<Rightarrow> go_int \<Rightarrow> bool" where
  "IsLengthInRange value mn mx \<longleftrightarrow>
     (let l = RuneCountInString value in sint l \<ge> sint mn \<and> sint l \<le> sint mx)"

definition IsEmpty :: "string \<Rightarrow> bool" where
  "IsEmpty value \<longleftrightarrow> RuneCountInString value = 0"

definition IsCellPhone :: "string \<Rightarrow> bool" where
  "IsCellPhone value = matches cellphoneRegex value"

definition IsCountryCode :: "string \<Rightarrow> bool" where
  "IsCountryCode value =
     (if length value \<le> 0 \<or> length value > 4 \<or> Index value ''+'' \<noteq> None \<or> is_prefix ''0'' value then False
      else case Atoi value of Inl _ \<Rightarrow> False | Inr _ \<Rightarrow> True)"

definition IsTelephone :: "string \<Rightarrow> bool" where
  "IsTelephone value = matches telephoneRegex value"

definition IsUrl :: "string \<Rightarrow> bool \<Rightarrow> bool" where
  "IsUrl value allowEmpty =
     (if allowEmpty \<and> RuneCountInString value = 0 then True else found_in urlRegex value)"

definition IsEmail :: "string \<Rightarrow> bool" where
  "IsEmail value = matches emailRegex value"

definition IsColor :: "string \<Rightarrow> bool" where
  "IsColor value = matches colorRegex value"

definition IsNumber :: "string \<Rightarrow> bool" where
  "IsNumber value = matches numberRegex value"

section \<open>Platforms\<close>

definition Unspecify :: int8 where "Unspecify = 0"
definition Android :: int8 where "Android = 1"
definition AndroidPad :: int8 where "AndroidPad = 2"
definition IPhone :: int8 where "IPhone = 3"
definition Mac :: int8 where "Mac = 4"
definition IPad :: int8 where "IPad = 5"
definition Windows :: int8 where "Windows = 6"
definition Linux :: int8 where "Linux = 7"
definition Web :: int8 where "Web = 8"
definition Harmony :: int8 where "Harmony = 9"

definition Platforms :: "int8 list" where
  "Platforms = [Android, AndroidPad, IPhone, IPad, Mac, IPad, Windows, Linux, Web, Harmony]"

definition IsPlatformValid :: "int8 \<Rightarrow> bool" where
  "IsPlatformValid p = List.member Platforms p"

text \<open>The conversion \<^verbatim>\<open>Platform(p)\<close> keeps the low eight bits.\<close>

definition IsPlatformStringValid :: "string \<Rightarrow> bool" where
  "IsPlatformStringValid pstr =
     (if length pstr = 0 then False
      else case Atoi pstr of Inl _ \<Rightarrow> False | Inr p \<Rightarrow> List.member Platforms (ucast p))"

definition ParsePlatform :: "string \<Rightarrow> int8" where
  "ParsePlatform pstr =
     (if \<not> IsPlatformStringValid pstr then Unspecify
      else case Atoi pstr of Inl _ \<Rightarrow> Unspecify | Inr p \<Rightarrow> ucast p)"

lemmas platform_defs = Platforms_def Unspecify_def Android_def AndroidPad_def IPhone_def Mac_def IPad_def
  Windows_def Linux_def Web_def Harmony_def

section \<open>Matching\<close>

lemma matches_Fail [simp]: "\<not> matches Fail w"
  by (induction w) auto

lemma matches_Blank [simp]: "matches Blank w \<longleftrightarrow> w = []"
  by (cases w) auto

lemma matches_Or [simp]: "matches (Or r q) w \<longleftrightarrow> matches r w \<or> matches q w"
  by (induction w arbitrary: r q) auto

lemma matches_Cls: "matches (Cls P) w \<longleftrightarrow> (\<exists>c. w = [c] \<and> P c)"
  by (cases w) auto

lemma ex_split_Cons: "(\<exists>u v. c # w = u @ v \<and> P u v) \<longleftrightarrow> P [] (c # w) \<or> (\<exists>u v. w = u @ v \<and> P (c # u) v)"
  (is "?l \<longleftrightarrow> ?r")
proof
  assume ?l
  then obtain u v where "c # w = u @ v" "P u v" by blast
  then show ?r by (cases u) auto
next
  assume ?r
  then show ?l
  proof (elim disjE exE conjE)
    assume "P [] (c # w)"
    then show ?l by (intro exI [of _ "[]"] exI [of _ "c # w"]) simp
  next
    fix u v assume "w = u @ v" "P (c # u) v"
    then show ?l by (intro exI [of _ "c # u"] exI [of _ v]) simp
  qed
qed

lemma matches_Cat: "matches (Cat r q) w \<longleftrightarrow> (\<exists>u v. w = u @ v \<and> matches r u \<and> matches q v)"
proof (induction w arbitrary: r q)
  case (Cons c w)
  show ?case by (simp add: ex_split_Cons Cons) blast
qed auto

lemma matches_Cat_Cls: "matches (Cat (Cls P) r) w \<longleftrightarrow> (\<exists>c cs. w = c # cs \<and> P c \<and> matches r cs)"
  by (cases w) (auto simp: matches_Cat)

lemma matches_Many_Cls: "matches (Many (Cls P)) w \<longleftrightarrow> list_all P w"
proof (induction w)
  case (Cons c w)
  then show ?case by (auto simp: matches_Cat)
qed simp

lemma matches_rep: "matches (rep n (Cls P)) w \<longleftrightarrow> length w = n \<and> list_all P w"
proof (induction n arbitrary: w)
  case (Suc n)
  show ?case unfolding rep.simps matches_Cat_Cls Suc by (cases w) auto
qed auto

lemma matches_Cat_rep:
  "matches (Cat (rep n (Cls P)) r) w \<longleftrightarrow> n \<le> length w \<and> list_all P (take n w) \<and> matches r (drop n w)"
proof
  assume "n \<le> length w \<and> list_all P (take n w) \<and> matches r (drop n w)"
  then show "matches (Cat (rep n (Cls P)) r) w"
    unfolding matches_Cat matches_rep by (intro exI [of _ "take n w"] exI [of _ "drop n w"]) simp
qed (auto simp: matches_Cat matches_rep)

lemma matches_rep_optional: "matches (rep n (optional (Cls P))) w \<longleftrightarrow> length w \<le> n \<and> list_all P w"
proof (induction n arbitrary: w)
  case (Suc n)
  show ?case
  proof (cases w)
    case Nil
    then show ?thesis unfolding rep.simps matches_Cat Suc by (auto simp: optional_def)
  next
    case (Cons c cs)
    show ?thesis unfolding Cons rep.simps matches_Cat Suc ex_split_Cons
      by (auto simp: optional_def matches_Cls)
  qed
qed auto

lemma matches_between:
  "n \<le> m \<Longrightarrow> matches (between n m (Cls P)) w \<longleftrightarrow> n \<le> length w \<and> length w \<le> m \<and> list_all P w"
proof
  assume "n \<le> m" and "n \<le> length w \<and> length w \<le> m \<and> list_all P w"
  then show "matches (between n m (Cls P)) w"
    unfolding between_def matches_Cat matches_rep matches_rep_optional
    by (intro exI [of _ "take n w"] exI [of _ "drop n w"]) (auto simp: list_all_iff dest: in_set_takeD in_set_dropD)
qed (auto simp: between_def matches_Cat matches_rep matches_rep_optional)

section \<open>Properties\<close>


text \<open>
  \<^verbatim>\<open>IsCountryCode\<close> is meant for digits but accepts negative numbers of up to four bytes: every text
  of a dash and one to three digits.
\<close>

lemma country_code_accepts_negative:
  assumes "ds \<noteq> []" and "length ds \<le> 3" and "list_all is_digit ds"
  shows "IsCountryCode (CHR ''-'' # ds)"
proof -
  have plus: "Index ds ''+'' = None" using assms(3)
  proof (induction ds)
    case (Cons c ds)
    then have "c \<noteq> CHR ''+''" by (auto simp: is_digit_def)
    then show ?case using Cons by simp
  qed simp
  have val: "digits_value ds < 10 ^ length ds" if "list_all is_digit ds" for ds
    using that
  proof (induction ds rule: rev_induct)
    case (snoc c ds)
    then have "(of_char c :: nat) - 48 < 10" "digits_value ds < 10 ^ length ds"
      by (auto simp: is_digit_def)
    then show ?case by (simp add: digits_value_def)
  qed (simp add: digits_value_def)
  have "digits_value ds < 10 ^ 3"
    using val [OF assms(3)] assms(2) by (meson less_le_trans one_le_numeral power_increasing)
  then show ?thesis using assms plus by (simp add: IsCountryCode_def Atoi_def)
qed

text \<open>
  \<^verbatim>\<open>ParsePlatform\<close> inverts the decimal text of every platform, and what it returns is either a platform
  or \<^verbatim>\<open>Unspecify\<close>, the latter exactly for texts that are not valid. But only the low eight bits of the number
  count: adding 256 gives the same platform.
\<close>

lemma platform_texts:
  assumes "p \<in> set Platforms"
  shows "ParsePlatform (Itoa (scast p)) = p \<and> ParsePlatform (Itoa (scast p + 256)) = p \<and>
    (if IsPlatformStringValid t then IsPlatformValid (ParsePlatform t) else ParsePlatform t = Unspecify) \<and>
    \<not> IsPlatformValid Unspecify"
proof -
  have ne: "length (Itoa i) \<noteq> 0" for i
    using decimal_digits by (auto simp: Itoa_def)
  have low: "ucast (scast p :: go_int) = p" "ucast (scast p + 256 :: go_int) = p"
    using assms by (auto simp: platform_defs)
  have "List.member Platforms p" using assms by simp
  moreover have "\<not> IsPlatformValid Unspecify" by (simp add: IsPlatformValid_def platform_defs)
  moreover have "if IsPlatformStringValid t then IsPlatformValid (ParsePlatform t) else ParsePlatform t = Unspecify"
    by (auto simp: ParsePlatform_def IsPlatformStringValid_def IsPlatformValid_def split: sum.splits if_splits)
  ultimately show ?thesis
    using ne low by (simp add: ParsePlatform_def IsPlatformStringValid_def Atoi_Itoa)
qed

end
