(* ===== verification/Redis_Locks.thy ===== *)
theory Redis_Locks
  imports Texts "HOL-Library.Signed_Division"
begin

text \<open>
  The distributed lock of \<^verbatim>\<open>distribute_locker.go\<close> with its retry strategies
  (\<^verbatim>\<open>retry-strategy.go\<close>) and the id generators of \<^verbatim>\<open>distribute_id.go\<close>. The Redis server is a
  parameter, a record of the commands in use on an abstract state; \<open>redis_laws\<close> says what is
  relied on. The two scripts of the lock are part of the source and are modelled on those
  commands; Redis runs a script without interruption.
\<close>

section \<open>Redis\<close>

record 's redis =
  get_cmd :: "'s \<Rightarrow> string \<Rightarrow> string option"
  setnx_cmd :: "string \<Rightarrow> string \<Rightarrow> int \<Rightarrow> 's \<Rightarrow> (go_error + bool) \<times> 's"
  pexpire_cmd :: "string \<Rightarrow> string \<Rightarrow> 's \<Rightarrow> int \<times> 's"
  del_cmd :: "string \<Rightarrow> 's \<Rightarrow> int \<times> 's"
  incrby_cmd :: "string \<Rightarrow> int64 \<Rightarrow> 's \<Rightarrow> (go_error + int64) \<times> 's"

text \<open>
  \<^verbatim>\<open>SETNX\<close> sets a key that is free and reports whether it did; an error (a lost reply) leaves
  open whether it did. \<^verbatim>\<open>PEXPIRE\<close> with a time that is not positive deletes the key.
  \<^verbatim>\<open>INCRBY\<close> adds to the decimal number stored under the key.
\<close>

definition setnx_law :: "'s redis \<Rightarrow> bool" where
  "setnx_law r \<longleftrightarrow> (\<forall>k v ttl s t res. setnx_cmd r k v ttl s = (res, t) \<longrightarrow>
     (case res of
        Inr True \<Rightarrow> get_cmd r s k = None \<and> get_cmd r t = (get_cmd r s)(k \<mapsto> v)
      | Inr False \<Rightarrow> get_cmd r s k \<noteq> None \<and> get_cmd r t = get_cmd r s
      | Inl e \<Rightarrow> get_cmd r t = get_cmd r s \<or> get_cmd r s k = None \<and> get_cmd r t = (get_cmd r s)(k \<mapsto> v)))"

definition key_laws :: "'s redis \<Rightarrow> bool" where
  "key_laws r \<longleftrightarrow>
     (\<forall>k s. get_cmd r s k \<noteq> None \<longrightarrow>
        fst (del_cmd r k s) = 1 \<and> get_cmd r (snd (del_cmd r k s)) = (get_cmd r s)(k := None)) \<and>
     (\<forall>k ms i s. get_cmd r s k \<noteq> None \<and> Atoi ms = Inr i \<longrightarrow>
        fst (pexpire_cmd r k ms s) = 1 \<and>
        get_cmd r (snd (pexpire_cmd r k ms s)) = (if 0 < sint i then get_cmd r s else (get_cmd r s)(k := None)))"

definition incr_law :: "'s redis \<Rightarrow> bool" where
  "incr_law r \<longleftrightarrow> (\<forall>k d n s t x. get_cmd r s k = Some (Itoa n) \<longrightarrow> incrby_cmd r k d s = (Inr x, t) \<longrightarrow>
     x = n + d \<and> sint x = sint n + sint d \<and> get_cmd r t = (get_cmd r s)(k \<mapsto> Itoa x))"

definition redis_laws :: "'s redis \<Rightarrow> bool" where
  "redis_laws r \<longleftrightarrow> setnx_law r \<and> key_laws r \<and> incr_law r"

section \<open>Retry strategies\<close>

text \<open>A strategy is the sequence of durations its \<^verbatim>\<open>Next\<close> returns, in nanoseconds.\<close>

type_synonym retry = "nat \<Rightarrow> int"

definition LinearRetryStrategy :: "int \<Rightarrow> retry" where
  "LinearRetryStrategy backoff = (\<lambda>_. backoff)"

definition NoRetry :: retry where
  "NoRetry = LinearRetryStrategy 0"

section \<open>The lock\<close>

definition ErrLockFailed :: go_error where "ErrLockFailed = Err ''lock failed''"
definition ErrLockNotHeld :: go_error where "ErrLockNotHeld = Err ''lock not held''"

definition luaRefresh :: "'s redis \<Rightarrow> string \<Rightarrow> string \<Rightarrow> string \<Rightarrow> 's \<Rightarrow> int \<times> 's" where
  "luaRefresh r key owner ms s =
     (if get_cmd r s key = Some owner then pexpire_cmd r key ms s else (0, s))"

definition luaRelease :: "'s redis \<Rightarrow> string \<Rightarrow> string \<Rightarrow> 's \<Rightarrow> int \<times> 's" where
  "luaRelease r key owner s =
     (if get_cmd r s key = Some owner then del_cmd r key s else (0, s))"

record DistributeLockOptions =
  Resource :: string
  Owner :: string
  Ttl :: int
  RetryStrategy :: "retry option"

record DistributeLocker =
  clientOpen :: bool
  defaultTtl :: int
  defaultRetryStrategy :: retry

record DistributeLock =
  resource :: string
  owner :: string

text \<open>\<open>ping\<close> is the error of the first \<^verbatim>\<open>PING\<close>.\<close>

definition NewDistributeLocker :: "go_error option \<Rightarrow> int \<Rightarrow> retry \<Rightarrow> go_error + DistributeLocker" where
  "NewDistributeLocker ping ttl retryStrategy =
     (case ping of
        Some e \<Rightarrow> Inl e
      | None \<Rightarrow> Inr \<lparr>clientOpen = True, defaultTtl = ttl, defaultRetryStrategy = retryStrategy\<rparr>)"

definition Locker_Close :: "DistributeLocker \<Rightarrow> DistributeLocker" where
  "Locker_Close l = (if \<not> clientOpen l then l else l\<lparr>clientOpen := False\<rparr>)"

text \<open>
  The loop of \<^verbatim>\<open>LockWithOptions\<close> from its \<open>i\<close>-th turn at time \<open>now\<close>. The attempt takes
  \<open>took i\<close>; while the goroutine sleeps the server goes on without it, \<open>env i\<close> being what
  other clients and expiry do to it. When the deadline of the context comes first the call
  fails; at the same instant \<^verbatim>\<open>select\<close> may choose either, and both end in an error.
\<close>

function lock_loop :: "'s redis \<Rightarrow> (nat \<Rightarrow> 's \<Rightarrow> 's) \<Rightarrow> (nat \<Rightarrow> nat) \<Rightarrow> DistributeLockOptions \<Rightarrow> int \<Rightarrow> retry \<Rightarrow>
    int \<Rightarrow> nat \<Rightarrow> int \<Rightarrow> 's \<Rightarrow> (go_error + DistributeLock) \<times> 's" where
  "lock_loop r env took opt ttl retryStrategy deadline i now s =
     (case setnx_cmd r (Resource opt) (Owner opt) ttl s of
        (Inl e, s) \<Rightarrow> (Inl e, s)
      | (Inr True, s) \<Rightarrow> (Inr \<lparr>resource = Resource opt, owner = Owner opt\<rparr>, s)
      | (Inr False, s) \<Rightarrow>
          let backoff = retryStrategy i; now = now + int (took i)
          in if backoff \<le> 0 then (Inl ErrLockFailed, s)
             else if deadline \<le> now + backoff then (Inl ErrLockFailed, s)
             else lock_loop r env took opt ttl retryStrategy deadline (Suc i) (now + backoff) (env i s))"
  by pat_completeness auto
termination
  by (relation "measure (\<lambda>(r, env, took, opt, ttl, rs, deadline, i, now, s). nat (deadline - now))") auto

declare lock_loop.simps [simp del]

text \<open>
  \<open>ctx\<close> is the caller's context: its deadline, and when it is cancelled, each if there is one.
  The context of the loop is done at the earlier of the two.
\<close>

record context_of =
  ctxDeadline :: "int option"
  ctxCancelled :: "int option"

abbreviation Background :: context_of where
  "Background \<equiv> \<lparr>ctxDeadline = None, ctxCancelled = None\<rparr>"

definition LockWithOptions :: "'s redis \<Rightarrow> (nat \<Rightarrow> 's \<Rightarrow> 's) \<Rightarrow> (nat \<Rightarrow> nat) \<Rightarrow> context_of \<Rightarrow> int \<Rightarrow> DistributeLocker \<Rightarrow>
    DistributeLockOptions \<Rightarrow> 's \<Rightarrow> DistributeLock call \<times> 's" where
  "LockWithOptions r env took ctx now l opt s =
     (let ttl = (if 0 < Ttl opt then Ttl opt else defaultTtl l);
          retryStrategy = (case RetryStrategy opt of None \<Rightarrow> defaultRetryStrategy l | Some rs \<Rightarrow> rs);
          deadline = (case ctxDeadline ctx of None \<Rightarrow> now + ttl | Some d \<Rightarrow> d);
          doneAt = (case ctxCancelled ctx of None \<Rightarrow> deadline | Some c \<Rightarrow> min c deadline)
      in if \<not> clientOpen l then (Panics ''nil pointer dereference'', s)
         else let (res, s) = lock_loop r env took opt ttl retryStrategy doneAt 0 now s in (of_sum res, s))"

definition Locker_Lock :: "'s redis \<Rightarrow> (nat \<Rightarrow> 's \<Rightarrow> 's) \<Rightarrow> (nat \<Rightarrow> nat) \<Rightarrow> context_of \<Rightarrow> int \<Rightarrow> DistributeLocker \<Rightarrow>
    string \<Rightarrow> string \<Rightarrow> 's \<Rightarrow> DistributeLock call \<times> 's" where
  "Locker_Lock r env took ctx now l res own s =
     LockWithOptions r env took ctx now l
       \<lparr>Resource = res, Owner = own, Ttl = defaultTtl l, RetryStrategy = Some (defaultRetryStrategy l)\<rparr> s"

text \<open>
  \<open>fault\<close> is the error of the call, if any; \<open>None\<close> as a lock is the \<^verbatim>\<open>nil\<close> pointer. The
  result is the returned error.
\<close>

definition Refresh :: "'s redis \<Rightarrow> go_error option \<Rightarrow> DistributeLock option \<Rightarrow> int \<Rightarrow> 's \<Rightarrow> go_error option \<times> 's" where
  "Refresh r fault lk ttl s =
     (case lk of
        None \<Rightarrow> (None, s)
      | Some i \<Rightarrow>
          let ttlVal = Itoa (word_of_int (ttl sdiv 1000000))
          in case fault of
               Some e \<Rightarrow> (Some e, s)
             | None \<Rightarrow> let (status, s) = luaRefresh r (resource i) (owner i) ttlVal s
                        in if status = 1 then (None, s) else (Some ErrLockNotHeld, s))"

definition Release :: "'s redis \<Rightarrow> go_error option \<Rightarrow> DistributeLock option \<Rightarrow> 's \<Rightarrow> go_error option \<times> 's" where
  "Release r fault lk s =
     (case lk of
        None \<Rightarrow> (None, s)
      | Some i \<Rightarrow>
          (case fault of
             Some e \<Rightarrow> if e = Err ''redis: nil'' then (Some ErrLockNotHeld, s) else (Some e, s)
           | None \<Rightarrow> let (res, s) = luaRelease r (resource i) (owner i) s
                      in if res \<noteq> 1 then (Some ErrLockNotHeld, s) else (None, s)))"

section \<open>Id generators\<close>

record IdGenerator =
  gen_key :: string
  gen_start :: go_int

record DistributeId =
  idOpen :: bool
  idGenerators :: "(string, IdGenerator) gomap"

definition NewDistributeId :: "go_error option \<Rightarrow> go_error + DistributeId" where
  "NewDistributeId ping = (case ping of Some e \<Rightarrow> Inl e | None \<Rightarrow> Inr \<lparr>idOpen = True, idGenerators = []\<rparr>)"

text \<open>\<^verbatim>\<open>sync.Once\<close> plays no part: a generator is initialised once, where it is made.\<close>

definition IdGenerator_init :: "'s redis \<Rightarrow> IdGenerator \<Rightarrow> 's \<Rightarrow> go_error option \<times> 's" where
  "IdGenerator_init r g s =
     (case setnx_cmd r (gen_key g) (Itoa (gen_start g)) 0 s of
        (Inl e, s) \<Rightarrow> (Some e, s)
      | (Inr _, s) \<Rightarrow> (None, s))"

definition NewGenerator ::
    "'s redis \<Rightarrow> string \<Rightarrow> go_int \<Rightarrow> DistributeId \<Rightarrow> 's \<Rightarrow> (go_error + IdGenerator) \<times> DistributeId \<times> 's" where
  "NewGenerator r key start d s =
     (case map_of (idGenerators d) key of
        Some idGen \<Rightarrow> (Inr idGen, d, s)
      | None \<Rightarrow>
          let idGen = \<lparr>gen_key = key, gen_start = start\<rparr>
          in case IdGenerator_init r idGen s of
               (Some e, s) \<Rightarrow> (Inl e, d, s)
             | (None, s) \<Rightarrow> (Inr idGen, d\<lparr>idGenerators := AList.update key idGen (idGenerators d)\<rparr>, s))"

definition DistributeId_Close :: "DistributeId \<Rightarrow> DistributeId" where
  "DistributeId_Close d = d\<lparr>idOpen := False, idGenerators := []\<rparr>"

definition IdGenerator_Next :: "'s redis \<Rightarrow> IdGenerator \<Rightarrow> 's \<Rightarrow> (go_error + go_int) \<times> 's" where
  "IdGenerator_Next r c s =
     (case incrby_cmd r (gen_key c) 1 s of
        (Inl e, s) \<Rightarrow> (Inl e, s)
      | (Inr res, s) \<Rightarrow> (Inr res, s))"

text \<open>The ids of \<open>n\<close> calls that all succeed, each from one of the generators given.\<close>

fun draw :: "'s redis \<Rightarrow> IdGenerator list \<Rightarrow> 's \<Rightarrow> go_int list option \<times> 's" where
  "draw r [] s = (Some [], s)"
| "draw r (g # gs) s =
     (case IdGenerator_Next r g s of
        (Inl e, s) \<Rightarrow> (None, s)
      | (Inr x, s) \<Rightarrow> (case draw r gs s of (ids, s) \<Rightarrow> (map_option ((#) x) ids, s)))"

section \<open>A Redis that obeys the laws\<close>

text \<open>A store of strings; expiry is left to the environment.\<close>

definition kv :: "(string \<Rightarrow> string option) redis" where
  "kv = \<lparr>get_cmd = (\<lambda>s. s),
     setnx_cmd = (\<lambda>k v ttl s. if s k = None then (Inr True, s(k \<mapsto> v)) else (Inr False, s)),
     pexpire_cmd = (\<lambda>k ms s. if s k = None then (0, s)
       else case Atoi ms of Inl e \<Rightarrow> (0, s) | Inr i \<Rightarrow> (1, if 0 < sint i then s else s(k := None))),
     del_cmd = (\<lambda>k s. if s k = None then (0, s) else (1, s(k := None))),
     incrby_cmd = (\<lambda>k d s. case Atoi (case s k of None \<Rightarrow> ''0'' | Some v \<Rightarrow> v) of
         Inl e \<Rightarrow> (Inl e, s)
       | Inr n \<Rightarrow> if sint (n + d) = sint n + sint d then (Inr (n + d), s(k \<mapsto> Itoa (n + d)))
                  else (Inl (Err ''overflow''), s))\<rparr>"

lemma kv_laws: "redis_laws kv"
  by (auto simp: redis_laws_def setnx_law_def key_laws_def incr_law_def kv_def Atoi_Itoa
      split: if_splits option.splits sum.splits)

section \<open>Lemmas\<close>

lemma setnx_cases:
  assumes "redis_laws r" and "setnx_cmd r k v ttl s = (res, t)"
  shows "res = Inr True \<Longrightarrow> get_cmd r s k = None \<and> get_cmd r t = (get_cmd r s)(k \<mapsto> v)"
    and "res = Inr False \<Longrightarrow> get_cmd r s k \<noteq> None \<and> get_cmd r t = get_cmd r s"
    and "get_cmd r s k \<noteq> None \<Longrightarrow> get_cmd r t = get_cmd r s \<and> res \<noteq> Inr True"
proof -
  have law: "case res of Inr True \<Rightarrow> get_cmd r s k = None \<and> get_cmd r t = (get_cmd r s)(k \<mapsto> v)
      | Inr False \<Rightarrow> get_cmd r s k \<noteq> None \<and> get_cmd r t = get_cmd r s
      | Inl e \<Rightarrow> get_cmd r t = get_cmd r s \<or> get_cmd r s k = None \<and> get_cmd r t = (get_cmd r s)(k \<mapsto> v)"
    using assms unfolding redis_laws_def setnx_law_def by blast
  then show "res = Inr True \<Longrightarrow> get_cmd r s k = None \<and> get_cmd r t = (get_cmd r s)(k \<mapsto> v)"
    and "res = Inr False \<Longrightarrow> get_cmd r s k \<noteq> None \<and> get_cmd r t = get_cmd r s"
    and "get_cmd r s k \<noteq> None \<Longrightarrow> get_cmd r t = get_cmd r s \<and> res \<noteq> Inr True"
    by (auto split: sum.splits bool.splits)
qed

lemma lock_loop_result:
  assumes "redis_laws r"
  shows "lock_loop r env took opt ttl rs deadline i now s = (res, t) \<Longrightarrow>
    (\<forall>lk. res = Inr lk \<longrightarrow> lk = \<lparr>resource = Resource opt, owner = Owner opt\<rparr> \<and>
       get_cmd r t (Resource opt) = Some (Owner opt)) \<and>
    (\<forall>e. res = Inl e \<longrightarrow> e = ErrLockFailed \<and> get_cmd r t (Resource opt) \<noteq> None \<or>
       (\<exists>s'. setnx_cmd r (Resource opt) (Owner opt) ttl s' = (Inl e, t)))"
  using assms
proof (induction r env took opt ttl rs deadline i now s rule: lock_loop.induct)
  case (1 r env took opt ttl rs deadline i now s)
  obtain ans s1 where a: "setnx_cmd r (Resource opt) (Owner opt) ttl s = (ans, s1)"
    by (cases "setnx_cmd r (Resource opt) (Owner opt) ttl s")
  note laws = setnx_cases [OF "1.prems"(2) a]
  consider e where "ans = Inl e" | "ans = Inr True" | "ans = Inr False" by (cases ans) auto
  then show ?case
  proof cases
    case (1 e)
    then show ?thesis using "1.prems"(1) a by (auto simp: lock_loop.simps [of r env])
  next
    case 2
    then show ?thesis using "1.prems"(1) a laws(1) by (auto simp: lock_loop.simps [of r env])
  next
    case 3
    let ?now = "now + int (took i)"
    show ?thesis
    proof (cases "rs i \<le> 0 \<or> deadline \<le> ?now + rs i")
      case True
      then show ?thesis using "1.prems"(1) a laws(2) 3 by (auto simp: lock_loop.simps [of r env] Let_def split: if_splits)
    next
      case False
      then have "lock_loop r env took opt ttl rs deadline (Suc i) (?now + rs i) (env i s1) = (res, t)"
        using "1.prems"(1) a 3 by (simp add: lock_loop.simps [of r env took opt ttl rs deadline i] Let_def)
      then show ?thesis using "1.IH" [OF a [symmetric] 3 refl refl] False "1.prems"(2) by auto
    qed
  qed
qed

section \<open>Runs of several clients\<close>

datatype lock_event = TryLock string string int | DoRefresh DistributeLock int | DoRelease DistributeLock

fun lock_step :: "'s redis \<Rightarrow> lock_event \<Rightarrow> 's \<Rightarrow> 's" where
  "lock_step r (TryLock k own ttl) s = snd (setnx_cmd r k own ttl s)"
| "lock_step r (DoRefresh lk ttl) s = snd (Refresh r None (Some lk) ttl s)"
| "lock_step r (DoRelease lk) s = snd (Release r None (Some lk) s)"

text \<open>The events that can end the hold of \<open>own\<close> on \<open>k\<close>: a release, or a refresh below a millisecond.\<close>

fun ends_hold :: "string \<Rightarrow> string \<Rightarrow> lock_event \<Rightarrow> bool" where
  "ends_hold k own (TryLock _ _ _) = False"
| "ends_hold k own (DoRefresh lk ttl) \<longleftrightarrow> resource lk = k \<and> owner lk = own \<and> sint (word_of_int (ttl sdiv 1000000) :: go_int) \<le> 0"
| "ends_hold k own (DoRelease lk) \<longleftrightarrow> resource lk = k \<and> owner lk = own"

lemma script_keys:
  assumes "redis_laws r"
  shows "get_cmd r (snd (luaRelease r k own s)) =
      (if get_cmd r s k = Some own then (get_cmd r s)(k := None) else get_cmd r s)"
    and "fst (luaRelease r k own s) = (if get_cmd r s k = Some own then 1 else 0)"
    and "get_cmd r (snd (luaRefresh r k own (Itoa i) s)) =
      (if get_cmd r s k = Some own \<and> sint i \<le> 0 then (get_cmd r s)(k := None) else get_cmd r s)"
    and "fst (luaRefresh r k own (Itoa i) s) = (if get_cmd r s k = Some own then 1 else 0)"
  using assms Atoi_Itoa [of i]
  by (auto simp: redis_laws_def key_laws_def luaRelease_def luaRefresh_def)

lemma snd_Refresh: "snd (Refresh r None (Some lk) ttl s) =
    snd (luaRefresh r (resource lk) (owner lk) (Itoa (word_of_int (ttl sdiv 1000000))) s)"
  by (simp add: Refresh_def Let_def split: prod.splits)

lemma snd_Release: "snd (Release r None (Some lk) s) = snd (luaRelease r (resource lk) (owner lk) s)"
  by (simp add: Release_def Let_def split: prod.splits)

lemma fst_Refresh: "fst (Refresh r None (Some lk) ttl s) =
    (if fst (luaRefresh r (resource lk) (owner lk) (Itoa (word_of_int (ttl sdiv 1000000))) s) = 1 then None
     else Some ErrLockNotHeld)"
  by (simp add: Refresh_def Let_def split: prod.splits)

lemma fst_Release: "fst (Release r None (Some lk) s) =
    (if fst (luaRelease r (resource lk) (owner lk) s) = 1 then None else Some ErrLockNotHeld)"
  by (simp add: Release_def Let_def split: prod.splits)

lemma hold_kept:
  assumes "redis_laws r" and "get_cmd r s k = Some own" and "\<not> ends_hold k own e"
  shows "get_cmd r (lock_step r e s) k = Some own"
proof (cases e)
  case (TryLock k' own' ttl)
  obtain res t where st: "setnx_cmd r k' own' ttl s = (res, t)" by (cases "setnx_cmd r k' own' ttl s")
  have "case res of Inr True \<Rightarrow> get_cmd r s k' = None \<and> get_cmd r t = (get_cmd r s)(k' \<mapsto> own')
      | Inr False \<Rightarrow> get_cmd r s k' \<noteq> None \<and> get_cmd r t = get_cmd r s
      | Inl e \<Rightarrow> get_cmd r t = get_cmd r s \<or> get_cmd r s k' = None \<and> get_cmd r t = (get_cmd r s)(k' \<mapsto> own')"
    using assms(1) st unfolding redis_laws_def setnx_law_def by blast
  then have "get_cmd r t = get_cmd r s \<or> get_cmd r s k' = None \<and> get_cmd r t = (get_cmd r s)(k' \<mapsto> own')"
    by (auto split: sum.splits bool.splits)
  then show ?thesis using assms(2) st TryLock by auto
qed (use assms in \<open>auto simp: snd_Refresh snd_Release script_keys\<close>)

lemma hold_kept_run:
  "redis_laws r \<Longrightarrow> get_cmd r s k = Some own \<Longrightarrow> \<forall>e \<in> set es. \<not> ends_hold k own e \<Longrightarrow>
   get_cmd r (foldl (\<lambda>s e. lock_step r e s) s es) k = Some own"
  by (induction es arbitrary: s) (auto simp: hold_kept)

lemma draw_ids:
  assumes "redis_laws r"
  shows "get_cmd r s k = Some (Itoa n) \<Longrightarrow> \<forall>g \<in> set gs. gen_key g = k \<Longrightarrow> draw r gs s = (Some ids, t) \<Longrightarrow>
    map sint ids = map (\<lambda>i. sint n + 1 + int i) [0..<length gs] \<and> get_cmd r t k = Some (Itoa (n + of_nat (length gs)))"
proof (induction gs arbitrary: s n ids)
  case (Cons g gs)
  from Cons.prems(3) obtain x s1 ids' where x: "incrby_cmd r (gen_key g) 1 s = (Inr x, s1)"
    and rest: "draw r gs s1 = (Some ids', t)" "ids = x # ids'"
    by (auto simp: IdGenerator_Next_def split: prod.splits sum.splits)
  have "gen_key g = k" using Cons.prems(2) by simp
  then have law: "x = n + 1 \<and> sint x = sint n + 1 \<and> get_cmd r s1 = (get_cmd r s)(k \<mapsto> Itoa x)"
    using assms x Cons.prems(1) unfolding redis_laws_def incr_law_def by fastforce
  have "map sint ids' = map (\<lambda>i. sint x + 1 + int i) [0..<length gs] \<and> get_cmd r t k = Some (Itoa (x + of_nat (length gs)))"
    using Cons.IH [of s1 x ids'] law rest Cons.prems(2) by simp
  moreover have "map (\<lambda>i. sint n + 1 + int i) [0..<Suc (length gs)] = (sint n + 1) # map (\<lambda>i. sint x + 1 + int i) [0..<length gs]"
    using conjunct1 [OF conjunct2 [OF law]]
    by (simp add: upt_conv_Cons map_Suc_upt [symmetric] comp_def add.commute add.left_commute del: upt_Suc)
  moreover have "x + of_nat (length gs) = n + of_nat (length (g # gs))" using law by simp
  moreover have "sint x = sint n + 1" using law by blast
  ultimately show ?case using rest by (simp del: upt_Suc)
qed simp

text \<open>While the resource is held and others keep it so, the loop takes nothing.\<close>

lemma lock_loop_refused:
  assumes "redis_laws r" and "get_cmd r s k = Some own"
    and "\<And>i s. get_cmd r s k = Some own \<Longrightarrow> get_cmd r (env i s) k = Some own" and "Resource opt = k"
  shows "fst (lock_loop r env took opt ttl rs deadline i now s) \<noteq> Inr lk"
  using assms
proof (induction r env took opt ttl rs deadline i now s rule: lock_loop.induct)
  case (1 r env took opt ttl rs deadline i now s)
  obtain ans s1 where a: "setnx_cmd r (Resource opt) (Owner opt) ttl s = (ans, s1)" by fastforce
  have kept: "get_cmd r s1 k = Some own" and no: "ans \<noteq> Inr True"
    using setnx_cases(3) [OF "1.prems"(1) a] "1.prems"(2,4) by auto
  have "fst (lock_loop r env took opt ttl rs deadline (Suc i) (now + int (took i) + rs i) (env i s1)) \<noteq> Inr lk"
    if "ans = Inr False" "\<not> rs i \<le> 0" "\<not> deadline \<le> now + int (took i) + rs i"
    using "1.IH" [OF a [symmetric] that(1) refl refl] that(2,3) "1.prems" kept by blast
  then show ?case
    using a no by (auto simp: lock_loop.simps [of r env took opt ttl rs deadline i] Let_def split: sum.split bool.split)
qed

lemma LockWithOptions_Ok:
  "LockWithOptions r env took ctx now l opt s = (Ok lk, t) \<Longrightarrow>
   \<exists>ttl rs dl. lock_loop r env took opt ttl rs dl 0 now s = (Inr lk, t)"
  by (auto simp: LockWithOptions_def Let_def split: if_splits prod.splits)

lemma lock_held:
  assumes "redis_laws r" and "LockWithOptions r env took ctx now l opt s = (Ok lk, s1)"
    and "\<forall>e \<in> set es. \<not> ends_hold (resource lk) (owner lk) e" and "s2 = foldl (\<lambda>s e. lock_step r e s) s1 es"
  shows "lk = \<lparr>resource = Resource opt, owner = Owner opt\<rparr>" and "get_cmd r s2 (resource lk) = Some (owner lk)"
proof -
  obtain ttl rs dl where run: "lock_loop r env took opt ttl rs dl 0 now s = (Inr lk, s1)"
    using LockWithOptions_Ok [OF assms(2)] by blast
  then have lk: "lk = \<lparr>resource = Resource opt, owner = Owner opt\<rparr>" "get_cmd r s1 (Resource opt) = Some (Owner opt)"
    using lock_loop_result [OF assms(1) run] by auto
  then show "lk = \<lparr>resource = Resource opt, owner = Owner opt\<rparr>" "get_cmd r s2 (resource lk) = Some (owner lk)"
    using hold_kept_run [OF assms(1) _ assms(3), of s1] assms(4) by simp_all
qed

section \<open>Properties\<close>

text \<open>
  C6: a lock excludes. When \<^verbatim>\<open>LockWithOptions\<close> returns a lock, the resource belongs to its owner at that
  moment; after any attempts, refreshes and releases by whatever clients, none of which ends the hold of
  that owner, and before the key expires, no call of \<^verbatim>\<open>LockWithOptions\<close> for the resource returns a lock,
  whatever its options and however often it retries while such operations go on; and a release by another
  owner fails.
\<close>

theorem lock_excludes:
  assumes "redis_laws r"
    and "LockWithOptions r env took ctx now l opt s = (Ok lk, s1)"
    and "\<forall>e \<in> set es. \<not> ends_hold (resource lk) (owner lk) e"
    and "s2 = foldl (\<lambda>s e. lock_step r e s) s1 es"
    and "\<forall>i. \<forall>e \<in> set (evs i). \<not> ends_hold (resource lk) (owner lk) e" and "Resource opt' = resource lk"
  shows "lk = \<lparr>resource = Resource opt, owner = Owner opt\<rparr> \<and> get_cmd r s2 (resource lk) = Some (owner lk) \<and>
    fst (LockWithOptions r (\<lambda>i s. foldl (\<lambda>s e. lock_step r e s) s (evs i)) took' ctx' now' l' opt' s2) \<noteq> Ok lk' \<and>
    (own' \<noteq> owner lk \<longrightarrow> fst (Release r None (Some \<lparr>resource = resource lk, owner = own'\<rparr>) s2) = Some ErrLockNotHeld)"
proof -
  note held = lock_held [OF assms(1-4)]
  let ?env = "\<lambda>i s. foldl (\<lambda>s e. lock_step r e s) s (evs i)"
  have "get_cmd r (?env i s) (resource lk) = Some (owner lk)" if "get_cmd r s (resource lk) = Some (owner lk)" for i s
    by (rule hold_kept_run [OF assms(1) that assms(5) [THEN spec]])
  then have "fst (lock_loop r ?env took' opt' ttl rs dl 0 now' s2) \<noteq> Inr lk'" for ttl rs dl
    by (rule lock_loop_refused [OF assms(1) held(2) _ assms(6)])
  then have "fst (LockWithOptions r ?env took' ctx' now' l' opt' s2) \<noteq> Ok lk'"
    by (metis LockWithOptions_Ok fst_conv prod.collapse)
  moreover have "fst (Release r None (Some \<lparr>resource = resource lk, owner = own'\<rparr>) s2) = Some ErrLockNotHeld" if "own' \<noteq> owner lk"
    using script_keys(2) [OF assms(1), of "resource lk" own' s2] held(2) that by (simp add: fst_Release)
  ultimately show ?thesis using held by blast
qed

text \<open>Bob tries while Ann holds the lock; Ann refreshes it for two seconds.\<close>

theorem lock_excludes_witness:
  "\<exists>lk s1. LockWithOptions kv (\<lambda>_ s. s) (\<lambda>_. 0) Background 0 \<lparr>clientOpen = True, defaultTtl = 5, defaultRetryStrategy = NoRetry\<rparr>
       \<lparr>Resource = ''r'', Owner = ''ann'', Ttl = 0, RetryStrategy = None\<rparr> Map.empty = (Ok lk, s1) \<and>
     fst (LockWithOptions kv (\<lambda>i s. foldl (\<lambda>s e. lock_step kv e s) s [DoRefresh lk 3000000000]) (\<lambda>_. 1) Background 9
       \<lparr>clientOpen = True, defaultTtl = 5, defaultRetryStrategy = LinearRetryStrategy 2\<rparr>
       \<lparr>Resource = ''r'', Owner = ''bob'', Ttl = 0, RetryStrategy = None\<rparr>
       (foldl (\<lambda>s e. lock_step kv e s) s1
         [TryLock ''r'' ''bob'' 5, DoRefresh lk 2000000000, DoRelease \<lparr>resource = ''r'', owner = ''bob''\<rparr>])) \<noteq> Ok \<lparr>resource = ''r'', owner = ''bob''\<rparr>"
proof -
  let ?l = "\<lparr>clientOpen = True, defaultTtl = 5, defaultRetryStrategy = NoRetry\<rparr>"
  let ?o = "\<lparr>Resource = ''r'', Owner = ''ann'', Ttl = 0, RetryStrategy = None\<rparr>"
  let ?lk = "\<lparr>resource = ''r'', owner = ''ann''\<rparr>"
  have run: "LockWithOptions kv (\<lambda>_ s. s) (\<lambda>_. 0) Background 0 ?l ?o Map.empty = (Ok ?lk, [''r'' \<mapsto> ''ann''])"
    by (simp add: LockWithOptions_def lock_loop.simps kv_def)
  have es: "\<forall>e \<in> set [TryLock ''r'' ''bob'' 5, DoRefresh ?lk 2000000000, DoRelease \<lparr>resource = ''r'', owner = ''bob''\<rparr>].
      \<not> ends_hold (resource ?lk) (owner ?lk) e" by simp
  have evs: "\<forall>i :: nat. \<forall>e \<in> set ((\<lambda>_. [DoRefresh ?lk 3000000000]) i). \<not> ends_hold (resource ?lk) (owner ?lk) e" by simp
  from lock_excludes [OF kv_laws run es refl evs] run show ?thesis by auto
qed



text \<open>
  A refresh for less than a millisecond reports success and gives the lock away: the time is sent in
  whole milliseconds, and Redis deletes a key whose time is zero.
\<close>

lemma short_refresh_releases:
  assumes "redis_laws r" and "get_cmd r s (resource lk) = Some (owner lk)" and "0 \<le> ttl" and "ttl < 1000000"
  shows "fst (Refresh r None (Some lk) ttl s) = None \<and> get_cmd r (snd (Refresh r None (Some lk) ttl s)) (resource lk) = None"
proof -
  have "ttl sdiv 1000000 = 0" using assms(3,4) by (simp add: signed_divide_int_def)
  then have v: "Itoa (word_of_int (ttl sdiv 1000000)) = Itoa 0" by simp
  show ?thesis
    using script_keys(3,4) [OF assms(1), of "resource lk" "owner lk" 0 s] assms(2)
    by (simp add: snd_Refresh fst_Refresh v)
qed

text \<open>
  C33: ids drawn from generators of one key are consecutive, also when they belong to different
  generators: the first generator sets the start if the key is free, a key that exists keeps its
  number, and the ids go up by one from there, so the start itself is never handed out.
\<close>

theorem ids_consecutive:
  assumes "redis_laws r" and "NewGenerator r k start d s = (Inr g, d', s1)" and "map_of (idGenerators d) k = None"
    and "get_cmd r s k = None \<or> get_cmd r s k = Some (Itoa n)"
    and "\<forall>g \<in> set gs. gen_key g = k" and "draw r gs s1 = (Some ids, t)"
  shows "\<exists>m. m = (if get_cmd r s k = None then start else n) \<and> gen_key g = k \<and>
    map sint ids = map (\<lambda>i. sint m + 1 + int i) [0..<length gs] \<and> distinct ids"
proof -
  from assms(2,3) obtain ans where st: "setnx_cmd r k (Itoa start) 0 s = (ans, s1)" "\<forall>e. ans \<noteq> Inl e" and g: "gen_key g = k"
    by (auto simp: NewGenerator_def IdGenerator_init_def Let_def split: prod.splits sum.splits option.splits)
  let ?m = "if get_cmd r s k = None then start else n"
  obtain b where "ans = Inr b" using st(2) by (cases ans) auto
  then have "get_cmd r s1 k = Some (Itoa ?m)"
    using setnx_cases(1,2) [OF assms(1) st(1)] assms(4) by (cases b) auto
  then have ids: "map sint ids = map (\<lambda>i. sint ?m + 1 + int i) [0..<length gs]"
    using draw_ids [OF assms(1) _ assms(5,6)] by blast
  have "distinct (map (\<lambda>i. sint ?m + 1 + int i) [0..<length gs])" by (simp add: distinct_map inj_on_def)
  then have "distinct (map sint ids)" by (simp only: ids)
  then have "distinct ids" by (simp add: distinct_map)
  then show ?thesis using ids g by blast
qed

theorem ids_consecutive_witness:
  "\<exists>g d' s1 ids t. NewGenerator kv ''k'' 10 \<lparr>idOpen = True, idGenerators = []\<rparr> Map.empty = (Inr g, d', s1) \<and>
     draw kv [g, g] s1 = (Some ids, t) \<and> map sint ids = [11, 12]"
proof -
  let ?g = "\<lparr>gen_key = ''k'', gen_start = 10\<rparr>"
  have n: "NewGenerator kv ''k'' 10 \<lparr>idOpen = True, idGenerators = []\<rparr> Map.empty =
      (Inr ?g, \<lparr>idOpen = True, idGenerators = [(''k'', ?g)]\<rparr>, [''k'' \<mapsto> Itoa 10])"
    by (simp add: NewGenerator_def IdGenerator_init_def kv_def Let_def)
  obtain ids t where d: "draw kv [?g, ?g] [''k'' \<mapsto> Itoa 10] = (Some ids, t)"
    by (simp add: IdGenerator_Next_def kv_def Atoi_Itoa)
  have "map sint ids = map (\<lambda>i. 10 + 1 + int i) [0..<2]"
    using ids_consecutive [OF kv_laws n _ _ _ d, of 0] by (auto simp: kv_def numeral_2_eq_2)
  then show ?thesis using n d by (auto simp: numeral_2_eq_2)
qed

end
