(* ===== verification/Cache.thy ===== *)
theory Cache
  imports Niu_Prelude
begin

text \<open>
  \<^verbatim>\<open>Cache\<close> of \<^verbatim>\<open>cache.go\<close>: a thin layer over two Redis clients, one for writing and one for
  reading. A \<^verbatim>\<open>*redis.Client\<close> is a number, the \<^verbatim>\<open>nil\<close> pointer \<open>None\<close>. What a client does
  with a command is the parameter \<open>exec\<close>, on a state that holds the servers and the
  connections; what the cache does is choose the client, the command and the result.
  \<open>'v\<close> is the type of values of type \<^verbatim>\<open>any\<close>.
\<close>

datatype 'v cmd =
    Del "string list" | Exists "string list" | Expire string int64 | ExpireAt string int64
  | DecrByCmd string int64 | IncrByCmd string int64 | IncrByFloatCmd string string
  | GetCmd string | SetCmd string 'v int64 | SetNXCmd string 'v int64 | GetSetCmd string 'v
  | GetExCmd string int64 | GetDelCmd string
  | MGetCmd "string list" | MSetCmd "(string \<times> 'v) list" | MSetNXCmd "(string \<times> 'v) list"
  | HSetNXCmd string string 'v | HIncrByCmd string string int64 | HIncrByFloatCmd string string string
  | HGetCmd string string | HSetCmd string "(string \<times> 'v) list" | HDelCmd string "string list"
  | HExistsCmd string string | HGetAllCmd string | HKeysCmd string | HLenCmd string
  | HMGetCmd string "string list" | HMSetCmd string "(string \<times> 'v) list" | HValsCmd string
  | SAddCmd string "'v list" | SIsMemberCmd string 'v | SMIsMemberCmd string "'v list"
  | SMembersCmd string | SRemCmd string "'v list"

text \<open>Replies; floating-point numbers are kept as text.\<close>

datatype reply = RInt int64 | RBool bool | RStr string | RFloat string | RStrs "string list"
  | RVals "string option list" | RBools "bool list" | RMap "(string \<times> string) list" | RStatus string

type_synonym 's act = "'s \<Rightarrow> reply call \<times> 's"
type_synonym ('s, 'v) exec = "nat \<Rightarrow> 'v cmd \<Rightarrow> 's \<Rightarrow> (go_error + reply) \<times> 's"

record Cache =
  master :: "nat option"
  slave :: "nat option"

text \<open>A method call on the \<^verbatim>\<open>nil\<close> client panics.\<close>

definition call_on :: "('s, 'v) exec \<Rightarrow> nat option \<Rightarrow> 'v cmd \<Rightarrow> 's act" where
  "call_on exec client cmd s =
     (case client of
        None \<Rightarrow> (Panics ''nil pointer dereference'', s)
      | Some c \<Rightarrow> let (res, s) = exec c cmd s in (of_sum res, s))"

section \<open>Making and closing\<close>

text \<open>
  \<open>ping c\<close> is the error of the first \<^verbatim>\<open>PING\<close> of client \<open>c\<close>; new clients are numbered from
  \<open>n\<close>. Options are addresses.
\<close>

definition NewCache :: "(nat \<Rightarrow> go_error option) \<Rightarrow> nat \<Rightarrow> string \<Rightarrow> string option \<Rightarrow> go_error + Cache" where
  "NewCache ping n masterOpt slaveOpt =
     (case ping n of
        Some e \<Rightarrow> Inl e
      | None \<Rightarrow>
          (case slaveOpt of
             None \<Rightarrow> Inr \<lparr>master = Some n, slave = Some n\<rparr>
           | Some opt \<Rightarrow>
               (case ping (Suc n) of
                  Some e \<Rightarrow> Inl e
                | None \<Rightarrow> Inr \<lparr>master = Some n, slave = Some (Suc n)\<rparr>)))"

definition NewCacheWithAddr :: "(nat \<Rightarrow> go_error option) \<Rightarrow> nat \<Rightarrow> string \<Rightarrow> string \<Rightarrow> go_error + Cache" where
  "NewCacheWithAddr ping n addr slaveAddr =
     NewCache ping n addr (if length slaveAddr > 0 then Some slaveAddr else None)"

text \<open>\<open>close_client c\<close> closes a client and gives the error of \<^verbatim>\<open>Close\<close>.\<close>

definition Cache_Close :: "(nat \<Rightarrow> 's \<Rightarrow> go_error option \<times> 's) \<Rightarrow> Cache \<Rightarrow> 's \<Rightarrow> go_error option \<times> Cache \<times> 's" where
  "Cache_Close close_client c s =
     (let (err, c, s) =
            (case master c of
               None \<Rightarrow> (None, c, s)
             | Some client \<Rightarrow> let (err, s) = close_client client s in (err, c\<lparr>master := None\<rparr>, s))
      in case err of
           Some e \<Rightarrow> (Some e, c, s)
         | None \<Rightarrow>
             (case slave c of
                None \<Rightarrow> (None, c, s)
              | Some client \<Rightarrow> let (err, s) = close_client client s in (err, c\<lparr>slave := None\<rparr>, s)))"

section \<open>Transactions\<close>

text \<open>
  A command of a transaction with its result; \<open>None\<close> when its Go type is not among the cases of the
  type switch.
\<close>

type_synonym cmder = "(reply option \<times> go_error option) option"

fun result_loop :: "nat \<Rightarrow> cmder list \<Rightarrow> (nat \<times> reply option) list \<times> (nat \<times> go_error option) list" where
  "result_loop idx [] = ([], [])"
| "result_loop idx (None # cmders) = result_loop (Suc idx) cmders"
| "result_loop idx (Some (v, err) # cmders) =
     (let (strMap, errMap) = result_loop (Suc idx) cmders in ((idx, v) # strMap, (idx, err) # errMap))"

definition getCmdResult :: "cmder list \<Rightarrow> (nat \<times> reply option) list \<times> (nat \<times> go_error option) list" where
  "getCmdResult cmders = (if length cmders \<le> 0 then ([], []) else result_loop 0 cmders)"

text \<open>\<open>tx\<close> runs the queued commands of a client as one transaction.\<close>

definition Batch :: "(nat \<Rightarrow> 'v cmd list \<Rightarrow> 's \<Rightarrow> (go_error option \<times> cmder list) \<times> 's) \<Rightarrow> Cache \<Rightarrow> 'v cmd list \<Rightarrow> 's \<Rightarrow>
    ((nat \<times> reply option) list \<times> (nat \<times> go_error option) list) outcome \<times> 's" where
  "Batch tx c queued s =
     (case master c of
        None \<Rightarrow> (Panic ''nil pointer dereference'', s)
      | Some client \<Rightarrow>
          let ((err, cmders), s) = tx client queued s
          in case err of
               Some e \<Rightarrow> (Ret ([], [(0, Some e)]), s)
             | None \<Rightarrow>
                 if length cmders < 1
                 then (Ret ([], [(0, Some (Err ''cmders must be greater than or equal to 1''))]), s)
                 else (Ret (getCmdResult cmders), s))"

fun first_error :: "go_error option list \<Rightarrow> go_error option" where
  "first_error [] = None"
| "first_error (None # es) = first_error es"
| "first_error (Some e # es) = Some e"

text \<open>\<open>ord\<close> is the order in which \<^verbatim>\<open>range\<close> visits the map of errors.\<close>

definition HMSetAndExpiry :: "(go_error option list \<Rightarrow> go_error option list) \<Rightarrow>
    (nat \<Rightarrow> 'v cmd list \<Rightarrow> 's \<Rightarrow> (go_error option \<times> cmder list) \<times> 's) \<Rightarrow> Cache \<Rightarrow> string \<Rightarrow> (string \<times> 'v) list \<Rightarrow> int64 \<Rightarrow> 's \<Rightarrow>
    bool call \<times> 's" where
  "HMSetAndExpiry ord tx c key vals expiry s =
     (case Batch tx c [HMSetCmd key vals, Expire key expiry] s of
        (Panic m, s) \<Rightarrow> (Panics m, s)
      | (Ret (_, errs), s) \<Rightarrow>
          (case first_error (ord (map snd errs)) of
             Some e \<Rightarrow> (Error e, s)
           | None \<Rightarrow> (Ok True, s)))"

section \<open>Commands\<close>

definition KeyDel :: "('s, 'v) exec \<Rightarrow> Cache \<Rightarrow> string list \<Rightarrow> 's act" where
  "KeyDel exec c keys = call_on exec (master c) (Del keys)"

definition KeyExists :: "('s, 'v) exec \<Rightarrow> Cache \<Rightarrow> string list \<Rightarrow> 's act" where
  "KeyExists exec c keys = call_on exec (slave c) (Exists keys)"

definition KeyExpire :: "('s, 'v) exec \<Rightarrow> Cache \<Rightarrow> string \<Rightarrow> int64 \<Rightarrow> 's act" where
  "KeyExpire exec c key expiry = call_on exec (master c) (Expire key expiry)"

definition KeyExpireAt :: "('s, 'v) exec \<Rightarrow> Cache \<Rightarrow> string \<Rightarrow> int64 \<Rightarrow> 's act" where
  "KeyExpireAt exec c key expiry = call_on exec (master c) (ExpireAt key expiry)"

definition DecrBy :: "('s, 'v) exec \<Rightarrow> Cache \<Rightarrow> string \<Rightarrow> int64 \<Rightarrow> 's act" where
  "DecrBy exec c key decrement = call_on exec (master c) (DecrByCmd key decrement)"

definition IncrBy :: "('s, 'v) exec \<Rightarrow> Cache \<Rightarrow> string \<Rightarrow> int64 \<Rightarrow> 's act" where
  "IncrBy exec c key decrement = call_on exec (master c) (IncrByCmd key decrement)"

definition IncrByFloat :: "('s, 'v) exec \<Rightarrow> Cache \<Rightarrow> string \<Rightarrow> string \<Rightarrow> 's act" where
  "IncrByFloat exec c key decrement = call_on exec (master c) (IncrByFloatCmd key decrement)"

definition Cache_Get :: "('s, 'v) exec \<Rightarrow> Cache \<Rightarrow> string \<Rightarrow> 's act" where
  "Cache_Get exec c key = call_on exec (slave c) (GetCmd key)"

text \<open>The JSON forms: \<open>unmarshal\<close> and \<open>marshal\<close> stand for \<^verbatim>\<open>encoding/json\<close>; a string is a value.\<close>

definition json_result :: "(string \<Rightarrow> go_error + 'a) \<Rightarrow> reply call \<times> 's \<Rightarrow> 'a call \<times> 's" where
  "json_result unmarshal = (\<lambda>(res, s).
     (bind_call res (\<lambda>v. case v of RStr jsonStr \<Rightarrow> of_sum (unmarshal jsonStr) | _ \<Rightarrow> Panics ''unexpected reply''), s))"

definition GetJson :: "(string \<Rightarrow> go_error + 'a) \<Rightarrow> ('s, 'v) exec \<Rightarrow> Cache \<Rightarrow> string \<Rightarrow> 's \<Rightarrow> 'a call \<times> 's" where
  "GetJson unmarshal exec c key s = json_result unmarshal (call_on exec (slave c) (GetCmd key) s)"

definition Cache_Set :: "('s, 'v) exec \<Rightarrow> Cache \<Rightarrow> string \<Rightarrow> 'v \<Rightarrow> int64 \<Rightarrow> 's act" where
  "Cache_Set exec c key val expiry = call_on exec (master c) (SetCmd key val expiry)"

definition SetJson :: "('a \<Rightarrow> go_error + string) \<Rightarrow> ('s, string) exec \<Rightarrow> Cache \<Rightarrow> string \<Rightarrow> 'a \<Rightarrow> int64 \<Rightarrow> 's act" where
  "SetJson marshal exec c key val expiry s =
     (case marshal val of
        Inl e \<Rightarrow> (Error e, s)
      | Inr jsonStr \<Rightarrow> call_on exec (master c) (SetCmd key jsonStr expiry) s)"

definition SetNX :: "('s, 'v) exec \<Rightarrow> Cache \<Rightarrow> string \<Rightarrow> 'v \<Rightarrow> int64 \<Rightarrow> 's act" where
  "SetNX exec c key val expiry = call_on exec (master c) (SetNXCmd key val expiry)"

definition GetSet :: "('s, 'v) exec \<Rightarrow> Cache \<Rightarrow> string \<Rightarrow> 'v \<Rightarrow> 's act" where
  "GetSet exec c key val = call_on exec (master c) (GetSetCmd key val)"

definition GetExpire :: "('s, 'v) exec \<Rightarrow> Cache \<Rightarrow> string \<Rightarrow> int64 \<Rightarrow> 's act" where
  "GetExpire exec c key expiration = call_on exec (master c) (GetExCmd key expiration)"

definition GetDel :: "('s, 'v) exec \<Rightarrow> Cache \<Rightarrow> string \<Rightarrow> 's act" where
  "GetDel exec c key = call_on exec (master c) (GetDelCmd key)"

definition MultiGet :: "('s, 'v) exec \<Rightarrow> Cache \<Rightarrow> string list \<Rightarrow> 's act" where
  "MultiGet exec c keys = call_on exec (slave c) (MGetCmd keys)"

definition MultiSet :: "('s, 'v) exec \<Rightarrow> Cache \<Rightarrow> (string \<times> 'v) list \<Rightarrow> 's act" where
  "MultiSet exec c maps = call_on exec (master c) (MSetCmd maps)"

definition MultiSetNX :: "('s, 'v) exec \<Rightarrow> Cache \<Rightarrow> (string \<times> 'v) list \<Rightarrow> 's act" where
  "MultiSetNX exec c maps = call_on exec (master c) (MSetNXCmd maps)"

definition HSetNX :: "('s, 'v) exec \<Rightarrow> Cache \<Rightarrow> string \<Rightarrow> string \<Rightarrow> 'v \<Rightarrow> 's act" where
  "HSetNX exec c key field val = call_on exec (master c) (HSetNXCmd key field val)"

definition HIncrBy :: "('s, 'v) exec \<Rightarrow> Cache \<Rightarrow> string \<Rightarrow> string \<Rightarrow> int64 \<Rightarrow> 's act" where
  "HIncrBy exec c key field incr = call_on exec (master c) (HIncrByCmd key field incr)"

definition HIncrByFloat :: "('s, 'v) exec \<Rightarrow> Cache \<Rightarrow> string \<Rightarrow> string \<Rightarrow> string \<Rightarrow> 's act" where
  "HIncrByFloat exec c key field incr = call_on exec (master c) (HIncrByFloatCmd key field incr)"

definition HGet :: "('s, 'v) exec \<Rightarrow> Cache \<Rightarrow> string \<Rightarrow> string \<Rightarrow> 's act" where
  "HGet exec c key field = call_on exec (slave c) (HGetCmd key field)"

definition HGetJson :: "(string \<Rightarrow> go_error + 'a) \<Rightarrow> ('s, 'v) exec \<Rightarrow> Cache \<Rightarrow> string \<Rightarrow> string \<Rightarrow> 's \<Rightarrow> 'a call \<times> 's" where
  "HGetJson unmarshal exec c key field s = json_result unmarshal (call_on exec (slave c) (HGetCmd key field) s)"

definition HSet :: "('s, 'v) exec \<Rightarrow> Cache \<Rightarrow> string \<Rightarrow> (string \<times> 'v) list \<Rightarrow> 's act" where
  "HSet exec c key vals = call_on exec (master c) (HSetCmd key vals)"

definition HSetJson :: "('a \<Rightarrow> go_error + string) \<Rightarrow> ('s, string) exec \<Rightarrow> Cache \<Rightarrow> string \<Rightarrow> string \<Rightarrow> 'a \<Rightarrow> 's act" where
  "HSetJson marshal exec c key field val s =
     (case marshal val of
        Inl e \<Rightarrow> (Error e, s)
      | Inr jsonStr \<Rightarrow> call_on exec (master c) (HSetCmd key [(field, jsonStr)]) s)"

definition HDel :: "('s, 'v) exec \<Rightarrow> Cache \<Rightarrow> string \<Rightarrow> string list \<Rightarrow> 's act" where
  "HDel exec c key fs s =
     (let (res, s) = call_on exec (master c) (HDelCmd key fs) s
      in (bind_call res (\<lambda>v. case v of RInt n \<Rightarrow> Ok (RBool (0 < sint n)) | _ \<Rightarrow> Panics ''unexpected reply''), s))"

definition HExists :: "('s, 'v) exec \<Rightarrow> Cache \<Rightarrow> string \<Rightarrow> string \<Rightarrow> 's act" where
  "HExists exec c key field = call_on exec (master c) (HExistsCmd key field)"

definition HGetAll :: "('s, 'v) exec \<Rightarrow> Cache \<Rightarrow> string \<Rightarrow> 's act" where
  "HGetAll exec c key = call_on exec (slave c) (HGetAllCmd key)"

definition HKeys :: "('s, 'v) exec \<Rightarrow> Cache \<Rightarrow> string \<Rightarrow> 's act" where
  "HKeys exec c key = call_on exec (slave c) (HKeysCmd key)"

definition HLen :: "('s, 'v) exec \<Rightarrow> Cache \<Rightarrow> string \<Rightarrow> 's act" where
  "HLen exec c key = call_on exec (slave c) (HLenCmd key)"

definition HMGet :: "('s, 'v) exec \<Rightarrow> Cache \<Rightarrow> string \<Rightarrow> string list \<Rightarrow> 's act" where
  "HMGet exec c key fs = call_on exec (slave c) (HMGetCmd key fs)"

definition HMSet :: "('s, 'v) exec \<Rightarrow> Cache \<Rightarrow> string \<Rightarrow> (string \<times> 'v) list \<Rightarrow> 's act" where
  "HMSet exec c key vals = call_on exec (master c) (HMSetCmd key vals)"

definition HVals :: "('s, 'v) exec \<Rightarrow> Cache \<Rightarrow> string \<Rightarrow> 's act" where
  "HVals exec c key = call_on exec (slave c) (HValsCmd key)"

definition SAdd :: "('s, 'v) exec \<Rightarrow> Cache \<Rightarrow> string \<Rightarrow> 'v list \<Rightarrow> 's act" where
  "SAdd exec c key members = call_on exec (master c) (SAddCmd key members)"

definition SIsMember :: "('s, 'v) exec \<Rightarrow> Cache \<Rightarrow> string \<Rightarrow> 'v \<Rightarrow> 's act" where
  "SIsMember exec c key member = call_on exec (slave c) (SIsMemberCmd key member)"

definition SMultiIsMember :: "('s, 'v) exec \<Rightarrow> Cache \<Rightarrow> string \<Rightarrow> 'v list \<Rightarrow> 's act" where
  "SMultiIsMember exec c key members = call_on exec (slave c) (SMIsMemberCmd key members)"

definition SMembers :: "('s, 'v) exec \<Rightarrow> Cache \<Rightarrow> string \<Rightarrow> 's act" where
  "SMembers exec c key = call_on exec (slave c) (SMembersCmd key)"

definition SRemove :: "('s, 'v) exec \<Rightarrow> Cache \<Rightarrow> string \<Rightarrow> 'v list \<Rightarrow> 's act" where
  "SRemove exec c key members = call_on exec (master c) (SRemCmd key members)"


section \<open>Routing\<close>

text \<open>The method that issues each command.\<close>

fun issue :: "('s, 'v) exec \<Rightarrow> Cache \<Rightarrow> 'v cmd \<Rightarrow> 's act" where
  "issue exec c (Del ks) = KeyDel exec c ks"
| "issue exec c (Exists ks) = KeyExists exec c ks"
| "issue exec c (Expire k d) = KeyExpire exec c k d"
| "issue exec c (ExpireAt k d) = KeyExpireAt exec c k d"
| "issue exec c (DecrByCmd k d) = DecrBy exec c k d"
| "issue exec c (IncrByCmd k d) = IncrBy exec c k d"
| "issue exec c (IncrByFloatCmd k d) = IncrByFloat exec c k d"
| "issue exec c (GetCmd k) = Cache_Get exec c k"
| "issue exec c (SetCmd k v d) = Cache_Set exec c k v d"
| "issue exec c (SetNXCmd k v d) = SetNX exec c k v d"
| "issue exec c (GetSetCmd k v) = GetSet exec c k v"
| "issue exec c (GetExCmd k d) = GetExpire exec c k d"
| "issue exec c (GetDelCmd k) = GetDel exec c k"
| "issue exec c (MGetCmd ks) = MultiGet exec c ks"
| "issue exec c (MSetCmd m) = MultiSet exec c m"
| "issue exec c (MSetNXCmd m) = MultiSetNX exec c m"
| "issue exec c (HSetNXCmd k f v) = HSetNX exec c k f v"
| "issue exec c (HIncrByCmd k f d) = HIncrBy exec c k f d"
| "issue exec c (HIncrByFloatCmd k f d) = HIncrByFloat exec c k f d"
| "issue exec c (HGetCmd k f) = HGet exec c k f"
| "issue exec c (HSetCmd k m) = HSet exec c k m"
| "issue exec c (HDelCmd k fs) = HDel exec c k fs"
| "issue exec c (HExistsCmd k f) = HExists exec c k f"
| "issue exec c (HGetAllCmd k) = HGetAll exec c k"
| "issue exec c (HKeysCmd k) = HKeys exec c k"
| "issue exec c (HLenCmd k) = HLen exec c k"
| "issue exec c (HMGetCmd k fs) = HMGet exec c k fs"
| "issue exec c (HMSetCmd k m) = HMSet exec c k m"
| "issue exec c (HValsCmd k) = HVals exec c k"
| "issue exec c (SAddCmd k vs) = SAdd exec c k vs"
| "issue exec c (SIsMemberCmd k v) = SIsMember exec c k v"
| "issue exec c (SMIsMemberCmd k vs) = SMultiIsMember exec c k vs"
| "issue exec c (SMembersCmd k) = SMembers exec c k"
| "issue exec c (SRemCmd k vs) = SRemove exec c k vs"

text \<open>The commands Redis lists as read-only; a replica refuses all others.\<close>

fun read_only :: "'v cmd \<Rightarrow> bool" where
  "read_only (Exists _) = True"
| "read_only (GetCmd _) = True"
| "read_only (MGetCmd _) = True"
| "read_only (HGetCmd _ _) = True"
| "read_only (HExistsCmd _ _) = True"
| "read_only (HGetAllCmd _) = True"
| "read_only (HKeysCmd _) = True"
| "read_only (HLenCmd _) = True"
| "read_only (HMGetCmd _ _) = True"
| "read_only (HValsCmd _) = True"
| "read_only (SIsMemberCmd _ _) = True"
| "read_only (SMIsMemberCmd _ _) = True"
| "read_only (SMembersCmd _) = True"
| "read_only _ = False"

text \<open>A client that notes what it is asked.\<close>

definition noting :: "(nat \<Rightarrow> 'v cmd \<Rightarrow> go_error + reply) \<Rightarrow> ((nat \<times> 'v cmd) list, 'v) exec" where
  "noting answer c cmd log = (answer c cmd, log @ [(c, cmd)])"

lemmas command_defs = KeyDel_def KeyExists_def KeyExpire_def KeyExpireAt_def DecrBy_def IncrBy_def IncrByFloat_def
  Cache_Get_def Cache_Set_def SetNX_def GetSet_def GetExpire_def GetDel_def MultiGet_def MultiSet_def MultiSetNX_def
  HSetNX_def HIncrBy_def HIncrByFloat_def HGet_def HSet_def HDel_def HExists_def HGetAll_def HKeys_def HLen_def
  HMGet_def HMSet_def HVals_def SAdd_def SIsMember_def SMultiIsMember_def SMembers_def SRemove_def

definition is_HExists :: "'v cmd \<Rightarrow> bool" where
  "is_HExists cmd \<longleftrightarrow> (\<exists>k f. cmd = HExistsCmd k f)"

section \<open>Properties\<close>


text \<open>
  A cache without a slave shares one client, and \<^verbatim>\<open>Close\<close> closes it twice: since closing a closed client is an
  error, closing such a cache always reports one, even though nothing went wrong.
\<close>

lemma shared_cache_close_fails:
  assumes "\<forall>k s. fst (close_client k s) = None \<longrightarrow> fst (close_client k (snd (close_client k s))) \<noteq> None"
    and "NewCache ping n addr None = Inr c"
  shows "fst (Cache_Close close_client c s) \<noteq> None"
proof -
  have c: "c = \<lparr>master = Some n, slave = Some n\<rparr>" using assms(2) by (auto simp: NewCache_def split: option.splits)
  obtain e1 s1 where 1: "close_client n s = (e1, s1)" by fastforce
  obtain e2 s2 where 2: "close_client n s1 = (e2, s2)" by fastforce
  have "e1 = None \<longrightarrow> e2 \<noteq> None" using assms(1) 1 2 by (metis fst_conv snd_conv)
  then show ?thesis using 1 2 by (auto simp: Cache_Close_def c split: option.splits)
qed

text \<open>
  On a cache with one client, \<^verbatim>\<open>GetJson\<close> gives back what \<^verbatim>\<open>SetJson\<close> stored. The hypotheses are that a
  server answers with the value set last and that JSON decoding inverts encoding.
\<close>

lemma cache_json_round_trip:
  assumes "\<forall>cl k v e s r t. exec cl (SetCmd k v e) s = (Inr r, t) \<longrightarrow> exec cl (GetCmd k) t = (Inr (RStr v), t)"
    and "\<forall>v js. marshal v = Inr js \<longrightarrow> unmarshal js = Inr v"
    and "NewCache ping n addr None = Inr c"
    and "SetJson marshal exec c key val expiry s = (Ok r, t)"
  shows "GetJson unmarshal exec c key t = (Ok val, t)"
proof -
  have c: "c = \<lparr>master = Some n, slave = Some n\<rparr>" using assms(3) by (auto simp: NewCache_def split: option.splits)
  from assms(4) obtain js where js: "marshal val = Inr js" and set: "exec n (SetCmd key js expiry) s = (Inr r, t)"
    by (auto simp: SetJson_def call_on_def c split: sum.splits prod.splits)
  from assms(1) set have "exec n (GetCmd key) t = (Inr (RStr js), t)" by blast
  then show ?thesis using assms(2) js by (simp add: GetJson_def json_result_def call_on_def c)
qed

end
