(* ===== verification/Message_Queue.thy ===== *)
theory Message_Queue
  imports Machines
begin

text \<open>
  The Redis message queue of \<^verbatim>\<open>message_queue.go\<close>: \<open>Publish\<close>, the goroutines \<open>Subscribe\<close> starts
  and \<open>Close\<close>, as a machine whose events are the steps of single goroutines between two points
  where they can meet. The stream commands of the server, the outcome of
  \<^verbatim>\<open>CoroutinePool.Submit\<close> and the results of the handlers are inputs.
\<close>

section \<open>Streams\<close>

text \<open>
  A message is its id and its values. The last command, \<^verbatim>\<open>XREADGROUP\<close>, may block: it is
  \<open>None\<close> as long as there is nothing to return.
\<close>

type_synonym 'v message = "string \<times> (string, 'v) gomap"

record ('s, 'v) streams =
  xadd_cmd :: "string \<Rightarrow> int64 \<Rightarrow> bool \<Rightarrow> string \<Rightarrow> (string, 'v) gomap \<Rightarrow> 's \<Rightarrow> (go_error + string) \<times> 's"
  xgroup_cmd :: "string \<Rightarrow> string \<Rightarrow> string \<Rightarrow> 's \<Rightarrow> (go_error + string) \<times> 's"
  xack_cmd :: "string \<Rightarrow> string \<Rightarrow> string \<Rightarrow> 's \<Rightarrow> (go_error + int64) \<times> 's"
  xread_cmd :: "string \<Rightarrow> string \<Rightarrow> string list \<Rightarrow> int64 \<Rightarrow> bool \<Rightarrow> 's \<Rightarrow>
    ((go_error + (string \<times> 'v message list) list) \<times> 's) option"

text \<open>The field \<^verbatim>\<open>client\<close>: a live client, one after its \<^verbatim>\<open>Close\<close>, or \<^verbatim>\<open>nil\<close>.\<close>

datatype client = Live | Shut | NilClient

definition nil_panic :: string where
  "nil_panic = ''invalid memory address or nil pointer dereference''"

definition ErrClosed :: go_error where
  "ErrClosed = Err ''redis: client is closed''"

definition on_client :: "client \<Rightarrow> ('s \<Rightarrow> (go_error + 'a) \<times> 's) \<Rightarrow> 's \<Rightarrow> 'a call \<times> 's" where
  "on_client c f s =
     (case c of
        NilClient \<Rightarrow> (Panics nil_panic, s)
      | Shut \<Rightarrow> (Error ErrClosed, s)
      | Live \<Rightarrow> (let (x, s) = f s in (of_sum x, s)))"

definition HasPrefix :: "string \<Rightarrow> string \<Rightarrow> bool" where
  "HasPrefix s p \<longleftrightarrow> take (length p) s = p"

section \<open>State\<close>

text \<open>
  Where a subscriber's goroutine is: at the outer \<^verbatim>\<open>select\<close>; in \<open>consume\<close> with the given id,
  before it reads \<^verbatim>\<open>m.client\<close>, in the blocking read, at the inner \<^verbatim>\<open>select\<close> with the messages
  left, in the handler, or before the acknowledgement; or ended, by the close signal, by its
  context, or by a panic. \<open>sub_log\<close> records the handler calls and acknowledgements.
\<close>

datatype 'v pc =
    Outer
  | Fetch string
  | Blocked string
  | Messages string "'v message list"
  | Handling string "'v message" "'v message list"
  | Acking string "'v message" "'v message list"
  | StoppedByClose
  | StoppedByContext
  | Panicked string

datatype 'v entry = Handled "'v message" "go_error option" | Acked string

record 'v subscriber =
  sub_topic :: string
  sub_group :: string
  sub_consumer :: string
  sub_done :: bool
  sub_pc :: "'v pc"
  sub_log :: "'v entry list"

text \<open>
  Where the call of \<open>Close\<close> that holds the mutex is: none, at the send to \<^verbatim>\<open>closeChan\<close>, before
  \<^verbatim>\<open>client.Close()\<close>, before \<^verbatim>\<open>m.client = nil\<close>. Only \<open>Close\<close> uses the mutex.
\<close>

datatype closing = NotClosing | Sending | Shutting | Clearing

record ('s, 'v) RedisMessageQueue =
  server :: 's
  client :: client
  xaddMaxLen :: go_int
  batchSize :: go_int
  closing :: closing
  subs :: "'v subscriber list"

definition NewRedisMessageQueue ::
    "go_error option \<Rightarrow> go_int \<Rightarrow> go_int \<Rightarrow> 's \<Rightarrow> go_error + ('s, 'v) RedisMessageQueue" where
  "NewRedisMessageQueue ping maxLen batch s =
     (case ping of
        Some e \<Rightarrow> Inl e
      | None \<Rightarrow> Inr \<lparr>server = s, client = Live, xaddMaxLen = maxLen, batchSize = batch, closing = NotClosing, subs = []\<rparr>)"

section \<open>Publish and Subscribe\<close>

definition Publish :: "('s, 'v) streams \<Rightarrow> string \<Rightarrow> (string, 'v) gomap \<Rightarrow> ('s, 'v) RedisMessageQueue \<Rightarrow>
    unit call \<times> ('s, 'v) RedisMessageQueue" where
  "Publish r topic body m =
     (let (res, s) = on_client (client m) (xadd_cmd r topic (xaddMaxLen m) True ''*'' body) (server m)
      in (bind_call res (\<lambda>_. Ok ()), m\<lparr>server := s\<rparr>))"

definition Subscribe :: "('s, 'v) streams \<Rightarrow> go_error option \<Rightarrow> string \<Rightarrow> string \<Rightarrow> string \<Rightarrow>
    ('s, 'v) RedisMessageQueue \<Rightarrow> unit call \<times> ('s, 'v) RedisMessageQueue" where
  "Subscribe r submit topic grp consumer m =
     (let (res, s) = on_client (client m) (xgroup_cmd r topic grp ''0'') (server m);
          m = m\<lparr>server := s\<rparr>;
          task = (case submit of
              Some e \<Rightarrow> (Error e, m)
            | None \<Rightarrow> (Ok (), m\<lparr>subs := subs m @ [\<lparr>sub_topic = topic, sub_group = grp, sub_consumer = consumer,
                sub_done = False, sub_pc = Outer, sub_log = []\<rparr>]\<rparr>))
      in case res of
           Panics p \<Rightarrow> (Panics p, m)
         | Error (Err e) \<Rightarrow> if \<not> HasPrefix e ''BUSYGROUP'' then (Error (Err e), m) else task
         | Ok _ \<Rightarrow> task)"

section \<open>The goroutine of a subscriber\<close>

definition go_to :: "nat \<Rightarrow> 'v pc \<Rightarrow> ('s, 'v) RedisMessageQueue \<Rightarrow> ('s, 'v) RedisMessageQueue" where
  "go_to i p m = m\<lparr>subs := (subs m)[i := (subs m ! i)\<lparr>sub_pc := p\<rparr>]\<rparr>"

definition note_entry :: "nat \<Rightarrow> 'v entry \<Rightarrow> ('s, 'v) RedisMessageQueue \<Rightarrow> ('s, 'v) RedisMessageQueue" where
  "note_entry i x m = m\<lparr>subs := (subs m)[i := (subs m ! i)\<lparr>sub_log := sub_log (subs m ! i) @ [x]\<rparr>]\<rparr>"

text \<open>When \<open>consume\<close> returns nil the first call is followed by the second, the second by the loop.\<close>

definition after_consume :: "string \<Rightarrow> 'v pc" where
  "after_consume sid = (if sid = ''>'' then Fetch ''0'' else Outer)"

text \<open>
  The three cases of the two \<^verbatim>\<open>select\<close> statements. \<^verbatim>\<open>closeChan\<close> has no buffer: a case that
  receives from it is ready only while a call of \<open>Close\<close> waits to send, and takes its signal.
  The default is chosen only when no other case is ready.
\<close>

definition take_signal :: "nat \<Rightarrow> ('s, 'v) RedisMessageQueue \<Rightarrow> ('s, 'v) RedisMessageQueue option" where
  "take_signal i m =
     (if closing m \<noteq> Sending then None
      else case sub_pc (subs m ! i) of
             Outer \<Rightarrow> Some (go_to i StoppedByClose (m\<lparr>closing := Shutting\<rparr>))
           | Messages sid (x # xs) \<Rightarrow> Some (go_to i (after_consume sid) (m\<lparr>closing := Shutting\<rparr>))
           | _ \<Rightarrow> None)"

definition see_done :: "nat \<Rightarrow> ('s, 'v) RedisMessageQueue \<Rightarrow> ('s, 'v) RedisMessageQueue option" where
  "see_done i m =
     (if \<not> sub_done (subs m ! i) then None
      else case sub_pc (subs m ! i) of
             Outer \<Rightarrow> Some (go_to i StoppedByContext m)
           | Messages sid (x # xs) \<Rightarrow> Some (go_to i (after_consume sid) m)
           | _ \<Rightarrow> None)"

definition go_on :: "nat \<Rightarrow> ('s, 'v) RedisMessageQueue \<Rightarrow> ('s, 'v) RedisMessageQueue option" where
  "go_on i m =
     (case sub_pc (subs m ! i) of
        Outer \<Rightarrow> if closing m = Sending \<or> sub_done (subs m ! i) then None else Some (go_to i (Fetch ''>'') m)
      | Messages sid [] \<Rightarrow> Some (go_to i (after_consume sid) m)
      | Messages sid (x # xs) \<Rightarrow>
          if closing m = Sending \<or> sub_done (subs m ! i) then None else Some (go_to i (Handling sid x xs) m)
      | _ \<Rightarrow> None)"

text \<open>
  \<open>consume\<close>: the client is read first, which panics when it is \<^verbatim>\<open>nil\<close>; the read then ends with
  an error when the client is closed meanwhile, or with another \<open>fault\<close> of the connection or
  the context. An error goes back to the outer loop. An acknowledgement is logged when it is
  asked for; its error is ignored.
\<close>

definition call_read :: "nat \<Rightarrow> ('s, 'v) RedisMessageQueue \<Rightarrow> ('s, 'v) RedisMessageQueue option" where
  "call_read i m =
     (case sub_pc (subs m ! i) of
        Fetch sid \<Rightarrow> Some (go_to i (if client m = NilClient then Panicked nil_panic else Blocked sid) m)
      | _ \<Rightarrow> None)"

definition end_read :: "('s, 'v) streams \<Rightarrow> nat \<Rightarrow> go_error option \<Rightarrow> ('s, 'v) RedisMessageQueue \<Rightarrow> ('s, 'v) RedisMessageQueue option" where
  "end_read r i fault m =
     (case sub_pc (subs m ! i) of
        Blocked sid \<Rightarrow>
          if client m \<noteq> Live \<or> fault \<noteq> None then Some (go_to i Outer m)
          else (let c = subs m ! i
                in case xread_cmd r (sub_group c) (sub_consumer c) [sub_topic c, sid] (batchSize m) False (server m) of
                     None \<Rightarrow> None
                   | Some (Inl e, s) \<Rightarrow> Some (go_to i Outer (m\<lparr>server := s\<rparr>))
                   | Some (Inr [], s) \<Rightarrow> Some (go_to i (Panicked ''index out of range'') (m\<lparr>server := s\<rparr>))
                   | Some (Inr ((t, xs) # _), s) \<Rightarrow> Some (go_to i (Messages sid xs) (m\<lparr>server := s\<rparr>)))
      | _ \<Rightarrow> None)"

definition end_handler ::
    "nat \<Rightarrow> go_error option \<Rightarrow> ('s, 'v) RedisMessageQueue \<Rightarrow> ('s, 'v) RedisMessageQueue option" where
  "end_handler i err m =
     (case sub_pc (subs m ! i) of
        Handling sid x xs \<Rightarrow>
          Some (go_to i (if err = None then Acking sid x xs else Messages sid xs) (note_entry i (Handled x err) m))
      | _ \<Rightarrow> None)"

definition ack :: "('s, 'v) streams \<Rightarrow> nat \<Rightarrow> ('s, 'v) RedisMessageQueue \<Rightarrow> ('s, 'v) RedisMessageQueue option" where
  "ack r i m =
     (case sub_pc (subs m ! i) of
        Acking sid x xs \<Rightarrow>
          (let c = subs m ! i
           in case on_client (client m) (xack_cmd r (sub_topic c) (sub_group c) (fst x)) (server m) of
                (Panics p, s) \<Rightarrow> Some (go_to i (Panicked p) m)
              | (_, s) \<Rightarrow> Some (go_to i (Messages sid xs) (note_entry i (Acked (fst x)) (m\<lparr>server := s\<rparr>))))
      | _ \<Rightarrow> None)"

section \<open>Close\<close>

definition close_enter :: "('s, 'v) RedisMessageQueue \<Rightarrow> ('s, 'v) RedisMessageQueue option" where
  "close_enter m =
     (if closing m \<noteq> NotClosing then None
      else if client m = NilClient then Some m
      else Some (m\<lparr>closing := Sending\<rparr>))"

definition close_client :: "('s, 'v) RedisMessageQueue \<Rightarrow> ('s, 'v) RedisMessageQueue option" where
  "close_client m = (if closing m = Shutting then Some (m\<lparr>client := Shut, closing := Clearing\<rparr>) else None)"

definition close_finish :: "('s, 'v) RedisMessageQueue \<Rightarrow> ('s, 'v) RedisMessageQueue option" where
  "close_finish m = (if closing m = Clearing then Some (m\<lparr>client := NilClient, closing := NotClosing\<rparr>) else None)"

section \<open>The machine\<close>

text \<open>\<open>OtherClients\<close> is whatever other processes do to the server.\<close>

datatype ('s, 'v) event =
    PublishCall string "(string, 'v) gomap"
  | SubscribeCall "go_error option" string string string
  | TakeSignal nat
  | SeeDone nat
  | GoOn nat
  | CallRead nat
  | EndRead nat "go_error option"
  | EndHandler nat "go_error option"
  | Ack nat
  | Cancel nat
  | CloseEnter
  | CloseClient
  | CloseFinish
  | OtherClients 's

definition cancel :: "nat \<Rightarrow> ('s, 'v) RedisMessageQueue \<Rightarrow> ('s, 'v) RedisMessageQueue option" where
  "cancel i m = Some (m\<lparr>subs := (subs m)[i := (subs m ! i)\<lparr>sub_done := True\<rparr>]\<rparr>)"

definition of_sub :: "nat \<Rightarrow> ('s, 'v) RedisMessageQueue \<Rightarrow> ('s, 'v) RedisMessageQueue option \<Rightarrow> ('s, 'v) RedisMessageQueue option" where
  "of_sub i m next = (if i < length (subs m) then next else None)"

fun mq_step :: "('s, 'v) streams \<Rightarrow> ('s, 'v) event \<Rightarrow> ('s, 'v) RedisMessageQueue \<Rightarrow> ('s, 'v) RedisMessageQueue option" where
  "mq_step r (PublishCall t b) m = Some (snd (Publish r t b m))"
| "mq_step r (SubscribeCall e t g c) m = Some (snd (Subscribe r e t g c m))"
| "mq_step r (TakeSignal i) m = of_sub i m (take_signal i m)"
| "mq_step r (SeeDone i) m = of_sub i m (see_done i m)"
| "mq_step r (GoOn i) m = of_sub i m (go_on i m)"
| "mq_step r (CallRead i) m = of_sub i m (call_read i m)"
| "mq_step r (EndRead i e) m = of_sub i m (end_read r i e m)"
| "mq_step r (EndHandler i e) m = of_sub i m (end_handler i e m)"
| "mq_step r (Ack i) m = of_sub i m (ack r i m)"
| "mq_step r (Cancel i) m = of_sub i m (cancel i m)"
| "mq_step r CloseEnter m = close_enter m"
| "mq_step r CloseClient m = close_client m"
| "mq_step r CloseFinish m = close_finish m"
| "mq_step r (OtherClients s) m = Some (m\<lparr>server := s\<rparr>)"

definition mq_runs :: "('s, 'v) streams \<Rightarrow> ('s, 'v) event list \<Rightarrow> ('s, 'v) RedisMessageQueue \<Rightarrow> ('s, 'v) RedisMessageQueue \<Rightarrow> bool" where
  "mq_runs r es m m' \<longleftrightarrow> fires (mq_step r) es m = Some m'"

lemmas mq_step_defs =
  Publish_def take_signal_def see_done_def go_on_def call_read_def end_read_def
  end_handler_def ack_def cancel_def close_enter_def close_client_def close_finish_def of_sub_def

section \<open>Acknowledgements\<close>

text \<open>A log is in order when every acknowledgement comes right after a successful handler call.\<close>

definition acks_follow :: "'v entry list \<Rightarrow> bool" where
  "acks_follow l \<longleftrightarrow> (\<forall>k < length l. \<forall>sid. l ! k = Acked sid \<longrightarrow> 0 < k \<and> (\<exists>v. l ! (k - 1) = Handled (sid, v) None))"

lemma acks_follow_Nil [simp]: "acks_follow []"
  by (simp add: acks_follow_def)

lemma acks_follow_handled [simp]: "acks_follow (l @ [Handled x e]) \<longleftrightarrow> acks_follow l"
  by (auto simp: acks_follow_def nth_append less_Suc_eq)

lemma acks_follow_acked:
  "acks_follow l \<Longrightarrow> l \<noteq> [] \<Longrightarrow> last l = Handled (n, v) None \<Longrightarrow> acks_follow (l @ [Acked n])"
  by (auto simp: acks_follow_def nth_append less_Suc_eq last_conv_nth)

definition sub_ok :: "'v subscriber \<Rightarrow> bool" where
  "sub_ok c \<longleftrightarrow> acks_follow (sub_log c) \<and>
     (case sub_pc c of Acking sid x xs \<Rightarrow> sub_log c \<noteq> [] \<and> last (sub_log c) = Handled x None | _ \<Rightarrow> True)"

definition subs_ok :: "('s, 'v) RedisMessageQueue \<Rightarrow> bool" where
  "subs_ok m \<longleftrightarrow> (\<forall>c \<in> set (subs m). sub_ok c)"

lemma subs_ok_update: "subs_ok m \<Longrightarrow> sub_ok c \<Longrightarrow> subs_ok (m'\<lparr>subs := (subs m)[i := c]\<rparr>)"
  by (auto simp: subs_ok_def dest!: set_update_subset_insert [THEN subsetD])

lemma sub_ok_done [simp]: "sub_ok (c\<lparr>sub_done := b\<rparr>) = sub_ok c"
  by (simp add: sub_ok_def split: pc.split)

lemma subs_ok_nth: "subs_ok m \<Longrightarrow> i < length (subs m) \<Longrightarrow> sub_ok (subs m ! i)"
  by (simp add: subs_ok_def)

lemma subs_ok_server [simp]: "subs_ok (m\<lparr>server := s\<rparr>) = subs_ok m"
  "subs_ok (m\<lparr>client := c\<rparr>) = subs_ok m" "subs_ok (m\<lparr>closing := k\<rparr>) = subs_ok m"
  by (simp_all add: subs_ok_def)

lemma subs_ok_Subscribe: "subs_ok m \<Longrightarrow> subs_ok (snd (Subscribe r e t g c m))"
  by (auto simp: Subscribe_def Let_def subs_ok_def sub_ok_def split: call.splits go_error.splits option.splits prod.splits)

lemma mq_step_subs_ok:
  assumes "mq_step r e m = Some m'" and "subs_ok m"
  shows "subs_ok m'"
proof -
  have sub: "sub_ok (subs m ! i)" if "i < length (subs m)" for i
    using assms(2) that by (rule subs_ok_nth)
  show ?thesis
  proof (cases e)
    case (SubscribeCall err t g c)
    then show ?thesis using assms subs_ok_Subscribe by auto
  next
    case (EndHandler i err)
    then show ?thesis using assms sub [of i]
      by (auto simp: end_handler_def of_sub_def go_to_def note_entry_def sub_ok_def
            intro!: subs_ok_update split: if_splits pc.splits)
  next
    case (Ack i)
    then show ?thesis using assms sub [of i]
      by (auto simp: ack_def of_sub_def go_to_def note_entry_def sub_ok_def Let_def acks_follow_acked
            intro!: subs_ok_update split: if_splits pc.splits prod.splits call.splits)
  next
    case (Cancel i)
    then show ?thesis using assms sub [of i]
      by (auto simp: cancel_def of_sub_def intro!: subs_ok_update split: if_splits)
  qed (use assms sub in \<open>auto simp: mq_step_defs go_to_def sub_ok_def after_consume_def Let_def
         intro!: subs_ok_update
         split: if_splits pc.splits list.splits option.splits sum.splits prod.splits\<close>)
qed

interpretation acks: step_always "mq_step r" subs_ok
  for r :: "('s, 'v) streams"
  by unfold_locales (rule mq_step_subs_ok)

section \<open>A batch\<close>

text \<open>
  The events with which a goroutine works through a batch when the handler's results are
  \<open>errs\<close>, what it logs, and what the acknowledgements do to the server.
\<close>

fun batch_events :: "nat \<Rightarrow> go_error option list \<Rightarrow> ('s, 'v) event list" where
  "batch_events i [] = [GoOn i]"
| "batch_events i (e # es) = GoOn i # EndHandler i e # (if e = None then [Ack i] else []) @ batch_events i es"

fun batch_log :: "'v message list \<Rightarrow> go_error option list \<Rightarrow> 'v entry list" where
  "batch_log (x # xs) (e # es) = Handled x e # (if e = None then [Acked (fst x)] else []) @ batch_log xs es"
| "batch_log _ _ = []"

fun batch_acks :: "('s, 'v) streams \<Rightarrow> 'v subscriber \<Rightarrow> 'v message list \<Rightarrow> go_error option list \<Rightarrow> 's \<Rightarrow> 's" where
  "batch_acks r c (x # xs) (e # es) s =
     batch_acks r c xs es (if e = None then snd (xack_cmd r (sub_topic c) (sub_group c) (fst x) s) else s)"
| "batch_acks r c _ _ s = s"

definition batch_ready :: "nat \<Rightarrow> ('s, 'v) RedisMessageQueue \<Rightarrow> bool" where
  "batch_ready i m \<longleftrightarrow> i < length (subs m) \<and> client m = Live \<and> closing m \<noteq> Sending \<and> \<not> sub_done (subs m ! i)"

lemma batch_acks_cong:
  "sub_topic c = sub_topic d \<Longrightarrow> sub_group c = sub_group d \<Longrightarrow> batch_acks r c xs es s = batch_acks r d xs es s"
  by (induction r c xs es s rule: batch_acks.induct) auto

lemma ack_live:
  assumes "batch_ready i m" and "sub_pc (subs m ! i) = Acking sid x xs"
  shows "ack r i m = Some (go_to i (Messages sid xs) (note_entry i (Acked (fst x))
     (m\<lparr>server := snd (xack_cmd r (sub_topic (subs m ! i)) (sub_group (subs m ! i)) (fst x) (server m))\<rparr>)))"
  using assms
  by (auto simp: ack_def on_client_def batch_ready_def Let_def split: prod.split call.split)

lemma batch_run:
  assumes "batch_ready i m" and "sub_pc (subs m ! i) = Messages sid xs" and "length errs = length xs"
  shows "fires (mq_step r) (batch_events i errs) m =
     Some (m\<lparr>server := batch_acks r (subs m ! i) xs errs (server m),
             subs := (subs m)[i := (subs m ! i)\<lparr>sub_log := sub_log (subs m ! i) @ batch_log xs errs,
               sub_pc := after_consume sid\<rparr>]\<rparr>)"
  using assms
proof (induction errs arbitrary: m xs)
  case Nil
  then show ?case by (simp add: batch_ready_def of_sub_def go_on_def go_to_def)
next
  case (Cons e errs)
  then obtain x ys where xs: "xs = x # ys" by (cases xs) auto
  define c where "c = subs m ! i"
  define n where "n = m\<lparr>server := (if e = None then snd (xack_cmd r (sub_topic c) (sub_group c) (fst x) (server m)) else server m),
     subs := (subs m)[i := c\<lparr>sub_log := sub_log c @ Handled x e # (if e = None then [Acked (fst x)] else []),
       sub_pc := Messages sid ys\<rparr>]\<rparr>"
  have "fires (mq_step r) (batch_events i (e # errs)) m = fires (mq_step r) (batch_events i errs) n"
    using Cons.prems
    by (auto simp: xs n_def c_def batch_ready_def of_sub_def go_on_def go_to_def end_handler_def note_entry_def ack_live)
  moreover have ready: "batch_ready i n" and here: "sub_pc (subs n ! i) = Messages sid ys"
    using Cons.prems(1) by (simp_all add: n_def c_def batch_ready_def)
  moreover have "batch_acks r (subs n ! i) ys errs (server n) = batch_acks r c xs (e # errs) (server m)"
    using Cons.prems(1) batch_acks_cong [of "subs n ! i" c r ys errs] by (simp add: n_def xs batch_ready_def)
  ultimately show ?case
    using Cons.IH [OF ready here] Cons.prems by (simp add: xs n_def c_def batch_ready_def)
qed

section \<open>Close and its signal\<close>

definition close_ok :: "('s, 'v) RedisMessageQueue \<Rightarrow> bool" where
  "close_ok m \<longleftrightarrow>
     (case closing m of
        NotClosing \<Rightarrow> client m \<noteq> Shut | Sending \<Rightarrow> client m = Live | Shutting \<Rightarrow> client m = Live | Clearing \<Rightarrow> client m = Shut)"

definition stopped :: "('s, 'v) RedisMessageQueue \<Rightarrow> nat \<Rightarrow> bool" where
  "stopped m i \<longleftrightarrow> i < length (subs m) \<and> sub_pc (subs m ! i) = StoppedByClose"

definition one_stopped :: "('s, 'v) RedisMessageQueue \<Rightarrow> bool" where
  "one_stopped m \<longleftrightarrow> close_ok m \<and>
     (if client m = Live \<and> closing m \<in> {NotClosing, Sending} then \<forall>i. \<not> stopped m i
      else \<forall>i j. stopped m i \<longrightarrow> stopped m j \<longrightarrow> i = j)"

lemma stopped_go_to:
  "stopped (go_to i p m) j \<longleftrightarrow> (if i = j then i < length (subs m) \<and> p = StoppedByClose else stopped m j)"
  by (auto simp: stopped_def go_to_def nth_list_update)

lemma stopped_update [simp]:
  "sub_pc c = sub_pc (subs m ! i) \<Longrightarrow> stopped (m\<lparr>subs := (subs m)[i := c]\<rparr>) = stopped m"
  by (cases "i < length (subs m)"; rule ext) (auto simp: stopped_def nth_list_update list_update_beyond)

lemma stopped_simps [simp]:
  "stopped (m\<lparr>server := s\<rparr>) = stopped m" "stopped (m\<lparr>client := c\<rparr>) = stopped m"
  "stopped (m\<lparr>closing := k\<rparr>) = stopped m" "stopped (note_entry i x m) = stopped m"
  by (simp_all add: note_entry_def) (simp_all add: stopped_def [abs_def])

lemma close_ok_cong: "client m = client n \<Longrightarrow> closing m = closing n \<Longrightarrow> close_ok m = close_ok n"
  unfolding close_ok_def by presburger

lemma go_to_fields [simp]:
  "client (go_to i p m) = client m" "closing (go_to i p m) = closing m" "server (go_to i p m) = server m"
  "client (note_entry i x m) = client m" "closing (note_entry i x m) = closing m" "server (note_entry i x m) = server m"
  by (simp_all add: go_to_def note_entry_def)

lemma Subscribe_fields:
  "client (snd (Subscribe r e t g c m)) = client m \<and> closing (snd (Subscribe r e t g c m)) = closing m
   \<and> (\<forall>i < length (subs m). subs (snd (Subscribe r e t g c m)) ! i = subs m ! i)
   \<and> length (subs m) \<le> length (subs (snd (Subscribe r e t g c m)))
   \<and> stopped (snd (Subscribe r e t g c m)) = stopped m"
  by (auto simp: Subscribe_def Let_def stopped_def fun_eq_iff nth_append less_Suc_eq
        split: call.split go_error.split option.split prod.split)

lemma stopped_go_to_same [simp]:
  "p \<noteq> StoppedByClose \<Longrightarrow> sub_pc (subs m ! i) \<noteq> StoppedByClose \<Longrightarrow> stopped (go_to i p m) = stopped m"
  by (rule ext, unfold stopped_go_to) (auto simp: stopped_def)

lemma after_consume_going [simp]: "after_consume sid \<noteq> StoppedByClose" "after_consume sid \<noteq> StoppedByContext"
  by (simp_all add: after_consume_def)

lemma note_entry_pc [simp]: "i < length (subs m) \<Longrightarrow> sub_pc (subs (note_entry j x m) ! i) = sub_pc (subs m ! i)"
  by (cases "i = j") (simp_all add: note_entry_def)

fun quiet :: "('s, 'v) event \<Rightarrow> bool" where
  "quiet (TakeSignal i) = False"
| "quiet CloseEnter = False"
| "quiet CloseClient = False"
| "quiet CloseFinish = False"
| "quiet _ = True"

lemma quiet_step:
  assumes "mq_step r e m = Some m'" and "quiet e"
  shows "client m' = client m \<and> closing m' = closing m \<and> stopped m' = stopped m"
proof (cases e)
  case (SubscribeCall err t g c)
  then show ?thesis using assms Subscribe_fields [of r err t g c m] by auto
next
  case (EndRead i f)
  then show ?thesis using assms
    by (auto simp: of_sub_def end_read_def Let_def split: if_splits pc.splits option.splits prod.splits sum.splits list.splits)
next
  case (Ack i)
  then show ?thesis using assms
    by (auto simp: of_sub_def ack_def Let_def split: if_splits pc.splits prod.splits call.splits)
qed (use assms in \<open>auto simp: of_sub_def Publish_def see_done_def go_on_def call_read_def end_handler_def cancel_def
       split: if_splits pc.splits list.splits prod.splits\<close>)

lemma one_stopped_cong:
  "client m = client n \<Longrightarrow> closing m = closing n \<Longrightarrow> stopped m = stopped n \<Longrightarrow> one_stopped m = one_stopped n"
  using close_ok_cong [of m n] by (auto simp: one_stopped_def)

lemma mq_step_one_stopped:
  assumes "mq_step r e m = Some m'" and "one_stopped m"
  shows "one_stopped m'"
proof (cases e)
  case (TakeSignal i)
  then show ?thesis using assms
    by (auto simp: of_sub_def take_signal_def one_stopped_def close_ok_def stopped_go_to split: if_splits pc.splits list.splits)
next
  case CloseEnter
  then show ?thesis using assms
    by (cases "client m") (auto simp: close_enter_def one_stopped_def close_ok_def split: if_splits)
next
  case CloseClient
  then show ?thesis using assms by (auto simp: close_client_def one_stopped_def close_ok_def split: if_splits)
next
  case CloseFinish
  then show ?thesis using assms by (auto simp: close_finish_def one_stopped_def close_ok_def split: if_splits)
qed (use assms quiet_step [OF assms(1)] one_stopped_cong [of m' m] in auto)

interpretation signal: step_always "mq_step r" one_stopped
  for r :: "('s, 'v) streams"
  by unfold_locales (rule mq_step_one_stopped)

section \<open>Subscribers left behind\<close>

definition left_behind :: "nat \<Rightarrow> ('s, 'v) RedisMessageQueue \<Rightarrow> bool" where
  "left_behind i m \<longleftrightarrow> client m = NilClient \<and> closing m = NotClosing \<and> i < length (subs m) \<and>
     \<not> sub_done (subs m ! i) \<and> sub_pc (subs m ! i) \<notin> {StoppedByClose, StoppedByContext}"

lemma go_to_nth:
  "i < length (subs m) \<Longrightarrow> subs (go_to j p m) ! i = (if i = j then (subs m ! i)\<lparr>sub_pc := p\<rparr> else subs m ! i)"
  by (simp add: go_to_def)

lemma note_entry_done [simp]: "i < length (subs m) \<Longrightarrow> sub_done (subs (note_entry j x m) ! i) = sub_done (subs m ! i)"
  by (cases "i = j") (simp_all add: note_entry_def)

lemma length_subs [simp]:
  "length (subs (go_to i p m)) = length (subs m)" "length (subs (note_entry i x m)) = length (subs m)"
  by (simp_all add: go_to_def note_entry_def)

lemma left_behind_go_to:
  "left_behind i m \<Longrightarrow> p \<notin> {StoppedByClose, StoppedByContext} \<Longrightarrow> left_behind i (go_to j p m)"
  by (auto simp: left_behind_def go_to_nth)

lemma left_behind_note [simp]: "left_behind i (note_entry j x m) = left_behind i m"
  by (auto simp: left_behind_def)

lemma left_behind_server [simp]: "left_behind i (m\<lparr>server := s\<rparr>) = left_behind i m"
  by (simp add: left_behind_def)

lemma left_behind_step:
  assumes "mq_step r e m = Some m'" and "e \<noteq> Cancel i" and "left_behind i m"
  shows "left_behind i m'"
proof (cases e)
  case (SubscribeCall err t g c)
  then show ?thesis using assms Subscribe_fields [of r err t g c m] by (auto simp: left_behind_def)
next
  case (SeeDone j)
  then show ?thesis using assms
    by (cases "i = j") (auto simp: of_sub_def see_done_def left_behind_def go_to_nth split: if_splits pc.splits list.splits)
next
  case (Cancel j)
  then show ?thesis using assms by (auto simp: of_sub_def cancel_def left_behind_def split: if_splits)
next
  case (EndRead j f)
  then show ?thesis using assms
    by (auto simp: of_sub_def end_read_def left_behind_def go_to_nth split: if_splits pc.splits)
next
  case (Ack j)
  then show ?thesis using assms
    by (auto simp: of_sub_def ack_def Let_def intro!: left_behind_go_to split: if_splits pc.splits prod.splits call.splits)
qed (use assms in \<open>auto simp: of_sub_def Publish_def go_on_def call_read_def end_handler_def take_signal_def
       close_enter_def close_client_def close_finish_def intro!: left_behind_go_to
       split: if_splits pc.splits list.splits prod.splits,
     auto simp: left_behind_def\<close>)

interpretation behind: step_invariant "mq_step r" "\<lambda>e. e \<noteq> Cancel i" "left_behind i"
  for r :: "('s, 'v) streams" and i
  by unfold_locales (rule left_behind_step)

text \<open>The way from every point of the goroutine to its next use of the client.\<close>

definition panics_next :: "('s, 'v) streams \<Rightarrow> nat \<Rightarrow> ('s, 'v) RedisMessageQueue \<Rightarrow> bool" where
  "panics_next r i m \<longleftrightarrow> (\<exists>es m'. fires (mq_step r) es m = Some m' \<and> sub_pc (subs m' ! i) = Panicked nil_panic)"

lemma panics_next_step: "mq_step r e m = Some n \<Longrightarrow> panics_next r i n \<Longrightarrow> panics_next r i m"
  unfolding panics_next_def by (metis fires.simps(2) option.simps(5))

lemma fetch_panics:
  assumes "left_behind i m" and "sub_pc (subs m ! i) = Fetch sid"
  shows "panics_next r i m"
  unfolding panics_next_def using assms
  by (intro exI [of _ "[CallRead i]"]) (simp add: left_behind_def of_sub_def call_read_def go_to_nth)

lemma outer_panics:
  assumes "left_behind i m" and "sub_pc (subs m ! i) = Outer"
  shows "panics_next r i m"
proof (rule panics_next_step)
  show "mq_step r (GoOn i) m = Some (go_to i (Fetch ''>'') m)"
    using assms by (simp add: left_behind_def of_sub_def go_on_def)
  show "panics_next r i (go_to i (Fetch ''>'') m)"
    using assms by (intro fetch_panics left_behind_go_to) (simp_all add: left_behind_def go_to_nth)
qed

lemma acking_panics:
  assumes "left_behind i m" and "sub_pc (subs m ! i) = Acking sid x xs"
  shows "panics_next r i m"
  unfolding panics_next_def using assms
  by (intro exI [of _ "[Ack i]"]) (simp add: left_behind_def of_sub_def ack_def on_client_def Let_def go_to_nth)

lemma handling_panics:
  assumes "left_behind i m" and "sub_pc (subs m ! i) = Handling sid x xs"
  shows "panics_next r i m"
proof (rule panics_next_step)
  show "mq_step r (EndHandler i None) m = Some (go_to i (Acking sid x xs) (note_entry i (Handled x None) m))"
    using assms by (simp add: left_behind_def of_sub_def end_handler_def)
  show "panics_next r i (go_to i (Acking sid x xs) (note_entry i (Handled x None) m))"
    using assms by (intro acking_panics left_behind_go_to) (simp_all add: left_behind_def go_to_nth)
qed

lemma messages_panic:
  assumes "left_behind i m" and "sub_pc (subs m ! i) = Messages sid xs"
  shows "panics_next r i m"
proof (cases xs)
  case Nil
  define n where "n = go_to i (after_consume sid) m"
  have "mq_step r (GoOn i) m = Some n"
    using assms Nil by (simp add: left_behind_def of_sub_def go_on_def n_def)
  moreover have "left_behind i n" using assms(1) by (simp add: n_def left_behind_go_to)
  then have "panics_next r i n"
    using assms(1) by (cases "sid = ''>''")
      (auto simp: n_def left_behind_def go_to_nth after_consume_def intro: fetch_panics outer_panics)
  ultimately show ?thesis by (rule panics_next_step)
next
  case (Cons x ys)
  show ?thesis
  proof (rule panics_next_step)
    show "mq_step r (GoOn i) m = Some (go_to i (Handling sid x ys) m)"
      using assms Cons by (simp add: left_behind_def of_sub_def go_on_def)
    show "panics_next r i (go_to i (Handling sid x ys) m)"
      using assms by (intro handling_panics left_behind_go_to) (simp_all add: left_behind_def go_to_nth)
  qed
qed

lemma blocked_panics:
  assumes "left_behind i m" and "sub_pc (subs m ! i) = Blocked sid"
  shows "panics_next r i m"
proof (rule panics_next_step)
  show "mq_step r (EndRead i None) m = Some (go_to i Outer m)"
    using assms by (simp add: left_behind_def of_sub_def end_read_def)
  show "panics_next r i (go_to i Outer m)"
    using assms by (intro outer_panics left_behind_go_to) (simp_all add: left_behind_def go_to_nth)
qed

lemma left_behind_panics:
  assumes "left_behind i m" and "\<forall>p. sub_pc (subs m ! i) \<noteq> Panicked p"
  shows "panics_next r i m"
  using assms
  by (cases "sub_pc (subs m ! i)")
    (auto simp: left_behind_def intro: outer_panics fetch_panics blocked_panics messages_panic handling_panics acking_panics)

lemma nil_client_left_behind:
  "one_stopped m \<Longrightarrow> client m = NilClient \<Longrightarrow> i < length (subs m) \<Longrightarrow> \<not> sub_done (subs m ! i) \<Longrightarrow>
   \<not> stopped m i \<Longrightarrow> sub_pc (subs m ! i) \<noteq> StoppedByContext \<Longrightarrow> left_behind i m"
  by (auto simp: one_stopped_def close_ok_def left_behind_def stopped_def split: closing.splits)

section \<open>Close without a listener\<close>

fun ended :: "'v pc \<Rightarrow> bool" where
  "ended StoppedByClose = True"
| "ended StoppedByContext = True"
| "ended (Panicked p) = True"
| "ended _ = False"

fun subscribing :: "('s, 'v) event \<Rightarrow> bool" where
  "subscribing (SubscribeCall e t g c) = True"
| "subscribing _ = False"

definition close_stuck :: "client \<Rightarrow> ('s, 'v) RedisMessageQueue \<Rightarrow> bool" where
  "close_stuck k m \<longleftrightarrow> closing m = Sending \<and> client m = k \<and> (\<forall>c \<in> set (subs m). ended (sub_pc c))"

lemma close_stuck_nth: "close_stuck k m \<Longrightarrow> i < length (subs m) \<Longrightarrow> ended (sub_pc (subs m ! i))"
  by (simp add: close_stuck_def)

lemma ended_no_step:
  assumes "ended (sub_pc (subs m ! i))"
  shows "take_signal i m = None" "see_done i m = None" "go_on i m = None" "call_read i m = None"
    "end_read r i f m = None" "end_handler i err m = None" "ack r i m = None"
  using assms
  by (cases "sub_pc (subs m ! i)";
      simp add: take_signal_def see_done_def go_on_def call_read_def end_read_def end_handler_def ack_def)+

lemma close_stuck_step:
  assumes "mq_step r e m = Some m'" and "\<not> subscribing e" and "close_stuck k m"
  shows "close_stuck k m'"
proof (cases e)
  case (Cancel i)
  then show ?thesis using assms close_stuck_nth [OF assms(3), of i]
    by (auto simp: of_sub_def cancel_def close_stuck_def dest!: set_update_subset_insert [THEN subsetD] split: if_splits)
next
  case (PublishCall t b)
  then show ?thesis using assms by (auto simp: Publish_def close_stuck_def split: prod.splits)
next
  case CloseEnter
  then show ?thesis using assms by (auto simp: close_enter_def close_stuck_def)
next
  case CloseClient
  then show ?thesis using assms by (auto simp: close_client_def close_stuck_def)
next
  case CloseFinish
  then show ?thesis using assms by (auto simp: close_finish_def close_stuck_def)
next
  case (OtherClients s)
  then show ?thesis using assms by (auto simp: close_stuck_def)
qed (use assms close_stuck_nth [OF assms(3)] in \<open>auto simp: of_sub_def ended_no_step split: if_splits\<close>)

interpretation stuck: step_invariant "mq_step r" "\<lambda>e. \<not> subscribing e" "close_stuck k"
  for r :: "('s, 'v) streams" and k
  by unfold_locales (rule close_stuck_step)

section \<open>Properties\<close>

text \<open>A stream server with one stream, for the examples: its state is the messages not yet delivered.\<close>

definition one_stream :: "(nat message list, nat) streams" where
  "one_stream =
     \<lparr>xadd_cmd = (\<lambda>t mx approx sid body s. (Inr ''1-0'', s @ [(''1-0'', body)])),
      xgroup_cmd = (\<lambda>t g start s. (Inr ''OK'', s)),
      xack_cmd = (\<lambda>t g sid s. (Inr 1, s)),
      xread_cmd = (\<lambda>g c ids n noAck s.
        if ids ! 1 = ''>'' then if s = [] then None else Some (Inr [(ids ! 0, s)], [])
        else Some (Inr [(ids ! 0, [])], s))\<rparr>"

definition new_queue :: "nat message list \<Rightarrow> (nat message list, nat) RedisMessageQueue" where
  "new_queue s = \<lparr>server = s, client = Live, xaddMaxLen = 100, batchSize = 10, closing = NotClosing, subs = []\<rparr>"

definition get_batch :: "nat \<Rightarrow> (nat message list, nat) event list" where
  "get_batch i = [GoOn i, CallRead i, EndRead i None]"

lemmas mq_eval =
  mq_runs_def one_stream_def new_queue_def get_batch_def mq_step_defs Subscribe_def on_client_def go_to_def
  note_entry_def after_consume_def Let_def

text \<open>
  C13: A goroutine that works through a batch without being interrupted hands every message to
  the handler once and in order, acknowledges exactly those the handler accepted, and ends
  \<open>consume\<close> without an error.
\<close>

theorem mq_batch_handled:
  assumes "batch_ready i m" and "sub_pc (subs m ! i) = Messages sid xs" and "length errs = length xs"
  shows "mq_runs r (batch_events i errs) m
     (m\<lparr>server := batch_acks r (subs m ! i) xs errs (server m),
        subs := (subs m)[i := (subs m ! i)\<lparr>sub_log := sub_log (subs m ! i) @ batch_log xs errs,
          sub_pc := after_consume sid\<rparr>]\<rparr>)"
  unfolding mq_runs_def using assms by (rule batch_run)

theorem mq_batch_handled_witness:
  "\<exists>m. mq_runs one_stream (SubscribeCall None ''t'' ''g'' ''c'' # get_batch 0) (new_queue [(''1-0'', []), (''2-0'', [])]) m \<and>
     mq_runs one_stream (batch_events 0 [Some (Err ''busy''), None]) m
       (m\<lparr>server := [], subs := [(subs m ! 0)\<lparr>sub_pc := Fetch ''0'',
          sub_log := [Handled (''1-0'', []) (Some (Err ''busy'')), Handled (''2-0'', []) None, Acked ''2-0'']\<rparr>]\<rparr>)"
proof -
  define m where "m = (new_queue [])\<lparr>subs := [\<lparr>sub_topic = ''t'', sub_group = ''g'', sub_consumer = ''c'', sub_done = False,
     sub_pc = Messages ''>'' [(''1-0'', []), (''2-0'', [])], sub_log = []\<rparr>]\<rparr>"
  have "mq_runs one_stream (SubscribeCall None ''t'' ''g'' ''c'' # get_batch 0) (new_queue [(''1-0'', []), (''2-0'', [])]) m"
    unfolding m_def by code_simp
  moreover have "batch_ready 0 m" "sub_pc (subs m ! 0) = Messages ''>'' [(''1-0'', []), (''2-0'', [])]"
    by (simp_all add: m_def batch_ready_def new_queue_def)
  note mq_batch_handled [OF this, of "[Some (Err ''busy''), None]" one_stream]
  ultimately show ?thesis
    by (intro exI [of _ m]) (simp add: m_def new_queue_def after_consume_def one_stream_def)
qed

text \<open>
  C7: In every run of a queue a subscriber acknowledges a message only right after the handler
  accepted that very message, so a message whose handler failed stays pending.
\<close>

theorem mq_acks_follow_success:
  assumes "NewRedisMessageQueue None mx b s = Inr q" and "mq_runs r es q m" and "c \<in> set (subs m)"
  shows "acks_follow (sub_log c)"
proof -
  have "subs_ok q" using assms(1) by (auto simp: NewRedisMessageQueue_def subs_ok_def)
  with assms(2) have "subs_ok m" using acks.run_always [of r es q m] by (simp add: mq_runs_def)
  with assms(3) show ?thesis by (simp add: subs_ok_def sub_ok_def)
qed

theorem mq_acks_follow_success_witness:
  "\<exists>m. NewRedisMessageQueue None 100 10 [] = Inr (new_queue []) \<and>
     mq_runs one_stream (PublishCall ''t'' [] # SubscribeCall None ''t'' ''g'' ''c'' # get_batch 0 @ batch_events 0 [None]) (new_queue []) m \<and>
     sub_log (subs m ! 0) = [Handled (''1-0'', []) None, Acked ''1-0''] \<and> acks_follow (sub_log (subs m ! 0))"
proof -
  define m where "m = (new_queue [])\<lparr>subs := [\<lparr>sub_topic = ''t'', sub_group = ''g'', sub_consumer = ''c'', sub_done = False,
     sub_pc = Fetch ''0'', sub_log = [Handled (''1-0'', []) None, Acked ''1-0'']\<rparr>]\<rparr>"
  have new: "NewRedisMessageQueue None 100 10 [] = Inr (new_queue [])"
    by (simp add: NewRedisMessageQueue_def new_queue_def)
  have run: "mq_runs one_stream (PublishCall ''t'' [] # SubscribeCall None ''t'' ''g'' ''c'' # get_batch 0 @ batch_events 0 [None]) (new_queue []) m"
    unfolding m_def by code_simp
  have "acks_follow (sub_log (subs m ! 0))"
    using mq_acks_follow_success [OF new run, of "subs m ! 0"] by (simp add: m_def)
  with new run show ?thesis by (intro exI [of _ m]) (simp add: m_def)
qed

text \<open>
  C18: However many subscribers there are, \<open>Close\<close> stops at most one. Any other one whose
  context is not cancelled is still there after \<open>Close\<close> has returned, does not end in any
  continuation in which its context is not cancelled, and, unless it panicked before, comes to
  use the nil client and panics. A subscriber that takes the signal inside \<open>consume\<close> is one of them.
\<close>

theorem mq_close_leaves_subscribers:
  assumes "NewRedisMessageQueue None mx b s = Inr q" and "mq_runs r es q m" and "client m = NilClient"
    and "i < length (subs m)" and "\<not> sub_done (subs m ! i)" and "\<not> stopped m i" and "sub_pc (subs m ! i) \<noteq> StoppedByContext"
  shows "(\<forall>j k. stopped m j \<longrightarrow> stopped m k \<longrightarrow> j = k) \<and>
    (\<forall>fs n. mq_runs r fs m n \<longrightarrow> Cancel i \<notin> set fs \<longrightarrow> sub_pc (subs n ! i) \<notin> {StoppedByClose, StoppedByContext}) \<and>
    ((\<forall>p. sub_pc (subs m ! i) \<noteq> Panicked p) \<longrightarrow> (\<exists>fs n. mq_runs r fs m n \<and> sub_pc (subs n ! i) = Panicked nil_panic))"
proof (intro conjI)
  have "one_stopped q" using assms(1) by (auto simp: NewRedisMessageQueue_def one_stopped_def close_ok_def stopped_def)
  then have one: "one_stopped m"
    using assms(2) signal.run_always [of r es q m] by (simp add: mq_runs_def)
  then show "\<forall>j k. stopped m j \<longrightarrow> stopped m k \<longrightarrow> j = k" by (auto simp: one_stopped_def split: if_splits)
  have behind: "left_behind i m" using one assms(3-7) by (intro nil_client_left_behind)
  then have "left_behind i n" if "mq_runs r fs m n" "Cancel i \<notin> set fs" for fs n
    using that behind.run_keeps [of r fs m n i] by (auto simp: mq_runs_def list_all_iff)
  then show "\<forall>fs n. mq_runs r fs m n \<longrightarrow> Cancel i \<notin> set fs \<longrightarrow> sub_pc (subs n ! i) \<notin> {StoppedByClose, StoppedByContext}"
    by (auto simp: left_behind_def)
  show "(\<forall>p. sub_pc (subs m ! i) \<noteq> Panicked p) \<longrightarrow> (\<exists>fs n. mq_runs r fs m n \<and> sub_pc (subs n ! i) = Panicked nil_panic)"
    using left_behind_panics [OF behind, of r] by (simp add: panics_next_def mq_runs_def)
qed

text \<open>In the example the only subscriber takes the signal between two messages of a batch.\<close>

theorem mq_close_leaves_subscribers_witness:
  "\<exists>m. mq_runs one_stream (SubscribeCall None ''t'' ''g'' ''c'' # get_batch 0 @
        [CloseEnter, TakeSignal 0, CloseClient, CloseFinish]) (new_queue [(''1-0'', [])]) m \<and>
     (\<exists>fs n. mq_runs one_stream fs m n \<and> sub_pc (subs n ! 0) = Panicked nil_panic)"
proof -
  define m where "m = (new_queue [])\<lparr>client := NilClient, subs := [\<lparr>sub_topic = ''t'', sub_group = ''g'', sub_consumer = ''c'',
     sub_done = False, sub_pc = Fetch ''0'', sub_log = []\<rparr>]\<rparr>"
  have new: "NewRedisMessageQueue None 100 10 [(''1-0'', [])] = Inr (new_queue [(''1-0'', [])])"
    by (simp add: NewRedisMessageQueue_def new_queue_def)
  have run: "mq_runs one_stream (SubscribeCall None ''t'' ''g'' ''c'' # get_batch 0 @
        [CloseEnter, TakeSignal 0, CloseClient, CloseFinish]) (new_queue [(''1-0'', [])]) m"
    unfolding m_def by code_simp
  have "\<exists>fs n. mq_runs one_stream fs m n \<and> sub_pc (subs n ! 0) = Panicked nil_panic"
    using mq_close_leaves_subscribers [OF new run, of 0] by (simp add: m_def stopped_def)
  with run show ?thesis by blast
qed

text \<open>
  When no subscriber is left, \<open>Close\<close> never returns: it waits to send its signal, with the
  mutex held, for as long as nobody subscribes.
\<close>

lemma mq_close_waits:
  assumes "client m \<noteq> NilClient" and "\<forall>c \<in> set (subs m). ended (sub_pc c)"
    and "mq_runs r (CloseEnter # es) m n" and "\<forall>e \<in> set es. \<not> subscribing e"
  shows "closing n = Sending \<and> client n = client m"
proof -
  obtain u where u: "close_enter m = Some u" "fires (mq_step r) es u = Some n"
    using assms(3) by (auto simp: mq_runs_def split: option.splits)
  then have "close_stuck (client m) u"
    using assms(1,2) by (auto simp: close_enter_def close_stuck_def split: if_splits)
  then have "close_stuck (client m) n"
    using u(2) assms(4) stuck.run_keeps [of r es u n "client m"] by (auto simp: list_all_iff)
  then show ?thesis by (simp add: close_stuck_def)
qed

end
