(* ===== verification/Calendar.thy ===== *)
theory Calendar
  imports Complex_Main Texts "HOL-Library.Log_Nat" "HOL-Library.Signed_Division"
begin

text \<open>
  What \<^verbatim>\<open>time.go\<close> uses of the package \<^verbatim>\<open>time\<close>: the civil calendar, instants with a location,
  \<^verbatim>\<open>time.Date\<close> with its normalisation, durations and the floating point behind
  \<^verbatim>\<open>Duration.Hours\<close>. A location is the function that finds the offset in force at an instant
  and the interval in which it is in force.
\<close>

section \<open>Days and civil dates\<close>

definition leap :: "int \<Rightarrow> bool" where
  "leap y \<longleftrightarrow> y mod 4 = 0 \<and> (y mod 100 \<noteq> 0 \<or> y mod 400 = 0)"

definition month_days :: "int \<Rightarrow> int \<Rightarrow> int" where
  "month_days y m = (if m = 2 then if leap y then 29 else 28 else if m \<in> {4, 6, 9, 11} then 30 else 31)"

definition year_days :: "int \<Rightarrow> int" where
  "year_days y = (if leap y then 366 else 365)"

text \<open>Days from 1 January of the year 1 to 1 January of year \<open>y\<close>.\<close>

definition days_before_year :: "int \<Rightarrow> int" where
  "days_before_year y = (let n = y - 1 in 365 * n + n div 4 - n div 100 + n div 400)"

definition days_before_month :: "int \<Rightarrow> int \<Rightarrow> int" where
  "days_before_month y m = sum_list (map (month_days y) [1..m - 1])"

definition days_of_date :: "int \<Rightarrow> int \<Rightarrow> int \<Rightarrow> int" where
  "days_of_date y m d = days_before_year y + days_before_month y m + (d - 1)"

text \<open>The year of a day: an estimate from the mean length of a year, which is off by one at most.\<close>

definition year_of_day :: "int \<Rightarrow> int" where
  "year_of_day n =
     (let y = (400 * n) div 146097 + 1
      in if n < days_before_year y then y - 1 else if days_before_year (y + 1) \<le> n then y + 1 else y)"

fun month_loop :: "int \<Rightarrow> int \<Rightarrow> nat \<Rightarrow> int \<Rightarrow> int \<times> int" where
  "month_loop y m 0 d = (m, d + 1)"
| "month_loop y m (Suc k) d = (if d < month_days y m then (m, d + 1) else month_loop y (m + 1) k (d - month_days y m))"

definition civil :: "int \<Rightarrow> int \<times> int \<times> int" where
  "civil n = (let y = year_of_day n; (m, d) = month_loop y 1 11 (n - days_before_year y) in (y, m, d))"

definition valid_date :: "int \<Rightarrow> int \<Rightarrow> int \<Rightarrow> bool" where
  "valid_date y m d \<longleftrightarrow> 1 \<le> m \<and> m \<le> 12 \<and> 1 \<le> d \<and> d \<le> month_days y m"

lemma month_days_pos: "28 \<le> month_days y m" "month_days y m \<le> 31"
  by (simp_all add: month_days_def)

lemma div_pred:
  assumes "0 < (k :: int)"
  shows "y div k = (y - 1) div k + (if k dvd y then 1 else 0)"
proof (cases "k dvd y")
  case True
  then obtain p where p: "y = k * p" ..
  have "(y - 1) div k = p - 1"
    using assms by (intro int_div_pos_eq [where r = "k - 1"]) (simp_all add: p algebra_simps)
  then show ?thesis using True assms by (simp add: p)
next
  case False
  then have "0 < y mod k" using assms pos_mod_sign [of k y] by (simp add: dvd_eq_mod_eq_0 le_less)
  moreover have "y = k * (y div k) + y mod k" by simp
  ultimately have "(y - 1) div k = y div k"
    using assms pos_mod_bound [of k y] by (intro int_div_pos_eq [where r = "y mod k - 1"]) linarith+
  then show ?thesis using False by simp
qed

lemma leap_dvd: "leap y \<longleftrightarrow> 4 dvd y \<and> (\<not> 100 dvd y \<or> 400 dvd y)"
  by (simp add: leap_def dvd_eq_mod_eq_0)

lemma days_before_year_next: "days_before_year (y + 1) = days_before_year y + year_days y"
proof -
  define a b c where "a = (y - 1) div 4" and "b = (y - 1) div 100" and "c = (y - 1) div 400"
  have now: "days_before_year y = 365 * (y - 1) + a - b + c"
    by (simp add: days_before_year_def a_def b_def c_def Let_def)
  have nxt: "days_before_year (y + 1) = 365 * y + y div 4 - y div 100 + y div 400"
    by (simp add: days_before_year_def)
  have d: "y div 4 = a + (if 4 dvd y then 1 else 0)" "y div 100 = b + (if 100 dvd y then 1 else 0)"
    "y div 400 = c + (if 400 dvd y then 1 else 0)"
    unfolding a_def b_def c_def by (rule div_pred, simp)+
  have i: "400 dvd y \<longrightarrow> 100 dvd y" "100 dvd y \<longrightarrow> 4 dvd y"
    using dvd_trans [of 100 400 y] dvd_trans [of 4 100 y] by simp_all
  define p q r where "p \<longleftrightarrow> 4 dvd y" and "q \<longleftrightarrow> 100 dvd y" and "r \<longleftrightarrow> 400 dvd y"
  show ?thesis
    using i unfolding now nxt d year_days_def leap_dvd p_def [symmetric] q_def [symmetric] r_def [symmetric]
    by (cases p; cases q; cases r) simp_all
qed

lemma div_bounds: "0 < (k :: int) \<Longrightarrow> k * (n div k) \<le> n \<and> n < k * (n div k) + k"
  using pos_mod_bound [of k n] pos_mod_sign [of k n] mult_div_mod_eq [of k n] by linarith

lemma days_before_year_mean:
  "400 * days_before_year y \<le> 146097 * (y - 1) + 396" "146097 * (y - 1) - 699 \<le> 400 * days_before_year y"
  using div_bounds [of 4 "y - 1"] div_bounds [of 100 "y - 1"] div_bounds [of 400 "y - 1"]
  by (simp_all add: days_before_year_def Let_def)

lemma year_of_day_bounds: "days_before_year (year_of_day n) \<le> n \<and> n < days_before_year (year_of_day n + 1)"
proof -
  define y where "y = (400 * n) div 146097 + 1"
  have "146097 * (y - 1) \<le> 400 * n" "400 * n < 146097 * y"
    using div_bounds [of 146097 "400 * n"] by (simp_all add: y_def)
  then show ?thesis
    using days_before_year_mean [of "y - 1"] days_before_year_mean [of "y + 2"] days_before_year_mean [of y]
      days_before_year_mean [of "y + 1"]
    unfolding year_of_day_def y_def [symmetric] Let_def
    by (auto simp: algebra_simps)
qed

lemma days_before_year_mono: "y < z \<Longrightarrow> days_before_year y + 365 \<le> days_before_year z"
proof (induction z rule: int_gr_induct [consumes 1])
  case base
  then show ?case by (simp add: days_before_year_next year_days_def)
next
  case (step i)
  then show ?case by (simp add: days_before_year_next year_days_def)
qed

lemma year_of_day_unique:
  assumes "days_before_year y \<le> n" and "n < days_before_year (y + 1)"
  shows "year_of_day n = y"
  using assms year_of_day_bounds [of n] days_before_year_mono [of y "year_of_day n"]
    days_before_year_mono [of "year_of_day n" y] days_before_year_mono [of "y + 1" "year_of_day n"]
    days_before_year_mono [of "year_of_day n + 1" y]
  by (cases "year_of_day n = y"; cases "year_of_day n < y"; cases "y + 1 = year_of_day n"; cases "year_of_day n + 1 = y") auto

section \<open>Months\<close>

lemma upto_split: "m \<le> i \<Longrightarrow> [m..i] = m # [m + 1..i]"
  by (simp add: upto_rec1)

lemma month_loop_correct:
  assumes "month_loop y m k d = (m', d')" and "0 \<le> d" and "d < sum_list (map (month_days y) [m..m + int k])"
  shows "m \<le> m' \<and> m' \<le> m + int k \<and> 1 \<le> d' \<and> d' \<le> month_days y m' \<and>
    d = sum_list (map (month_days y) [m..m' - 1]) + d' - 1"
  using assms
proof (induction k arbitrary: m d)
  case 0
  then show ?case by (auto simp: upto_split)
next
  case (Suc k)
  show ?case
  proof (cases "d < month_days y m")
    case True
    then show ?thesis using Suc.prems by auto
  next
    case False
    then have "m + 1 \<le> m' \<and> m' \<le> m + 1 + int k \<and> 1 \<le> d' \<and> d' \<le> month_days y m' \<and>
       d - month_days y m = sum_list (map (month_days y) [m + 1..m' - 1]) + d' - 1"
      using Suc.prems by (intro Suc.IH) (auto simp: upto_split [of m] add.assoc)
    then show ?thesis using False by (auto simp: upto_split [of m])
  qed
qed

lemma days_before_month_next: "1 \<le> m \<Longrightarrow> days_before_month y (m + 1) = days_before_month y m + month_days y m"
  by (simp add: days_before_month_def upto_rec2)

lemma days_before_month_mono: "m < m' \<Longrightarrow> 1 \<le> m \<Longrightarrow> days_before_month y m + month_days y m \<le> days_before_month y m'"
proof (induction m' rule: int_gr_induct [consumes 1])
  case base
  then show ?case by (simp add: days_before_month_next)
next
  case (step i)
  then show ?case using days_before_month_next [of i y] month_days_pos(1) [of y i] by simp
qed

lemma days_before_month_year: "days_before_month y 13 = year_days y" "days_before_month y 1 = 0"
  by (simp_all add: days_before_month_def year_days_def month_days_def upto_rec1)

lemma civil_valid:
  assumes "civil n = (y, m, d)"
  shows "valid_date y m d \<and> days_of_date y m d = n"
proof -
  define k where "k = n - days_before_year y"
  have y: "y = year_of_day n" and l: "month_loop y 1 11 k = (m, d)"
    using assms by (auto simp: civil_def k_def Let_def split: prod.splits)
  have "0 \<le> k" "k < days_before_month y 13"
    using year_of_day_bounds [of n] by (simp_all add: k_def y days_before_month_year days_before_year_next)
  with month_loop_correct [OF l] show ?thesis
    by (auto simp: days_before_month_def valid_date_def days_of_date_def k_def)
qed

lemma civil_days_of_date:
  assumes "valid_date y m d"
  shows "civil (days_of_date y m d) = (y, m, d)"
proof -
  obtain y' m' d' where c: "civil (days_of_date y m d) = (y', m', d')" by (cases "civil (days_of_date y m d)") auto
  then have v: "valid_date y' m' d'" and e: "days_of_date y' m' d' = days_of_date y m d" using civil_valid by blast+
  have in_year: "days_before_year y \<le> days_of_date y m d \<and> days_of_date y m d < days_before_year (y + 1)"
    if "valid_date y m d" for y m d
    using that days_before_month_mono [of m 13 y] days_before_month_mono [of 1 m y] days_before_month_year [of y]
      month_days_pos(1) [of y 1]
    by (cases "m = 1") (auto simp: valid_date_def days_of_date_def days_before_year_next)
  have "y' = y" using year_of_day_unique [OF in_year [THEN conjunct1, OF assms]] in_year [OF assms]
      year_of_day_unique [of y' "days_of_date y m d"] in_year [OF v] e by simp
  moreover have "m' = m"
    using v e assms \<open>y' = y\<close> days_before_month_mono [of m m' y] days_before_month_mono [of m' m y]
    by (cases "m = m'"; cases "m < m'") (auto simp: valid_date_def days_of_date_def)
  ultimately show ?thesis using c e by (simp add: days_of_date_def)
qed

section \<open>Instants\<close>

text \<open>
  \<open>loc u\<close> is the offset in seconds east of UTC at the Unix time \<open>u\<close> and the first and last
  instant of the interval in which it holds.
\<close>

type_synonym location = "int \<Rightarrow> int \<times> int \<times> int"

record Time =
  unix :: int
  nsec :: int
  loc :: location

definition unix_epoch :: int where
  "unix_epoch = 719162"

definition local_time :: "Time \<Rightarrow> int" where
  "local_time t = unix t + fst (loc t (unix t))"

definition Time_Date :: "Time \<Rightarrow> int \<times> int \<times> int" where
  "Time_Date t = civil (local_time t div 86400 + unix_epoch)"

definition Year :: "Time \<Rightarrow> int" where "Year t = fst (Time_Date t)"
definition Month :: "Time \<Rightarrow> int" where "Month t = fst (snd (Time_Date t))"
definition Day_of :: "Time \<Rightarrow> int" where "Day_of t = snd (snd (Time_Date t))"

definition Clock :: "Time \<Rightarrow> int \<times> int \<times> int" where
  "Clock t = (let s = local_time t mod 86400 in (s div 3600, s mod 3600 div 60, s mod 60))"

definition norm_unit :: "int \<Rightarrow> int \<Rightarrow> int \<Rightarrow> int \<times> int" where
  "norm_unit hi lo base = (hi + lo div base, lo mod base)"

text \<open>The end of \<^verbatim>\<open>time.Date\<close>: from the local reading \<open>u\<close> to the instant.\<close>

definition to_utc :: "location \<Rightarrow> int \<Rightarrow> int" where
  "to_utc l u =
     (let (offset, start, stop) = l u
      in if offset \<noteq> 0
         then let utc = u - offset in if utc < start \<or> utc \<ge> stop then u - fst (l utc) else u - offset
         else u)"

definition time_Date :: "int \<Rightarrow> int \<Rightarrow> int \<Rightarrow> int \<Rightarrow> int \<Rightarrow> int \<Rightarrow> int \<Rightarrow> location \<Rightarrow> Time" where
  "time_Date year month day hour mins sec ns l =
     (let (year, m) = norm_unit year (month - 1) 12;
          (sec, ns) = norm_unit sec ns 1000000000;
          (mins, sec) = norm_unit mins sec 60;
          (hour, mins) = norm_unit hour mins 60;
          (day, hour) = norm_unit day hour 24
      in \<lparr>unix = to_utc l ((days_of_date year (m + 1) day - unix_epoch) * 86400 + hour * 3600 + mins * 60 + sec),
          nsec = ns, loc = l\<rparr>)"

definition AddDate :: "Time \<Rightarrow> int \<Rightarrow> int \<Rightarrow> int \<Rightarrow> Time" where
  "AddDate t years months days =
     (let (year, month, day) = Time_Date t; (hour, mins, sec) = Clock t
      in time_Date (year + years) (month + months) (day + days) hour mins sec (nsec t) (loc t))"

text \<open>A duration is a number of nanoseconds in 64 bits; \<^verbatim>\<open>Sub\<close> saturates.\<close>

definition Sub :: "Time \<Rightarrow> Time \<Rightarrow> int" where
  "Sub t u = max (- (2 ^ 63)) (min (2 ^ 63 - 1) ((unix t - unix u) * 1000000000 + (nsec t - nsec u)))"

section \<open>Floating point\<close>

text \<open>
  Rounding to the nearest number with 53 significant bits, ties to even: \<^verbatim>\<open>float64\<close> arithmetic
  as far as its exponent does not leave the range, which durations cannot make it do.
\<close>

definition round_even :: "rat \<Rightarrow> int" where
  "round_even x =
     (let f = \<lfloor>x\<rfloor>; r = x - of_int f
      in if r < 1 / 2 then f else if r > 1 / 2 then f + 1 else if even f then f else f + 1)"

definition pow2 :: "int \<Rightarrow> rat" where
  "pow2 e = (if 0 \<le> e then 2 ^ nat e else 1 / 2 ^ nat (- e))"

definition float_exponent :: "rat \<Rightarrow> int" where
  "float_exponent x =
     (let (p, q) = quotient_of \<bar>x\<bar>; e = bitlen p - bitlen q - 53
      in if \<bar>x\<bar> < pow2 (e + 53) then e else e + 1)"

definition float64 :: "rat \<Rightarrow> rat" where
  "float64 x = (if x = 0 then 0 else let e = float_exponent x in of_int (round_even (x / pow2 e)) * pow2 e)"

definition Hours :: "int \<Rightarrow> rat" where
  "Hours d = float64 (of_int (d sdiv 3600000000000) + float64 (of_int (d smod 3600000000000) / 3600000000000))"

text \<open>The conversion of a \<^verbatim>\<open>float64\<close> to \<^verbatim>\<open>int64\<close> drops the fraction.\<close>

definition trunc :: "rat \<Rightarrow> int" where
  "trunc x = (if 0 \<le> x then \<lfloor>x\<rfloor> else \<lceil>x\<rceil>)"

end
