(* ===== verification/Snowflake_Id.thy ===== *)
theory Snowflake_Id
  imports Complex_Main Niu_Prelude
begin

text \<open>
  The id generator of \<^verbatim>\<open>snowflake.go\<close>. An id is 50 bits of seconds since the epoch,
  3 bits of worker id and 10 bits of sequence number in an \<^verbatim>\<open>int64\<close>. The clock is an
  input: the list of the readings of \<^verbatim>\<open>time.Now().Unix()\<close> in the order they are taken.
  A call that is still waiting for the next second when the readings end returns \<open>None\<close>.
\<close>

definition epoch :: int64 where "epoch = 1672502400"
definition timestampBits :: nat where "timestampBits = 50"
definition workeridBits :: nat where "workeridBits = 3"
definition sequenceBits :: nat where "sequenceBits = 10"
definition timestampMax :: int64 where "timestampMax = - 1 XOR push_bit timestampBits (- 1)"
definition workeridMax :: int64 where "workeridMax = - 1 XOR push_bit workeridBits (- 1)"
definition sequenceMask :: int64 where "sequenceMask = - 1 XOR push_bit sequenceBits (- 1)"
definition workeridShift :: nat where "workeridShift = sequenceBits"
definition timestampShift :: nat where "timestampShift = sequenceBits + workeridBits"

record Snowflake =
  timestamp :: int64
  workerid :: int64
  sequence :: int64

section \<open>Operations\<close>

text \<open>The panic's message is \<^verbatim>\<open>workerid must be between 0 and %d\<close> with \<^verbatim>\<open>workeridMax-1\<close>.\<close>

definition NewSnowflake :: "int64 \<Rightarrow> Snowflake outcome" where
  "NewSnowflake w =
     (if sint w < 0 \<or> sint w > sint workeridMax
      then Panic ''workerid must be between 0 and 6''
      else Ret \<lparr>timestamp = 0, workerid = w, sequence = 0\<rparr>)"

text \<open>\<^verbatim>\<open>for now <= s.timestamp { now = time.Now().Unix() }\<close>\<close>

fun spin :: "int64 \<Rightarrow> int64 \<Rightarrow> int64 list \<Rightarrow> (int64 \<times> int64 list) option" where
  "spin ts now clk =
     (if sint now \<le> sint ts
      then (case clk of [] \<Rightarrow> None | r # rs \<Rightarrow> spin ts r rs)
      else Some (now, clk))"

declare spin.simps [simp del]

definition compose_id :: "int64 \<Rightarrow> int64 \<Rightarrow> int64 \<Rightarrow> int64" where
  "compose_id t w sq = push_bit timestampShift t OR push_bit workeridShift w OR sq"

text \<open>The branches on the clock, up to the second and sequence number the id is made of.\<close>

definition advance ::
    "Snowflake \<Rightarrow> int64 \<Rightarrow> int64 list \<Rightarrow> (Snowflake \<times> int64 \<times> int64 list) option" where
  "advance s now clk =
     (if timestamp s = now
      then let s = s\<lparr>sequence := (sequence s + 1) AND sequenceMask\<rparr>
           in if sequence s = 0
              then map_option (\<lambda>(now, clk). (s, now, clk)) (spin (timestamp s) now clk)
              else Some (s, now, clk)
      else Some (s\<lparr>sequence := 0\<rparr>, now, clk))"

definition Next :: "Snowflake \<Rightarrow> int64 list \<Rightarrow> (int64 \<times> Snowflake \<times> int64 list) option" where
  "Next s clk =
     (case clk of
        [] \<Rightarrow> None
      | now # clk \<Rightarrow>
          (case advance s now clk of
             None \<Rightarrow> None
           | Some (s, now, clk) \<Rightarrow>
               let t = now - epoch
               in if sint t > sint timestampMax then Some (0, s, clk)
                  else let s = s\<lparr>timestamp := now\<rparr>
                       in Some (compose_id t (workerid s) (sequence s), s, clk)))"

definition GetWorkerId :: "int64 \<Rightarrow> int64" where
  "GetWorkerId sid = signed_drop_bit workeridShift sid AND workeridMax"

definition GetTimestamp :: "int64 \<Rightarrow> int64" where
  "GetTimestamp sid = signed_drop_bit timestampShift sid AND timestampMax"

definition GetGenTimestamp :: "int64 \<Rightarrow> int64" where
  "GetGenTimestamp sid = GetTimestamp sid + epoch"

text \<open>
  \<^verbatim>\<open>GetTimestampStatus\<close>: the integer quotient \<^verbatim>\<open>now/-epoch\<close> truncates towards zero; the
  two conversions are exact, and the rounding of the floating-point division is left out.
\<close>

definition GetTimestampStatus :: "int64 \<Rightarrow> rat" where
  "GetTimestampStatus now =
     (let n = sint now; e = sint (- epoch)
      in of_int (sgn n * sgn e * (\<bar>n\<bar> div \<bar>e\<bar>)) / of_int (sint timestampMax))"

text \<open>A client that draws \<open>n\<close> ids one after the other.\<close>

fun next_n :: "nat \<Rightarrow> Snowflake \<Rightarrow> int64 list \<Rightarrow> (int64 list \<times> Snowflake \<times> int64 list) option" where
  "next_n 0 s clk = Some ([], s, clk)"
| "next_n (Suc n) s clk =
     (case Next s clk of
        None \<Rightarrow> None
      | Some (r, s, clk) \<Rightarrow>
          (case next_n n s clk of
             None \<Rightarrow> None
           | Some (rs, s, clk) \<Rightarrow> Some (r # rs, s, clk)))"

section \<open>Bit layout\<close>

named_theorems snow_consts "the constants of the id layout, evaluated"

lemma timestampMax_eq [snow_consts]: "timestampMax = 1125899906842623"
  by (simp add: timestampMax_def timestampBits_def mask_eq_exp_minus_1)

lemma workeridMax_eq [snow_consts]: "workeridMax = 7"
  by (simp add: workeridMax_def workeridBits_def mask_eq_exp_minus_1)

lemma sequenceMask_eq [snow_consts]: "sequenceMask = 1023"
  by (simp add: sequenceMask_def sequenceBits_def mask_eq_exp_minus_1)

lemma shifts_eq [snow_consts]: "workeridShift = 10" "timestampShift = 13"
  by (simp_all add: workeridShift_def timestampShift_def sequenceBits_def workeridBits_def)

definition in_field :: "nat \<Rightarrow> int64 \<Rightarrow> bool" where
  "in_field n w \<longleftrightarrow> 0 \<le> sint w \<and> sint w < 2 ^ n"

definition snow_ok :: "Snowflake \<Rightarrow> bool" where
  "snow_ok s \<longleftrightarrow> in_field workeridBits (workerid s) \<and> in_field sequenceBits (sequence s)"

lemma in_field_uint: "n < 64 \<Longrightarrow> in_field n w \<Longrightarrow> uint w = sint w \<and> uint w < 2 ^ n"
proof -
  assume n: "n < 64" and f: "in_field n w"
  then have nn: "0 \<le> sint w" and lt: "sint w < 2 ^ n" by (auto simp: in_field_def)
  have "uint w = take_bit 64 (sint w)" by (simp add: uint_sint)
  also have "\<dots> = sint w"
  proof (rule take_bit_int_eq_self)
    have "(2::int) ^ n \<le> 2 ^ 64" using n by (intro power_increasing) auto
    with lt show "sint w < 2 ^ 64" by linarith
  qed (rule nn)
  finally show ?thesis using lt by simp
qed

lemma push_or_int:
  fixes a b :: int
  assumes "0 \<le> b" and "b < 2 ^ n"
  shows "push_bit n a OR b = a * 2 ^ n + b"
proof -
  have b: "take_bit n b = b" using assms by (simp add: take_bit_int_eq_self)
  have "push_bit n a AND b = 0"
    by (subst b [symmetric]) (rule bit_eqI, auto simp: bit_simps)
  then show ?thesis by (simp add: disjunctive_add_eq_or [symmetric] push_bit_eq_mult)
qed

lemma uint_push_bit:
  assumes "uint (a :: int64) < 2 ^ m" and "m + n \<le> 64"
  shows "uint (push_bit n a) = uint a * 2 ^ n"
proof -
  have "uint a * 2 ^ n < 2 ^ m * 2 ^ n" using assms(1) by (intro mult_strict_right_mono) auto
  also have "\<dots> \<le> 2 ^ 64"
    unfolding power_add [symmetric] using assms(2) by (intro power_increasing) auto
  finally have "take_bit 64 (uint a * 2 ^ n) = uint a * 2 ^ n"
    by (intro take_bit_int_eq_self) auto
  then show ?thesis by (simp only: unsigned_push_bit_eq) (simp add: push_bit_eq_mult)
qed

lemma compose_id_uint:
  assumes "in_field 50 t" and "in_field 3 w" and "in_field 10 sq"
  shows "uint (compose_id t w sq) = sint t * 8192 + sint w * 1024 + sint sq"
proof -
  from in_field_uint [OF _ assms(1)] have t: "uint t = sint t" "uint t < 2 ^ 50" by auto
  from in_field_uint [OF _ assms(2)] have w: "uint w = sint w" "uint w < 2 ^ 3" by auto
  from in_field_uint [OF _ assms(3)] have sq: "uint sq = sint sq" "uint sq < 2 ^ 10" by auto
  have "uint (push_bit 10 w OR sq) = uint w * 2 ^ 10 + uint sq"
    using uint_push_bit [OF w(2), of 10] push_or_int [of "uint sq" 10 "uint w"] sq(2)
    by (simp add: unsigned_or_eq push_bit_eq_mult)
  moreover have "uint (push_bit 13 t OR (push_bit 10 w OR sq)) =
      uint t * 2 ^ 13 + uint (push_bit 10 w OR sq)"
    using uint_push_bit [OF t(2), of 13] calculation w(2) sq(2)
      push_or_int [of "uint (push_bit 10 w OR sq)" 13 "uint t"]
    by (simp add: unsigned_or_eq push_bit_eq_mult)
  ultimately show ?thesis
    by (simp add: compose_id_def snow_consts t w sq or.assoc)
qed

lemma sint_eq_uint: "uint (r :: int64) < 2 ^ 63 \<Longrightarrow> sint r = uint r"
  by (simp add: sint_uint) (rule signed_take_bit_int_eq_self, auto intro: order_trans [of _ 0])

lemma compose_id_sint:
  assumes "in_field 50 t" and "in_field 3 w" and "in_field 10 sq"
  shows "sint (compose_id t w sq) = sint t * 8192 + sint w * 1024 + sint sq"
proof -
  have "sint t * 8192 + sint w * 1024 + sint sq < 2 ^ 63"
    using assms by (simp add: in_field_def)
  then show ?thesis using compose_id_uint [OF assms] sint_eq_uint by metis
qed

text \<open>The extracting masks are remainders.\<close>

lemma sint_shift_mask:
  fixes r :: int64
  assumes "m < 64"
  shows "sint (signed_drop_bit n r AND mask m) = sint r div 2 ^ n mod 2 ^ m"
proof -
  let ?d = "signed_drop_bit n r"
  have "uint (take_bit m ?d) = take_bit m (take_bit 64 (sint ?d))"
    by (simp only: unsigned_take_bit_eq) (simp add: uint_sint)
  also have "\<dots> = take_bit m (sint ?d)" using assms by simp
  also have "\<dots> = sint r div 2 ^ n mod 2 ^ m"
    by (simp add: sint_signed_drop_bit_eq drop_bit_eq_div take_bit_eq_mod)
  finally have u: "uint (take_bit m ?d) = sint r div 2 ^ n mod 2 ^ m" .
  have "sint r div 2 ^ n mod 2 ^ m < 2 ^ m" by simp
  also have "(2 :: int) ^ m \<le> 2 ^ 63" using assms by (intro power_increasing) auto
  finally show ?thesis
    using u sint_eq_uint [of "take_bit m ?d"] by (simp add: take_bit_eq_mask)
qed

lemma masks_eq: "workeridMax = mask 3" "timestampMax = mask 50" "sequenceMask = mask 10"
  by (simp_all add: snow_consts mask_eq_exp_minus_1)

lemma sint_GetWorkerId: "sint (GetWorkerId r) = sint r div 1024 mod 8"
  using sint_shift_mask [of 3 10 r] by (simp add: GetWorkerId_def masks_eq shifts_eq)

lemma sint_GetTimestamp: "sint (GetTimestamp r) = sint r div 8192 mod 1125899906842624"
  using sint_shift_mask [of 50 13 r] by (simp add: GetTimestamp_def masks_eq shifts_eq)

lemma div_mod_layout:
  fixes a b k :: int
  assumes "0 \<le> b" and "b < k"
  shows "(a * k + b) div k = a" and "(a * k + b) mod k = b"
  using assms by (simp_all add: div_add1_eq [of "a * k" b k])

lemma decode_compose_id:
  assumes "in_field 50 t" and "in_field 3 w" and "in_field 10 sq"
  shows "GetWorkerId (compose_id t w sq) = w" and "GetTimestamp (compose_id t w sq) = t"
proof -
  from assms have b: "0 \<le> sint t" "sint t < 1125899906842624" "0 \<le> sint w" "sint w < 8"
    "0 \<le> sint sq" "sint sq < 1024"
    by (simp_all add: in_field_def)
  note c = compose_id_sint [OF assms]
  have "sint (GetWorkerId (compose_id t w sq)) = sint w"
    using div_mod_layout(1) [of "sint sq" 1024 "sint t * 8 + sint w"] b
      div_mod_layout(2) [of "sint w" 8 "sint t"]
    by (simp add: sint_GetWorkerId c algebra_simps)
  then show "GetWorkerId (compose_id t w sq) = w" by (simp add: signed_word_eqI)
  have "sint (GetTimestamp (compose_id t w sq)) = sint t"
    using div_mod_layout(1) [of "sint w * 1024 + sint sq" 8192 "sint t"] b
    by (simp add: sint_GetTimestamp c add.assoc)
  then show "GetTimestamp (compose_id t w sq) = t" by (simp add: signed_word_eqI)
qed

section \<open>One call\<close>

text \<open>Readings of a clock that never goes back and stays in the 50-bit range.\<close>

definition clock_ok :: "int64 list \<Rightarrow> bool" where
  "clock_ok clk \<longleftrightarrow> sorted_wrt (\<lambda>a b. sint a \<le> sint b) clk \<and>
     (\<forall>r \<in> set clk. sint epoch \<le> sint r \<and> sint r \<le> sint epoch + sint timestampMax)"

text \<open>The generator has seen no reading later than those to come.\<close>

definition behind :: "Snowflake \<Rightarrow> int64 list \<Rightarrow> bool" where
  "behind s clk \<longleftrightarrow> (\<forall>r \<in> set clk. sint (timestamp s) \<le> sint r)"

lemma spin_Some:
  "spin ts now clk = Some (now', clk') \<Longrightarrow>
     sint ts < sint now' \<and> (\<exists>pre. now # clk = pre @ now' # clk')"
proof (induction ts now clk rule: spin.induct)
  case (1 ts now clk)
  show ?case
  proof (cases "sint now \<le> sint ts")
    case True
    with "1.prems" obtain r rs where clk: "clk = r # rs" and sp: "spin ts r rs = Some (now', clk')"
      by (auto simp: spin.simps [of ts now] split: list.splits)
    from "1.IH" [OF True clk sp] clk show ?thesis by (metis append_Cons)
  next
    case False
    with "1.prems" show ?thesis by (auto simp: spin.simps [of ts now])
  qed
qed

lemma spin_returns: "\<exists>r \<in> set (now # clk). sint ts < sint r \<Longrightarrow> \<exists>y. spin ts now clk = Some y"
proof (induction ts now clk rule: spin.induct)
  case (1 ts now clk)
  then show ?case by (cases clk) (auto simp: spin.simps [of ts now])
qed

lemma in_field_since_epoch:
  assumes "sint epoch \<le> sint r" and "sint r \<le> sint epoch + sint timestampMax"
  shows "in_field 50 (r - epoch)" and "sint (r - epoch) = sint r - sint epoch"
proof -
  have e: "sint epoch = 1672502400" by (simp add: epoch_def)
  have m: "sint timestampMax = 1125899906842623" by (simp add: timestampMax_eq)
  have "sint (r - epoch) = signed_take_bit 63 (sint r - sint epoch)"
    by (simp add: sint_word_ariths)
  also have "\<dots> = sint r - sint epoch"
    using assms e m by (intro signed_take_bit_int_eq_self) auto
  finally show "sint (r - epoch) = sint r - sint epoch" .
  then show "in_field 50 (r - epoch)" using assms m by (simp add: in_field_def)
qed

lemma bump_sequence:
  assumes "in_field 10 sq"
  shows "sint ((sq + 1) AND sequenceMask) = (sint sq + 1) mod 1024"
    and "in_field 10 ((sq + 1) AND sequenceMask)"
proof -
  have "sint (sq + 1) = signed_take_bit 63 (sint sq + 1)" by (simp add: sint_word_ariths)
  also have "\<dots> = sint sq + 1"
    using assms by (intro signed_take_bit_int_eq_self) (auto simp: in_field_def)
  finally show eq: "sint ((sq + 1) AND sequenceMask) = (sint sq + 1) mod 1024"
    using sint_shift_mask [of 10 0 "sq + 1"] by (simp add: masks_eq)
  show "in_field 10 ((sq + 1) AND sequenceMask)" unfolding in_field_def eq by simp
qed

text \<open>
  The reading \<open>now\<close> a call settles on, with the sequence number it pairs it with, comes
  strictly after the last pair, in the order on seconds and sequence numbers.
\<close>

definition after :: "Snowflake \<Rightarrow> Snowflake \<Rightarrow> bool" where
  "after s s' \<longleftrightarrow> sint (timestamp s) < sint (timestamp s') \<or>
     timestamp s = timestamp s' \<and> sint (sequence s) < sint (sequence s')"

lemma in_field_0 [simp]: "in_field n 0"
  by (simp add: in_field_def)

lemma advance_Some:
  assumes sq: "in_field 10 (sequence s)" and beh: "sint (timestamp s) \<le> sint now"
    and adv: "advance s now clk = Some (s1, now1, clk1)"
  shows "in_field 10 (sequence s1)" and "workerid s1 = workerid s"
    and "after s (s1\<lparr>timestamp := now1\<rparr>)" and "\<exists>pre. now # clk = pre @ now1 # clk1"
proof -
  let ?sq = "(sequence s + 1) AND sequenceMask"
  have "in_field 10 (sequence s1) \<and> workerid s1 = workerid s \<and>
    after s (s1\<lparr>timestamp := now1\<rparr>) \<and> (\<exists>pre. now # clk = pre @ now1 # clk1)"
  proof (cases "timestamp s = now")
    case False
    then have "sint (timestamp s) < sint now" using beh by (metis order_le_less signed_word_eqI)
    with False adv show ?thesis by (auto simp: advance_def after_def)
  next
    case True
    show ?thesis
    proof (cases "?sq = 0")
      case True
      with \<open>timestamp s = now\<close> adv show ?thesis
        by (auto simp: advance_def after_def dest: spin_Some)
    next
      case False
      then have "sint ?sq \<noteq> 0" by (metis signed_0 signed_word_eqI)
      then have "sint (sequence s) < sint ?sq"
        using bump_sequence(1) [OF sq] sq unfolding in_field_def
        by (cases "sint (sequence s) + 1 = 1024") simp_all
      with False True adv bump_sequence(2) [OF sq] show ?thesis
        by (auto simp: advance_def after_def)
    qed
  qed
  then show "in_field 10 (sequence s1)" "workerid s1 = workerid s"
    "after s (s1\<lparr>timestamp := now1\<rparr>)" "\<exists>pre. now # clk = pre @ now1 # clk1"
    by auto
qed

lemma Next_step:
  assumes ok: "snow_ok s" and clk: "clock_ok clk" and beh: "behind s clk"
    and nxt: "Next s clk = Some (r, s', clk')"
  shows "r = compose_id (timestamp s' - epoch) (workerid s') (sequence s')"
    and "snow_ok s'" and "workerid s' = workerid s" and "after s s'"
    and "\<exists>pre. clk = pre @ timestamp s' # clk'"
proof -
  from ok have sq: "in_field 10 (sequence s)" by (simp add: snow_ok_def sequenceBits_def)
  from nxt obtain now rest s1 now1 where c: "clk = now # rest"
    and adv: "advance s now rest = Some (s1, now1, clk')"
    by (auto simp: Next_def Let_def split: list.splits option.splits if_splits)
  have "sint (timestamp s) \<le> sint now" using beh c by (simp add: behind_def)
  note a = advance_Some [OF sq this adv]
  from a(4) c clk have "sint epoch \<le> sint now1 \<and> sint now1 \<le> sint epoch + sint timestampMax"
    by (metis clock_ok_def in_set_conv_decomp)
  then have "\<not> sint (now1 - epoch) > sint timestampMax"
    using in_field_since_epoch(2) [of now1] by linarith
  with nxt c adv have eqs: "s' = s1\<lparr>timestamp := now1\<rparr>"
    "r = compose_id (now1 - epoch) (workerid s1) (sequence s1)"
    by (auto simp: Next_def Let_def)
  from a(4) c show "\<exists>pre. clk = pre @ timestamp s' # clk'" by (simp add: eqs)
  from a ok show "snow_ok s'" by (simp add: eqs snow_ok_def sequenceBits_def)
  from a show "r = compose_id (timestamp s' - epoch) (workerid s') (sequence s')"
    and "workerid s' = workerid s" and "after s s'" by (simp_all add: eqs)
qed

text \<open>What is left of the clock still runs forward from the second just used.\<close>

lemma clock_ok_suffix:
  assumes "clock_ok (pre @ now # clk')" and "timestamp s' = now"
  shows "clock_ok clk'" and "behind s' clk'"
  using assms by (auto simp: clock_ok_def behind_def sorted_wrt_append)

lemma clock_ok_mem:
  "clock_ok clk \<Longrightarrow> r \<in> set clk \<Longrightarrow> in_field 50 (r - epoch) \<and> sint (r - epoch) = sint r - sint epoch"
  using in_field_since_epoch [of r] by (auto simp: clock_ok_def)

lemma Next_returns:
  assumes "clk \<noteq> []" and "\<exists>r \<in> set clk. sint (timestamp s) < sint r"
  shows "\<exists>r s' clk'. Next s clk = Some (r, s', clk')"
proof -
  obtain now rest where c: "clk = now # rest" using assms(1) by (cases clk) auto
  have "\<exists>y. advance s now rest = Some y"
    using spin_returns [of now rest "timestamp s"] assms(2) c by (auto simp: advance_def Let_def)
  then show ?thesis by (auto simp: Next_def c Let_def split: prod.splits)
qed

section \<open>Sequences of calls\<close>

text \<open>The id a state stands for, as an integer; \<open>after\<close> makes it grow.\<close>

definition id_of :: "Snowflake \<Rightarrow> int" where
  "id_of s = (sint (timestamp s) - sint epoch) * 8192 + sint (workerid s) * 1024 + sint (sequence s)"

lemma after_id_of:
  assumes "snow_ok s" and "snow_ok s'" and "workerid s' = workerid s" and "after s s'"
  shows "id_of s < id_of s'"
  using assms
  by (auto simp: after_def id_of_def snow_ok_def in_field_def workeridBits_def sequenceBits_def)

lemma Next_id_of:
  assumes "snow_ok s" and "clock_ok clk" and "behind s clk" and "Next s clk = Some (r, s', clk')"
  shows "sint r = id_of s'" and "GetWorkerId r = workerid s" and "GetGenTimestamp r = timestamp s'"
proof -
  note n = Next_step [OF assms]
  have ts: "in_field 50 (timestamp s' - epoch)"
    "sint (timestamp s' - epoch) = sint (timestamp s') - sint epoch"
    using n(5) clock_ok_mem [OF assms(2), of "timestamp s'"] by auto
  have f: "in_field 3 (workerid s')" "in_field 10 (sequence s')"
    using n(2) by (simp_all add: snow_ok_def workeridBits_def sequenceBits_def)
  show "sint r = id_of s'" by (simp add: n(1) compose_id_sint [OF ts(1) f] id_of_def ts(2))
  show "GetWorkerId r = workerid s" unfolding n(1) decode_compose_id [OF ts(1) f] by (rule n(3))
  show "GetGenTimestamp r = timestamp s'"
    by (simp add: n(1) GetGenTimestamp_def decode_compose_id [OF ts(1) f])
qed

lemma next_n_increasing:
  "snow_ok s \<Longrightarrow> clock_ok clk \<Longrightarrow> behind s clk \<Longrightarrow> next_n n s clk = Some (rs, s', clk') \<Longrightarrow>
     sorted_wrt (\<lambda>a b. sint a < sint b) rs \<and>
     (\<forall>r \<in> set rs. id_of s < sint r \<and> GetWorkerId r = workerid s)"
proof (induction n arbitrary: s clk rs)
  case (Suc n)
  from Suc.prems(4) obtain r s1 clk1 rs1 where n: "Next s clk = Some (r, s1, clk1)"
    and m: "next_n n s1 clk1 = Some (rs1, s', clk')" and rs: "rs = r # rs1"
    by (auto split: option.splits)
  note st = Next_step [OF Suc.prems(1-3) n]
  note io = Next_id_of [OF Suc.prems(1-3) n]
  from st(5) Suc.prems(2) have "clock_ok clk1" "behind s1 clk1"
    using clock_ok_suffix [of _ "timestamp s1" clk1 s1] by blast+
  note ih = Suc.IH [OF st(2) this m]
  have "id_of s < id_of s1" by (rule after_id_of [OF Suc.prems(1) st(2-4)])
  then show ?case using ih io st(3) by (auto simp: rs)
qed simp

lemma NewSnowflake_ok:
  assumes "NewSnowflake w = Ret s"
  shows "snow_ok s" and "workerid s = w" and "timestamp s = 0" and "sequence s = 0"
  using assms
  by (auto simp: NewSnowflake_def snow_ok_def in_field_def workeridMax_eq workeridBits_def
      split: if_splits)

lemma NewSnowflake_behind: "NewSnowflake w = Ret s \<Longrightarrow> clock_ok clk \<Longrightarrow> behind s clk"
  by (auto simp: behind_def clock_ok_def NewSnowflake_ok(3) epoch_def)

lemma next_n_length: "next_n n s clk = Some (rs, s', clk') \<Longrightarrow> length rs = n"
  by (induction n arbitrary: s clk rs) (auto split: option.splits)

lemma sorted_wrt_sint_distinct: "sorted_wrt (\<lambda>a b. sint a < sint b) rs \<Longrightarrow> distinct rs"
  by (induction rs) auto

section \<open>Properties\<close>

text \<open>
  C3: the ids one generator hands out while its clock does not go back and stays in the
  50-bit range are strictly increasing as signed integers, hence pairwise distinct, and
  carry its worker id.
\<close>

theorem snowflake_ids_increase:
  assumes "NewSnowflake w = Ret s" and "clock_ok clk" and "next_n n s clk = Some (rs, s', clk')"
  shows "length rs = n \<and> sorted_wrt (\<lambda>a b. sint a < sint b) rs \<and> distinct rs \<and>
    (\<forall>r \<in> set rs. GetWorkerId r = w)"
proof -
  note ok = NewSnowflake_ok [OF assms(1)]
  note inc = next_n_increasing [OF ok(1) assms(2) NewSnowflake_behind [OF assms(1,2)] assms(3)]
  then have "distinct rs" by (blast intro: sorted_wrt_sint_distinct)
  with inc next_n_length [OF assms(3)] ok(2) show ?thesis by auto
qed

theorem snowflake_ids_increase_witness:
  "\<exists>s rs s' clk'. NewSnowflake 5 = Ret s \<and> clock_ok [1700000000, 1700000000, 1700000001] \<and>
     next_n 3 s [1700000000, 1700000000, 1700000001] = Some (rs, s', clk') \<and> distinct rs"
proof -
  let ?s = "\<lparr>timestamp = 0, workerid = 5, sequence = 0\<rparr> :: Snowflake"
  have s: "NewSnowflake 5 = Ret ?s" by (simp add: NewSnowflake_def workeridMax_eq)
  have clk: "clock_ok [1700000000, 1700000000, 1700000001]"
    by (simp add: clock_ok_def epoch_def timestampMax_eq)
  obtain rs s' clk' where n: "next_n 3 ?s [1700000000, 1700000000, 1700000001] = Some (rs, s', clk')"
    by (simp add: numeral_3_eq_3 Next_def advance_def Let_def snow_consts epoch_def)
  from snowflake_ids_increase [OF s clk n] s clk n show ?thesis by blast
qed



text \<open>
  C23: a call never waits for ever: as soon as the clock shows a second later than the last
  one used, the call has returned.
\<close>

theorem snowflake_next_returns:
  assumes "r \<in> set clk" and "sint (timestamp s) < sint r"
  shows "\<exists>sid s' clk'. Next s clk = Some (sid, s', clk')"
  using Next_returns [of clk s] assms by fastforce

theorem snowflake_next_returns_witness:
  "\<exists>sid s' clk'. Next \<lparr>timestamp = 1700000000, workerid = 3, sequence = 1023\<rparr>
      [1700000000, 1700000000, 1700000001] = Some (sid, s', clk')"
  by (rule snowflake_next_returns [of 1700000001]) simp_all

text \<open>
  Ids of generators with different worker ids never collide, whatever their clocks do
  within the range.
\<close>

lemma snowflake_workers_disjoint:
  assumes "NewSnowflake w1 = Ret s1" and "clock_ok clk1" and "next_n n1 s1 clk1 = Some (rs1, t1, c1)"
    and "NewSnowflake w2 = Ret s2" and "clock_ok clk2" and "next_n n2 s2 clk2 = Some (rs2, t2, c2)"
    and "w1 \<noteq> w2"
  shows "set rs1 \<inter> set rs2 = {}"
proof -
  note i1 = next_n_increasing [OF NewSnowflake_ok(1) [OF assms(1)] assms(2)
      NewSnowflake_behind [OF assms(1,2)] assms(3)]
  note i2 = next_n_increasing [OF NewSnowflake_ok(1) [OF assms(4)] assms(5)
      NewSnowflake_behind [OF assms(4,5)] assms(6)]
  from i1 i2 NewSnowflake_ok(2) [OF assms(1)] NewSnowflake_ok(2) [OF assms(4)] assms(7)
  show ?thesis by fastforce
qed


text \<open>
  \<^verbatim>\<open>GetTimestampStatus\<close> is negative for every clock reading from the epoch to the year
  2075, although it is meant to be the used share of the range, between 0 and 1.
\<close>

lemma timestamp_status_negative:
  assumes "sint epoch \<le> sint now" and "sint now < 2 * sint epoch"
  shows "GetTimestampStatus now < 0"
proof -
  have e: "sint epoch = 1672502400" "sint (- epoch) = - 1672502400" by (simp_all add: epoch_def)
  from assms e have "sint now div 1672502400 = 1" by (simp add: div_pos_geq)
  moreover from assms e have "sgn (sint now) = 1" "\<bar>sint now\<bar> = sint now" by auto
  ultimately show ?thesis by (simp add: GetTimestampStatus_def e timestampMax_eq)
qed

end
