(* ===== verification/Times.thy ===== *)
theory Times
  imports Calendar Snowflake_Id
begin

text \<open>
  The functions of \<^verbatim>\<open>time.go\<close> and \<^verbatim>\<open>GetGenTime\<close> of \<^verbatim>\<open>snowflake.go\<close>, on the model of the
  package \<^verbatim>\<open>time\<close> in the theory \<^verbatim>\<open>Calendar\<close>. The reading of the clock and the local time
  zone are arguments.
\<close>

section \<open>Definitions\<close>

definition Day :: int where
  "Day = 24 * 3600 * 1000000000"

definition Days :: "int \<Rightarrow> int" where
  "Days dur = trunc (float64 (Hours dur / 24))"

definition LastMonthNow :: "Time \<Rightarrow> Time" where
  "LastMonthNow t = AddDate t 0 (-1) 0"

definition BeginOfDay :: "Time \<Rightarrow> Time" where
  "BeginOfDay t = (let (y, m, d) = Time_Date t in time_Date y m d 0 0 0 0 (loc t))"

definition EndOfDay :: "Time \<Rightarrow> Time" where
  "EndOfDay t = (let (y, m, d) = Time_Date t in time_Date y m d 23 59 59 (1000000000 - 1) (loc t))"

definition BeginOfMonth :: "Time \<Rightarrow> Time" where
  "BeginOfMonth t = (let (y, m, _) = Time_Date t in time_Date y m 1 0 0 0 0 (loc t))"

definition EndOfMonth :: "Time \<Rightarrow> Time" where
  "EndOfMonth t =
     (let nextStart = time_Date (Year t) (Month t + 1) 1 0 0 0 0 (loc t)
      in time_Date (Year nextStart) (Month nextStart) (Day_of nextStart - 1) 23 59 59 0 (loc t))"

definition BeginOfYear :: "Time \<Rightarrow> Time" where
  "BeginOfYear t = time_Date (Year t) 1 1 0 0 0 0 (loc t)"

definition EndOfYear :: "Time \<Rightarrow> Time" where
  "EndOfYear t = time_Date (Year t) 12 31 23 59 59 (1000000000 - 1) (loc t)"

definition LastMonthFirstDay :: "Time \<Rightarrow> Time" where
  "LastMonthFirstDay now = BeginOfMonth (LastMonthNow now)"

definition LastMonthLastDay :: "Time \<Rightarrow> Time" where
  "LastMonthLastDay now = EndOfMonth (LastMonthNow now)"

definition ThisMonthFirstDay :: "Time \<Rightarrow> Time" where
  "ThisMonthFirstDay now = BeginOfMonth now"

definition DaysOfMonth :: "Time \<Rightarrow> int" where
  "DaysOfMonth t =
     (let nextMonth = time_Date (Year t) (Month t + 1) 1 0 0 0 0 (loc t);
          curMonthStart = time_Date (Year t) (Month t) 1 0 0 0 0 (loc t)
      in trunc (float64 (Hours (Sub nextMonth curMonthStart) / 24)))"

definition DaysOfThisMonth :: "Time \<Rightarrow> int" where
  "DaysOfThisMonth now = DaysOfMonth now"

definition ThisMonthRemainDays :: "Time \<Rightarrow> int" where
  "ThisMonthRemainDays now = DaysOfMonth now - Day_of now"

definition TimeToYYYYMMDD :: "Time \<Rightarrow> string" where
  "TimeToYYYYMMDD t =
     Itoa (word_of_int (Year t)) @ PadLeftInt (word_of_int (Month t)) 2 ''0'' @ PadLeftInt (word_of_int (Day_of t)) 2 ''0''"

definition TimeToYYYYMMDDInt :: "Time \<Rightarrow> go_error + go_int" where
  "TimeToYYYYMMDDInt t = Atoi (TimeToYYYYMMDD t)"

text \<open>\<^verbatim>\<open>Format("2006-01-02 15:04:05")\<close>: each number is filled up with zeros to its width.\<close>

definition append_int :: "int \<Rightarrow> nat \<Rightarrow> string" where
  "append_int x width =
     (let ds = decimal (nat \<bar>x\<bar>) in (if x < 0 then ''-'' else '''') @ replicate (width - length ds) CHR ''0'' @ ds)"

definition GetGenTime :: "location \<Rightarrow> int64 \<Rightarrow> string" where
  "GetGenTime local sid =
     (let t = \<lparr>unix = sint (GetGenTimestamp sid), nsec = 0, loc = local\<rparr>; (h, mi, s) = Clock t
      in append_int (Year t) 4 @ ''-'' @ append_int (Month t) 2 @ ''-'' @ append_int (Day_of t) 2 @ '' '' @
         append_int h 2 @ '':'' @ append_int mi 2 @ '':'' @ append_int s 2)"

section \<open>Rounding\<close>

lemma round_even_int [simp]: "round_even (of_int n) = n"
  by (simp add: round_even_def)

lemma pow2_pos [simp]: "0 < pow2 e" "pow2 e \<noteq> 0"
  by (simp_all add: pow2_def)

lemma float_exponent_int:
  assumes "\<bar>n\<bar> < 2 ^ 53"
  shows "float_exponent (of_int n) \<le> 0"
proof -
  have "quotient_of \<bar>of_int n\<bar> = (\<bar>n\<bar>, 1)" by (simp add: of_int_abs [symmetric] Fract_of_int_eq [symmetric] quotient_of_Fract Rat.normalize_def del: of_int_abs)
  moreover have "bitlen \<bar>n\<bar> \<le> 53" using assms by (simp add: bitlen_le_iff_power)
  moreover have "bitlen 1 = 1" by (simp add: bitlen_def floorlog_def)
  ultimately show ?thesis by (simp add: float_exponent_def Let_def)
qed

lemma float64_int:
  assumes "\<bar>n\<bar> < 2 ^ 53"
  shows "float64 (of_int n) = of_int n"
proof -
  define e where "e = float_exponent (of_int n)"
  have "of_int n / pow2 e = of_int (n * 2 ^ nat (- e))"
    using float_exponent_int [OF assms] by (cases "e = 0") (simp_all add: e_def pow2_def)
  then have "round_even (of_int n / pow2 e) = n * 2 ^ nat (- e)" by (simp only: round_even_int)
  moreover have "of_int (n * 2 ^ nat (- e)) * pow2 e = of_int n"
    using float_exponent_int [OF assms] by (cases "e = 0") (simp_all add: e_def pow2_def)
  ultimately show ?thesis by (auto simp: float64_def e_def [symmetric] Let_def)
qed

lemma trunc_int [simp]: "trunc (of_int n) = n"
  by (simp add: trunc_def)

lemma float64_0 [simp]: "float64 0 = 0"
  by (simp add: float64_def)

lemma Hours_int:
  assumes "\<bar>n\<bar> < 2 ^ 53"
  shows "Hours (n * 3600000000000) = of_int n"
proof -
  have "(n * 3600000000000) sdiv 3600000000000 = n" "(n * 3600000000000) smod 3600000000000 = 0"
    by (simp_all add: signed_divide_int_def signed_modulo_int_def abs_mult sgn_mult mult_sgn_abs)
  then show ?thesis using float64_int [OF assms] by (simp add: Hours_def)
qed

lemma Days_whole:
  assumes "\<bar>n\<bar> < 2 ^ 48"
  shows "trunc (float64 (Hours (n * Day) / 24)) = n"
proof -
  have "Hours (n * Day) = of_int (24 * n)"
    using Hours_int [of "24 * n"] assms by (simp add: Day_def mult.assoc mult.commute)
  then show ?thesis using float64_int [of n] assms by simp
qed

section \<open>Fixed offsets\<close>

text \<open>
  A location with one offset: UTC and \<^verbatim>\<open>time.FixedZone\<close>. In one with daylight saving a day
  can have 23 hours, and \<open>DaysOfMonth\<close> then comes out one short.
\<close>

definition fixed_zone :: "location \<Rightarrow> int \<Rightarrow> bool" where
  "fixed_zone l off \<longleftrightarrow> (\<forall>u. fst (l u) = off)"

lemma to_utc_fixed: "fixed_zone l off \<Longrightarrow> to_utc l u = u - off"
  by (auto simp: fixed_zone_def to_utc_def Let_def split: prod.split) (metis fst_conv)+

lemma norm_unit_eq: "norm_unit hi lo base = (hi', lo') \<Longrightarrow> hi' * base + lo' = hi * base + lo"
  by (auto simp: norm_unit_def algebra_simps)

lemma days_of_date_add: "days_of_date y m (d + k) = days_of_date y m d + k"
  by (simp add: days_of_date_def)

lemma time_Date_fixed:
  assumes "fixed_zone l off" and "0 \<le> ns" and "ns < 1000000000"
  shows "time_Date y m d h mi s ns l =
    \<lparr>unix = (days_of_date (y + (m - 1) div 12) ((m - 1) mod 12 + 1) d - unix_epoch) * 86400 + h * 3600 + mi * 60 + s - off,
     nsec = ns, loc = l\<rparr>"
proof -
  define s1 mi1 where "s1 = s mod 60" and "mi1 = mi + s div 60"
  define mi2 h1 where "mi2 = mi1 mod 60" and "h1 = h + mi1 div 60"
  have s: "s = s1 + 60 * (s div 60)" "mi1 = mi2 + 60 * (mi1 div 60)" "h1 = h1 mod 24 + 24 * (h1 div 24)"
    by (simp_all add: s1_def mi2_def)
  have "(h1 mod 24) * 3600 + mi2 * 60 + s1 + (h1 div 24) * 86400 = h * 3600 + mi * 60 + s"
    using s mi1_def h1_def by linarith
  moreover have "time_Date y m d h mi s ns l =
    \<lparr>unix = to_utc l ((days_of_date (y + (m - 1) div 12) ((m - 1) mod 12 + 1) (d + h1 div 24) - unix_epoch) * 86400
       + (h1 mod 24) * 3600 + mi2 * 60 + s1), nsec = ns, loc = l\<rparr>"
    using assms(2,3) by (simp add: time_Date_def norm_unit_def s1_def mi1_def mi2_def h1_def Let_def)
  ultimately show ?thesis
    using to_utc_fixed [OF assms(1)] by (simp add: days_of_date_add algebra_simps)
qed

definition civil_day :: "Time \<Rightarrow> int" where
  "civil_day t = local_time t div 86400 + unix_epoch"

lemma Time_Date_valid:
  "Time_Date t = (Year t, Month t, Day_of t)" "valid_date (Year t) (Month t) (Day_of t)"
  "days_of_date (Year t) (Month t) (Day_of t) = civil_day t"
proof -
  show d: "Time_Date t = (Year t, Month t, Day_of t)" by (simp add: Year_def Month_def Day_of_def)
  show "valid_date (Year t) (Month t) (Day_of t)" "days_of_date (Year t) (Month t) (Day_of t) = civil_day t"
    using civil_valid [of "civil_day t"] d by (simp_all add: Time_Date_def civil_day_def)
qed

lemma local_time_split: "local_time t = (civil_day t - unix_epoch) * 86400 + local_time t mod 86400"
  by (simp add: civil_day_def)

lemma local_time_fixed: "fixed_zone (loc t) off \<Longrightarrow> local_time t = unix t + off"
  by (simp add: local_time_def fixed_zone_def)

text \<open>What \<^verbatim>\<open>time.Date\<close> makes of a time of day that is in range, seen as a civil day again.\<close>

definition in_day :: "int \<Rightarrow> int \<Rightarrow> int \<Rightarrow> bool" where
  "in_day h mi s \<longleftrightarrow> 0 \<le> h * 3600 + mi * 60 + s \<and> h * 3600 + mi * 60 + s < 86400"

lemma civil_day_time_Date:
  assumes "fixed_zone l off" and "in_day h mi s" and "0 \<le> ns" and "ns < 1000000000"
  shows "civil_day (time_Date y m d h mi s ns l) = days_of_date (y + (m - 1) div 12) ((m - 1) mod 12 + 1) d"
proof -
  define D where "D = days_of_date (y + (m - 1) div 12) ((m - 1) mod 12 + 1) d - unix_epoch"
  have "local_time (time_Date y m d h mi s ns l) = (h * 3600 + mi * 60 + s) + D * 86400"
    using assms(1) by (simp add: time_Date_fixed [OF assms(1,3,4)] local_time_fixed D_def)
  moreover have "((h * 3600 + mi * 60 + s) + D * 86400) div 86400 = D"
    using assms(2) by (simp add: in_day_def)
  ultimately show ?thesis by (simp add: civil_day_def D_def)
qed

lemma Time_Date_eq: "Time_Date t = civil (civil_day t)"
  by (simp add: Time_Date_def civil_day_def)

lemma month_in_range: "1 \<le> m \<Longrightarrow> m \<le> 12 \<Longrightarrow> (m - 1) div 12 = 0 \<and> (m - 1) mod 12 = m - 1"
  for m :: int by simp

lemma next_month:
  assumes "1 \<le> m" and "m \<le> 12"
  shows "days_of_date (y + m div 12) (m mod 12 + 1) 1 = days_of_date y m 1 + month_days y m"
proof (cases "m = 12")
  case True
  then show ?thesis
    using days_before_month_next [of 12 y] by (simp add: days_of_date_def days_before_year_next days_before_month_year)
next
  case False
  then have "m div 12 = 0" "m mod 12 = m" using assms by simp_all
  then show ?thesis using assms by (simp add: days_of_date_def days_before_month_next)
qed

lemma next_month_valid: "valid_date (y + m div 12) (m mod 12 + 1) 1"
  using month_days_pos(1) [of "y + m div 12" "m mod 12 + 1"] pos_mod_bound [of 12 m] pos_mod_sign [of 12 m]
  unfolding valid_date_def by linarith

lemma days_in_month: "days_of_date y m d = days_of_date y m 1 + d - 1"
  by (simp add: days_of_date_def)

text \<open>The calendar functions as instants, at a fixed offset.\<close>

definition fixed_time :: "Time \<Rightarrow> int \<Rightarrow> bool" where
  "fixed_time t off \<longleftrightarrow> fixed_zone (loc t) off \<and> 0 \<le> nsec t \<and> nsec t < 1000000000"

definition month_start :: "Time \<Rightarrow> int" where
  "month_start t = days_of_date (Year t) (Month t) 1"

lemma month_range [simp]: "1 \<le> Month t" "Month t \<le> 12"
  using Time_Date_valid(2) [of t] by (simp_all add: valid_date_def)

lemma day_range: "1 \<le> Day_of t" "Day_of t \<le> month_days (Year t) (Month t)"
  using Time_Date_valid(2) [of t] by (simp_all add: valid_date_def)

lemma month_start: "civil_day t = month_start t + Day_of t - 1"
  using Time_Date_valid(3) [of t] days_in_month [of "Year t" "Month t" "Day_of t"] by (simp add: month_start_def)

lemma month_norm [simp]: "(Month t - 1) div 12 = 0" "(Month t - 1) mod 12 = Month t - 1"
  using month_in_range [OF month_range] by simp_all

lemma fixed_zone_of: "fixed_time t off \<Longrightarrow> fixed_zone (loc t) off"
  by (simp add: fixed_time_def)

lemmas date_fixed = time_Date_fixed [OF fixed_zone_of]

lemma unix_eq: "fixed_time t off \<Longrightarrow> unix t = (civil_day t - unix_epoch) * 86400 + local_time t mod 86400 - off"
  using local_time_split [of t] local_time_fixed [of t off] by (simp add: fixed_time_def)

lemma BeginOfDay_eq:
  "fixed_time t off \<Longrightarrow> BeginOfDay t = \<lparr>unix = (civil_day t - unix_epoch) * 86400 - off, nsec = 0, loc = loc t\<rparr>"
  using Time_Date_valid [of t] by (simp add: BeginOfDay_def date_fixed)

lemma EndOfDay_eq:
  "fixed_time t off \<Longrightarrow>
   EndOfDay t = \<lparr>unix = (civil_day t - unix_epoch) * 86400 + 86399 - off, nsec = 999999999, loc = loc t\<rparr>"
  using Time_Date_valid [of t] by (simp add: EndOfDay_def date_fixed)

lemma BeginOfMonth_eq:
  "fixed_time t off \<Longrightarrow> BeginOfMonth t = \<lparr>unix = (month_start t - unix_epoch) * 86400 - off, nsec = 0, loc = loc t\<rparr>"
  using Time_Date_valid [of t] by (simp add: BeginOfMonth_def date_fixed month_start_def)

lemma BeginOfYear_eq:
  "fixed_time t off \<Longrightarrow>
   BeginOfYear t = \<lparr>unix = (days_before_year (Year t) - unix_epoch) * 86400 - off, nsec = 0, loc = loc t\<rparr>"
  by (simp add: BeginOfYear_def date_fixed days_of_date_def days_before_month_year)

lemma EndOfYear_eq:
  "fixed_time t off \<Longrightarrow> EndOfYear t =
     \<lparr>unix = (days_before_year (Year t) + year_days (Year t) - 1 - unix_epoch) * 86400 + 86399 - off, nsec = 999999999, loc = loc t\<rparr>"
  using days_before_month_next [of 12 "Year t"]
  by (simp add: EndOfYear_def date_fixed days_of_date_def days_before_month_year month_days_def algebra_simps)

lemma nextStart_date:
  assumes "fixed_time t off"
  shows "Time_Date (time_Date (Year t) (Month t + 1) 1 0 0 0 0 (loc t)) = (Year t + Month t div 12, Month t mod 12 + 1, 1)"
  using civil_day_time_Date [OF fixed_zone_of [OF assms], of 0 0 0 0 "Year t" "Month t + 1" 1] next_month_valid [of "Year t" "Month t"]
  by (simp add: in_day_def Time_Date_eq civil_days_of_date)

lemma EndOfMonth_eq:
  assumes "fixed_time t off"
  shows "EndOfMonth t =
    \<lparr>unix = (month_start t + month_days (Year t) (Month t) - 1 - unix_epoch) * 86400 + 86399 - off, nsec = 0, loc = loc t\<rparr>"
proof -
  have "days_of_date (Year t + Month t div 12) (Month t mod 12 + 1) 0 = month_start t + month_days (Year t) (Month t) - 1"
    using next_month [of "Month t" "Year t"] days_in_month [of "Year t + Month t div 12" "Month t mod 12 + 1" 0]
    by (simp add: month_start_def)
  moreover have "(Month t mod 12 + 1 - 1) div 12 = 0" "(Month t mod 12 + 1 - 1) mod 12 = Month t mod 12"
    using month_in_range [of "Month t mod 12 + 1"] pos_mod_bound [of 12 "Month t"] pos_mod_sign [of 12 "Month t"] by simp_all
  moreover define n where "n = time_Date (Year t) (Month t + 1) 1 0 0 0 0 (loc t)"
  have "Year n = Year t + Month t div 12" "Month n = Month t mod 12 + 1" "Day_of n = 1"
    using nextStart_date [OF assms] unfolding n_def [symmetric] Time_Date_valid(1) by simp_all
  then have "EndOfMonth t = time_Date (Year t + Month t div 12) (Month t mod 12 + 1) 0 23 59 59 0 (loc t)"
    by (simp add: EndOfMonth_def n_def [symmetric])
  ultimately show ?thesis by (simp add: date_fixed [OF assms])
qed

lemma DaysOfMonth_eq:
  assumes "fixed_time t off"
  shows "DaysOfMonth t = month_days (Year t) (Month t)"
proof -
  have "Sub (time_Date (Year t) (Month t + 1) 1 0 0 0 0 (loc t)) (time_Date (Year t) (Month t) 1 0 0 0 0 (loc t)) =
      month_days (Year t) (Month t) * Day"
    using next_month [of "Month t" "Year t"] month_days_pos [of "Year t" "Month t"]
    by (simp add: Sub_def date_fixed [OF assms] Day_def)
  then show ?thesis
    using Days_whole [of "month_days (Year t) (Month t)"] month_days_pos [of "Year t" "Month t"] by (simp add: DaysOfMonth_def Let_def)
qed

lemma Clock_total:
  assumes "Clock t = (h, mi, s)"
  shows "h * 3600 + mi * 60 + s = local_time t mod 86400"
proof -
  define k where "k = local_time t mod 86400"
  have "k mod 3600 mod 60 = k mod 60" by (simp add: mod_mod_cancel)
  moreover have "k = k div 3600 * 3600 + k mod 3600" "k mod 3600 = k mod 3600 div 60 * 60 + k mod 3600 mod 60"
    by simp_all
  ultimately have "k = k div 3600 * 3600 + k mod 3600 div 60 * 60 + k mod 60" by linarith
  then show ?thesis using assms by (simp add: Clock_def Let_def k_def)
qed

text \<open>The month before, and where one month earlier falls.\<close>

definition prev_month :: "Time \<Rightarrow> int \<times> int" where
  "prev_month t = (if Month t = 1 then (Year t - 1, 12) else (Year t, Month t - 1))"

lemma later_month: "Month t \<noteq> 1 \<Longrightarrow> 2 \<le> Month t \<and> Month t \<le> 12 \<and> Month t \<le> 13 \<and> 1 < Month t"
  using month_range(1) [of t] month_range(2) [of t] by linarith

lemma prev_month_eq: "prev_month t = (Year t + (Month t - 2) div 12, (Month t - 2) mod 12 + 1)"
proof (cases "Month t = 1")
  case False
  then show ?thesis using month_in_range [of "Month t - 1"] later_month [of t] by (simp add: prev_month_def)
qed (simp add: prev_month_def)

lemma prev_month_start:
  assumes "prev_month t = (py, pm)"
  shows "month_start t = days_of_date py pm 1 + month_days py pm" and "1 \<le> pm" and "pm \<le> 12"
proof -
  show pm: "1 \<le> pm" "pm \<le> 12" using assms later_month [of t] by (auto simp: prev_month_def split: if_splits)
  have "py + pm div 12 = Year t \<and> pm mod 12 + 1 = Month t"
    using assms later_month [of t] by (auto simp: prev_month_def split: if_splits)
  then show "month_start t = days_of_date py pm 1 + month_days py pm"
    using next_month [OF pm, of py] by (simp add: month_start_def)
qed

lemma LastMonthNow_eq:
  assumes "fixed_time t off" and "prev_month t = (py, pm)"
  shows "LastMonthNow t = \<lparr>unix = (days_of_date py pm (Day_of t) - unix_epoch) * 86400 + local_time t mod 86400 - off,
    nsec = nsec t, loc = loc t\<rparr>"
proof -
  obtain h mi s where c: "Clock t = (h, mi, s)" by (cases "Clock t") auto
  have "py = Year t + (Month t - 2) div 12" "pm = (Month t - 2) mod 12 + 1" using assms(2) by (simp_all add: prev_month_eq)
  then show ?thesis
    using assms(1) Clock_total [OF c] Time_Date_valid(1) [of t] c date_fixed [OF assms(1), of "nsec t"]
    by (simp add: LastMonthNow_def AddDate_def fixed_time_def [of t])
qed

lemma LastMonthNow_day:
  assumes "fixed_time t off" and "prev_month t = (py, pm)"
  shows "fixed_time (LastMonthNow t) off" and "civil_day (LastMonthNow t) = days_of_date py pm (Day_of t)"
proof -
  show f: "fixed_time (LastMonthNow t) off" using assms(1) by (simp add: LastMonthNow_eq [OF assms] fixed_time_def)
  have "local_time (LastMonthNow t) = local_time t mod 86400 + (days_of_date py pm (Day_of t) - unix_epoch) * 86400"
    using local_time_fixed [OF fixed_zone_of [OF f]] by (simp add: LastMonthNow_eq [OF assms])
  then show "civil_day (LastMonthNow t) = days_of_date py pm (Day_of t)" by (simp add: civil_day_def)
qed

lemma LastMonthNow_date:
  assumes "fixed_time t off" and "prev_month t = (py, pm)"
  shows "Time_Date (LastMonthNow t) =
    (if Day_of t \<le> month_days py pm then (py, pm, Day_of t) else (Year t, Month t, Day_of t - month_days py pm))"
proof (cases "Day_of t \<le> month_days py pm")
  case True
  then have "valid_date py pm (Day_of t)" using prev_month_start [OF assms(2)] day_range [of t] by (simp add: valid_date_def)
  then show ?thesis using True by (simp add: Time_Date_eq LastMonthNow_day [OF assms] civil_days_of_date)
next
  case False
  then have "valid_date (Year t) (Month t) (Day_of t - month_days py pm)"
    using day_range [of t] month_days_pos(1) [of py pm] by (simp add: valid_date_def)
  moreover have "civil_day (LastMonthNow t) = days_of_date (Year t) (Month t) (Day_of t - month_days py pm)"
    using prev_month_start(1) [OF assms(2)] LastMonthNow_day(2) [OF assms]
      days_in_month [of py pm "Day_of t"] days_in_month [of "Year t" "Month t" "Day_of t - month_days py pm"]
    by (simp add: month_start_def)
  ultimately show ?thesis using False by (simp add: Time_Date_eq civil_days_of_date)
qed

section \<open>Dates as numbers\<close>

lemma digits_value_append: "digits_value (xs @ ys) = digits_value xs * 10 ^ length ys + digits_value ys"
proof (induction ys rule: rev_induct)
  case (snoc c ys)
  then show ?case by (simp add: digits_value_def algebra_simps)
qed (simp add: digits_value_def)

lemma decimal_length: "n < 100 \<Longrightarrow> length (decimal n) = (if n < 10 then 1 else 2)"
  using less_mult_imp_div_less [of n 10 10] by (simp add: decimal.simps [of n] decimal.simps [of "n div 10"])

lemma Itoa_small: "0 \<le> n \<Longrightarrow> n < 2 ^ 63 \<Longrightarrow> Itoa (word_of_int n) = decimal (nat n)"
  by (simp add: Itoa_def signed_of_int signed_take_bit_int_eq_self)

lemma pad_two:
  assumes "0 \<le> n" and "n < 100"
  shows "length (PadLeftInt (word_of_int n) 2 ''0'') = 2" and "list_all is_digit (PadLeftInt (word_of_int n) 2 ''0'')"
    and "digits_value (PadLeftInt (word_of_int n) 2 ''0'') = nat n"
proof -
  have two: "sint (2 :: go_int) = 2" by simp
  have i: "Itoa (word_of_int n) = decimal (nat n)" using assms by (intro Itoa_small) simp_all
  have z: "is_digit CHR ''0''" "digits_value ''0'' = 0" by (simp_all add: is_digit_def digits_value_def)
  have l: "length (decimal (nat n)) = (if nat n < 10 then 1 else 2)" using assms by (intro decimal_length) simp
  then have p: "PadLeftInt (word_of_int n) 2 ''0'' = (if nat n < 10 then CHR ''0'' # decimal (nat n) else decimal (nat n))"
    by (auto simp: PadLeftInt_def Let_def i two Repeat_def)
  show "length (PadLeftInt (word_of_int n) 2 ''0'') = 2" using l by (simp add: p)
  show "list_all is_digit (PadLeftInt (word_of_int n) 2 ''0'')" using z decimal_digits [of "nat n"] by (simp add: p)
  show "digits_value (PadLeftInt (word_of_int n) 2 ''0'') = nat n"
    using decimal_digits [of "nat n"] digits_value_append [of "''0''" "decimal (nat n)"] z by (simp add: p)
qed

lemma Atoi_digits:
  assumes "list_all is_digit s" and "s \<noteq> []" and "digits_value s < 2 ^ 63"
  shows "Atoi s = Inr (of_nat (digits_value s))"
proof -
  obtain c cs where s: "s = c # cs" using assms(2) by (cases s) auto
  then have "c \<noteq> CHR ''-''" "c \<noteq> CHR ''+''" using assms(1) by (auto simp: is_digit_def)
  then show ?thesis using assms by (simp add: Atoi_def Let_def s)
qed

lemma YYYYMMDD_value:
  assumes "0 \<le> Year t" and "Year t < 10 ^ 14"
  shows "TimeToYYYYMMDDInt t = Inr (word_of_int (Year t * 10000 + Month t * 100 + Day_of t))"
proof -
  have r: "0 \<le> Month t" "Month t < 100" "0 \<le> Day_of t" "Day_of t < 100"
    using later_month [of t] day_range [of t] month_days_pos(2) [of "Year t" "Month t"] by (cases "Month t = 1"; simp)+
  define s where "s = TimeToYYYYMMDD t"
  have y: "Itoa (word_of_int (Year t)) = decimal (nat (Year t))" using assms by (intro Itoa_small) simp_all
  have v: "digits_value s = nat (Year t) * 10000 + nat (Month t) * 100 + nat (Day_of t)"
    using decimal_digits [of "nat (Year t)"] pad_two [OF r(1,2)] pad_two [OF r(3,4)]
    by (simp add: s_def TimeToYYYYMMDD_def y digits_value_append)
  have "list_all is_digit s" "s \<noteq> []"
    using decimal_digits [of "nat (Year t)"] pad_two [OF r(1,2)] pad_two [OF r(3,4)] by (simp_all add: s_def TimeToYYYYMMDD_def y)
  moreover have "digits_value s < 2 ^ 63" using assms r by (simp add: v)
  ultimately have "TimeToYYYYMMDDInt t = Inr (of_nat (digits_value s))"
    by (simp add: TimeToYYYYMMDDInt_def s_def [symmetric] Atoi_digits)
  moreover have "int (digits_value s) = Year t * 10000 + Month t * 100 + Day_of t" using assms r by (simp add: v)
  ultimately show ?thesis by (metis of_int_of_nat_eq)
qed

section \<open>Properties\<close>

definition instant :: "Time \<Rightarrow> int" where
  "instant t = unix t * 1000000000 + nsec t"

lemma instant_record [simp]: "instant \<lparr>unix = u, nsec = n, loc = l\<rparr> = u * 1000000000 + n"
  by (simp add: instant_def)

lemma instant_in_day:
  assumes "fixed_time t off"
  obtains k where "0 \<le> k" and "k < Day" and "instant t = ((civil_day t - unix_epoch) * 86400 - off) * 1000000000 + k"
proof
  define r where "r = local_time t mod 86400"
  have r: "0 \<le> r" "r < 86400" by (simp_all add: r_def)
  show "0 \<le> r * 1000000000 + nsec t" "r * 1000000000 + nsec t < Day"
    using assms r by (simp_all add: fixed_time_def Day_def)
  show "instant t = ((civil_day t - unix_epoch) * 86400 - off) * 1000000000 + (r * 1000000000 + nsec t)"
    by (simp add: instant_def unix_eq [OF assms] r_def)
qed

lemma day_between:
  assumes "fixed_time t off"
  shows "instant (BeginOfDay t) \<le> instant t \<and> instant t \<le> instant (EndOfDay t) \<and>
    instant (EndOfDay t) = instant (BeginOfDay t) + Day - 1"
proof -
  obtain k where "0 \<le> k" "k < Day" "instant t = ((civil_day t - unix_epoch) * 86400 - off) * 1000000000 + k"
    using instant_in_day [OF assms] .
  then show ?thesis by (simp add: BeginOfDay_eq [OF assms] EndOfDay_eq [OF assms] Day_def)
qed

lemma year_day_bounds: "days_before_year (Year t) \<le> civil_day t \<and> civil_day t < days_before_year (Year t) + year_days (Year t)"
  using year_of_day_bounds [of "civil_day t"] days_before_year_next [of "Year t"]
  by (simp add: Year_def Time_Date_eq civil_def Let_def split: prod.split)

lemma EndOfMonth_date:
  assumes "fixed_time t off"
  shows "Time_Date (EndOfMonth t) = (Year t, Month t, month_days (Year t) (Month t))"
    and "Time_Date (BeginOfMonth t) = (Year t, Month t, 1)"
proof -
  have v: "valid_date (Year t) (Month t) d" if "1 \<le> d" "d \<le> month_days (Year t) (Month t)" for d
    using that by (simp add: valid_date_def)
  have "civil_day (EndOfMonth t) = days_of_date (Year t) (Month t) (month_days (Year t) (Month t))"
    using assms days_in_month [of "Year t" "Month t" "month_days (Year t) (Month t)"]
    by (simp add: civil_day_def EndOfMonth_eq local_time_def fixed_time_def fixed_zone_def month_start_def)
  then show "Time_Date (EndOfMonth t) = (Year t, Month t, month_days (Year t) (Month t))"
    using v [of "month_days (Year t) (Month t)"] month_days_pos(1) [of "Year t" "Month t"]
    by (simp add: Time_Date_eq civil_days_of_date)
  have "civil_day (BeginOfMonth t) = days_of_date (Year t) (Month t) 1"
    using assms by (simp add: civil_day_def BeginOfMonth_eq local_time_def fixed_time_def fixed_zone_def month_start_def)
  then show "Time_Date (BeginOfMonth t) = (Year t, Month t, 1)"
    using v [of 1] month_days_pos(1) [of "Year t" "Month t"] by (simp add: Time_Date_eq civil_days_of_date)
qed


definition utc :: location where
  "utc = (\<lambda>_. (0, - (2 ^ 63), 2 ^ 63 - 1))"

lemma utc_fixed [simp]: "fixed_zone utc 0"
  by (simp add: fixed_zone_def utc_def)

definition utc_date :: "int \<Rightarrow> int \<Rightarrow> int \<Rightarrow> Time" where
  "utc_date y m d = time_Date y m d 12 30 15 0 utc"

lemma utc_date_fixed: "fixed_time (utc_date y m d) 0"
  by (simp add: utc_date_def fixed_time_def time_Date_fixed [OF utc_fixed])

lemma utc_date_Date: "valid_date y m d \<Longrightarrow> Time_Date (utc_date y m d) = (y, m, d)"
  using civil_day_time_Date [OF utc_fixed, of 12 30 15 0 y m d] month_in_range [of m]
  by (simp add: utc_date_def Time_Date_eq in_day_def civil_days_of_date valid_date_def)


text \<open>
  C36: \<open>LastMonthNow\<close> is in the month before exactly when that month has the day; otherwise it
  is still in the same month, and then \<open>LastMonthFirstDay\<close> and \<open>LastMonthLastDay\<close> are the
  first and last day of the current month.
\<close>

theorem last_month:
  assumes "fixed_time t off" and "prev_month t = (py, pm)"
  shows "if Day_of t \<le> month_days py pm
    then Time_Date (LastMonthNow t) = (py, pm, Day_of t) \<and>
      Time_Date (LastMonthFirstDay t) = (py, pm, 1) \<and> Time_Date (LastMonthLastDay t) = (py, pm, month_days py pm)
    else Time_Date (LastMonthNow t) = (Year t, Month t, Day_of t - month_days py pm) \<and>
      LastMonthFirstDay t = ThisMonthFirstDay t \<and> LastMonthLastDay t = EndOfMonth t"
proof -
  define l where "l = LastMonthNow t"
  have f: "fixed_time l off" and ll: "loc l = loc t"
    using LastMonthNow_day(1) [OF assms] LastMonthNow_eq [OF assms] by (simp_all add: l_def)
  have d: "Time_Date l = (if Day_of t \<le> month_days py pm then (py, pm, Day_of t) else (Year t, Month t, Day_of t - month_days py pm))"
    using LastMonthNow_date [OF assms] by (simp add: l_def)
  show ?thesis
  proof (cases "Day_of t \<le> month_days py pm")
    case True
    then have "Year l = py" "Month l = pm" using d by (simp_all add: Year_def Month_def)
    then show ?thesis
      using True d EndOfMonth_date [OF f] by (simp add: l_def LastMonthFirstDay_def LastMonthLastDay_def)
  next
    case False
    then have "Year l = Year t" "Month l = Month t" using d by (simp_all add: Year_def [of l] Month_def [of l])
    then have "month_start l = month_start t" by (simp add: month_start_def)
    with False d \<open>Year l = Year t\<close> \<open>Month l = Month t\<close> show ?thesis
      by (simp add: l_def LastMonthFirstDay_def LastMonthLastDay_def ThisMonthFirstDay_def
          BeginOfMonth_eq [OF f [unfolded l_def]] EndOfMonth_eq [OF f [unfolded l_def]]
          BeginOfMonth_eq [OF assms(1)] EndOfMonth_eq [OF assms(1)] ll [unfolded l_def])
  qed
qed

theorem last_month_witness:
  "LastMonthFirstDay (utc_date 2025 3 31) = ThisMonthFirstDay (utc_date 2025 3 31) \<and>
   Time_Date (LastMonthNow (utc_date 2025 3 31)) = (2025, 3, 3)"
proof -
  have "Time_Date (utc_date 2025 3 31) = (2025, 3, 31)"
    by (rule utc_date_Date) (simp add: valid_date_def month_days_def)
  then show ?thesis
    using last_month [OF utc_date_fixed, of 2025 3 31 2025 2]
    by (simp add: Year_def Month_def Day_of_def prev_month_def month_days_def leap_def)
qed

text \<open>
  The date of a year from 0 on, written as \<^verbatim>\<open>YYYYMMDD\<close> and read as a number, is year,
  month and day side by side.
\<close>

lemma yyyymmdd_number:
  assumes "0 \<le> Year t" and "Year t < 10 ^ 14"
  shows "TimeToYYYYMMDDInt t = Inr (word_of_int (Year t * 10000 + Month t * 100 + Day_of t))"
  using assms by (rule YYYYMMDD_value)

end
