(* ===== verification/Rate_Limit.thy ===== *)
theory Rate_Limit
  imports Texts
begin

text \<open>
  The client address of a request (\<^verbatim>\<open>ip.go\<close>) and the rate limiting middleware
  (\<^verbatim>\<open>rate-limter.go\<close>), with what they use of the package \<^verbatim>\<open>net\<close>. The token bucket of
  \<^verbatim>\<open>golang.org/x/time/rate\<close> is a parameter; of \<^verbatim>\<open>gin\<close> only the calls the middleware makes
  on its context are recorded.
\<close>

section \<open>Addresses\<close>

text \<open>Whether \<^verbatim>\<open>net.ParseIP\<close> accepts a text: dotted decimal, or IPv6 without a zone.\<close>

definition octet :: "string \<Rightarrow> bool" where
  "octet s \<longleftrightarrow> s \<noteq> [] \<and> list_all is_digit s \<and> (hd s \<noteq> CHR ''0'' \<or> length s = 1) \<and> digits_value s \<le> 255"

definition ipv4 :: "string \<Rightarrow> bool" where
  "ipv4 s \<longleftrightarrow> (let fs = cut_all s ''.'' in length fs = 4 \<and> list_all octet fs)"

definition is_hex :: "char \<Rightarrow> bool" where
  "is_hex c \<longleftrightarrow> is_digit c \<or> c \<in> set ''abcdefABCDEF''"

definition ipv6_full :: "nat \<Rightarrow> bool \<Rightarrow> bool" where
  "ipv6_full i ellipsis \<longleftrightarrow> (if i < 16 then ellipsis else \<not> ellipsis)"

text \<open>The loop over the fields: \<open>i\<close> bytes are filled, \<open>ellipsis\<close> says that \<^verbatim>\<open>::\<close> was seen.\<close>

function ipv6_loop :: "nat \<Rightarrow> bool \<Rightarrow> string \<Rightarrow> bool" where
  "ipv6_loop i ellipsis s =
     (if 16 \<le> i then s = [] \<and> ipv6_full i ellipsis
      else let off = length (takeWhile is_hex s); rest = dropWhile is_hex s
           in if off = 0 \<or> off > 4 then False
              else case rest of
                     [] \<Rightarrow> ipv6_full (i + 2) ellipsis
                   | c # cs \<Rightarrow>
                       if c = CHR ''.'' then (ellipsis \<or> i = 12) \<and> i + 4 \<le> 16 \<and> ipv4 s \<and> ipv6_full (i + 4) ellipsis
                       else if c \<noteq> CHR '':'' \<or> cs = [] then False
                       else if hd cs = CHR '':''
                            then \<not> ellipsis \<and> (if tl cs = [] then ipv6_full (i + 2) True else ipv6_loop (i + 2) True (tl cs))
                            else ipv6_loop (i + 2) ellipsis cs)"
  by pat_completeness auto
termination
  by (relation "measure (\<lambda>(i, e, s). 16 - i)") auto

declare ipv6_loop.simps [simp del]

definition ipv6 :: "string \<Rightarrow> bool" where
  "ipv6 s \<longleftrightarrow> (if take 2 s = ''::'' then drop 2 s = [] \<or> ipv6_loop 0 True (drop 2 s) else ipv6_loop 0 False s)"

definition ParseIP :: "string \<Rightarrow> bool" where
  "ParseIP s \<longleftrightarrow>
     CHR ''%'' \<notin> set s \<and>
     (case dropWhile (\<lambda>c. c \<noteq> CHR ''.'' \<and> c \<noteq> CHR '':'') s of
        [] \<Rightarrow> False
      | c # _ \<Rightarrow> if c = CHR ''.'' then ipv4 s else ipv6 s)"

text \<open>\<^verbatim>\<open>net.SplitHostPort\<close>: the host in front of the last colon, brackets removed.\<close>

definition SplitHostPort :: "string \<Rightarrow> go_error + string \<times> string" where
  "SplitHostPort hp =
     (if CHR '':'' \<notin> set hp then Inl (Err ''missing port in address'')
      else let i = length hp - 1 - length (takeWhile (\<lambda>c. c \<noteq> CHR '':'') (rev hp)); port = drop (i + 1) hp
           in if hd hp = CHR ''[''
              then let e = length (takeWhile (\<lambda>c. c \<noteq> CHR '']'') hp)
                   in if e = length hp then Inl (Err ''missing ']' in address'')
                      else if e + 1 = length hp then Inl (Err ''missing port in address'')
                      else if e + 1 \<noteq> i
                           then Inl (Err (if hp ! (e + 1) = CHR '':'' then ''too many colons in address'' else ''missing port in address''))
                      else if CHR ''['' \<in> set (drop 1 hp) then Inl (Err ''unexpected '[' in address'')
                      else if CHR '']'' \<in> set (drop (e + 1) hp) then Inl (Err ''unexpected ']' in address'')
                      else Inr (take (e - 1) (tl hp), port)
              else let host = take i hp
                   in if CHR '':'' \<in> set host then Inl (Err ''too many colons in address'')
                      else if CHR ''['' \<in> set hp then Inl (Err ''unexpected '[' in address'')
                      else if CHR '']'' \<in> set hp then Inl (Err ''unexpected ']' in address'')
                      else Inr (host, port))"

text \<open>\<open>Header\<close> gives the first value of a header, empty when there is none.\<close>

record Request =
  Header :: "string \<Rightarrow> string"
  RemoteAddr :: string

fun first_ip :: "string list \<Rightarrow> string option" where
  "first_ip [] = None"
| "first_ip (ip # ips) = (if ParseIP ip then Some ip else first_ip ips)"

definition GetClientIp :: "Request \<Rightarrow> string" where
  "GetClientIp req =
     (let ip = Header req ''X-Real-IP''
      in if ParseIP ip then ip
         else case first_ip (SplitSeq (Header req ''X-Forwarded-For'') '','') of
                Some ip \<Rightarrow> ip
              | None \<Rightarrow>
                  (case SplitHostPort (RemoteAddr req) of
                     Inl err \<Rightarrow> ''''
                   | Inr (ip, _) \<Rightarrow> if ParseIP ip then ip else ''''))"

section \<open>Limiters\<close>

text \<open>
  \<open>every\<close> and \<open>new_limiter\<close> are \<^verbatim>\<open>rate.Every\<close> and \<^verbatim>\<open>rate.NewLimiter\<close>; \<open>allow now l\<close> is
  \<^verbatim>\<open>Allow\<close> at the given time, with the limiter after it.
\<close>

record ('r, 'l) rate =
  every :: "int \<Rightarrow> 'r"
  new_limiter :: "'r \<Rightarrow> go_int \<Rightarrow> 'l"
  allow :: "int \<Rightarrow> 'l \<Rightarrow> bool \<times> 'l"

text \<open>
  The global \<^verbatim>\<open>ipLimiter\<close>. Limiters are shared by pointer: \<open>store\<close> holds them, \<open>ips\<close> the
  pointers. The middleware exists only after \<^verbatim>\<open>init\<close>, which makes the map and the mutex.
\<close>

record ('r, 'l) ipRateLimiter =
  store :: "'l list"
  ips :: "(string, nat) gomap"
  limit :: 'r
  b :: go_int

definition init :: "('r, 'l) rate \<Rightarrow> int \<Rightarrow> go_int \<Rightarrow> ('r, 'l) ipRateLimiter \<Rightarrow> ('r, 'l) ipRateLimiter" where
  "init r limitInterval cnt st = st\<lparr>ips := [], limit := every r limitInterval, b := cnt\<rparr>"

definition addIp :: "('r, 'l) rate \<Rightarrow> string \<Rightarrow> ('r, 'l) ipRateLimiter \<Rightarrow> nat \<times> ('r, 'l) ipRateLimiter" where
  "addIp r ip st =
     (let l = new_limiter r (limit st) (b st); p = length (store st)
      in (p, st\<lparr>store := store st @ [l], ips := AList.update ip p (ips st)\<rparr>))"

text \<open>
  \<^verbatim>\<open>get\<close>: the lookup under the read lock, and what follows it. Between the two another
  goroutine may run.
\<close>

definition find_ip :: "string \<Rightarrow> ('r, 'l) ipRateLimiter \<Rightarrow> nat option" where
  "find_ip ip st = map_of (ips st) ip"

definition after_find :: "('r, 'l) rate \<Rightarrow> string \<Rightarrow> nat option \<Rightarrow> ('r, 'l) ipRateLimiter \<Rightarrow> nat \<times> ('r, 'l) ipRateLimiter" where
  "after_find r ip found st = (case found of Some lm \<Rightarrow> (lm, st) | None \<Rightarrow> addIp r ip st)"

definition get :: "('r, 'l) rate \<Rightarrow> string \<Rightarrow> ('r, 'l) ipRateLimiter \<Rightarrow> nat \<times> ('r, 'l) ipRateLimiter" where
  "get r ip st = after_find r ip (find_ip ip st) st"

definition Allow_at :: "('r, 'l) rate \<Rightarrow> int \<Rightarrow> nat \<Rightarrow> ('r, 'l) ipRateLimiter \<Rightarrow> bool \<times> ('r, 'l) ipRateLimiter" where
  "Allow_at r now p st = (let (ok, l) = allow r now (store st ! p) in (ok, st\<lparr>store := (store st)[p := l]\<rparr>))"

datatype ctx_call = Status int | Next | AbortWithStatus int

definition handle :: "('r, 'l) rate \<Rightarrow> int \<Rightarrow> Request \<Rightarrow> ('r, 'l) ipRateLimiter \<Rightarrow> ctx_call list \<times> ('r, 'l) ipRateLimiter" where
  "handle r now req st =
     (let ip = GetClientIp req
      in if ip = '''' then ([Status 400], st)
         else let (lm, st) = get r ip st; (ok, st) = Allow_at r now lm st
              in if ok then ([Next], st) else ([AbortWithStatus 429], st))"

text \<open>The middleware on requests that come one after another.\<close>

fun serve :: "('r, 'l) rate \<Rightarrow> (int \<times> Request) list \<Rightarrow> ('r, 'l) ipRateLimiter \<Rightarrow> ctx_call list list" where
  "serve r [] st = []"
| "serve r ((now, req) # reqs) st = (let (calls, st) = handle r now req st in calls # serve r reqs st)"

definition RateLimitMiddleware ::
    "('r, 'l) rate \<Rightarrow> int \<Rightarrow> go_int \<Rightarrow> ('r, 'l) ipRateLimiter \<Rightarrow> (int \<times> Request) list \<Rightarrow> ctx_call list list" where
  "RateLimitMiddleware r limitInterval cnt st reqs = serve r reqs (init r limitInterval cnt st)"

section \<open>One limiter per address\<close>

text \<open>The abstract limiter: each address has a bucket of its own, a new one at first.\<close>

fun serve_spec :: "('r, 'l) rate \<Rightarrow> (string \<Rightarrow> 'l) \<Rightarrow> (int \<times> Request) list \<Rightarrow> ctx_call list list" where
  "serve_spec r bucket [] = []"
| "serve_spec r bucket ((now, req) # reqs) =
     (let ip = GetClientIp req
      in if ip = '''' then [Status 400] # serve_spec r bucket reqs
         else let (ok, l) = allow r now (bucket ip)
              in (if ok then [Next] else [AbortWithStatus 429]) # serve_spec r (bucket(ip := l)) reqs)"

definition buckets_rep :: "('r, 'l) rate \<Rightarrow> ('r, 'l) ipRateLimiter \<Rightarrow> (string \<Rightarrow> 'l) \<Rightarrow> bool" where
  "buckets_rep r st bucket \<longleftrightarrow>
     (\<forall>ip. find_ip ip st = None \<longrightarrow> bucket ip = new_limiter r (limit st) (b st)) \<and>
     (\<forall>ip p. find_ip ip st = Some p \<longrightarrow> p < length (store st) \<and> store st ! p = bucket ip) \<and>
     (\<forall>ip ip' p. find_ip ip st = Some p \<longrightarrow> find_ip ip' st = Some p \<longrightarrow> ip = ip')"

lemma find_ip_addIp:
  "find_ip ip' (snd (addIp r ip st)) = (if ip' = ip then Some (length (store st)) else find_ip ip' st)"
  by (simp add: addIp_def find_ip_def Let_def update_conv')

lemma get_rep:
  assumes "buckets_rep r st bucket" and "get r ip st = (p, st')"
  shows "buckets_rep r st' bucket" and "find_ip ip st' = Some p"
proof (atomize (full), cases "find_ip ip st")
  case None
  then have e: "(p, st') = addIp r ip st" using assms(2) by (simp add: get_def after_find_def)
  then have f: "find_ip ip' st' = (if ip' = ip then Some p else find_ip ip' st)" and p: "p = length (store st)"
    and s: "store st' = store st @ [new_limiter r (limit st) (b st)]" "limit st' = limit st" "b st' = b st" for ip'
    using find_ip_addIp [of ip' r ip st] by (simp_all add: addIp_def Let_def)
  have old: "find_ip ip' st = Some q \<Longrightarrow> q < p" for ip' q
    using assms(1) by (auto simp: buckets_rep_def p)
  show "buckets_rep r st' bucket \<and> find_ip ip st' = Some p"
    using assms(1) None old by (auto simp: buckets_rep_def f p s nth_append less_Suc_eq)
qed (use assms in \<open>auto simp: get_def after_find_def\<close>)

lemma Allow_rep:
  assumes "buckets_rep r st bucket" and "find_ip ip st = Some p" and "Allow_at r now p st = (ok, st')"
  shows "allow r now (bucket ip) = (ok, store st' ! p) \<and> buckets_rep r st' (bucket(ip := store st' ! p))"
proof -
  have p: "p < length (store st)" "store st ! p = bucket ip"
    using assms(1,2) by (auto simp: buckets_rep_def)
  obtain l where l: "allow r now (bucket ip) = (ok, l)" "st' = st\<lparr>store := (store st)[p := l]\<rparr>"
    using assms(3) p by (auto simp: Allow_at_def split: prod.splits)
  have f: "find_ip ip' st' = find_ip ip' st" for ip' by (simp add: l find_ip_def)
  show ?thesis
    using assms(1,2) p by (auto simp: l(1) l(2) buckets_rep_def find_ip_def nth_list_update)
qed

lemma serve_rep: "buckets_rep r st bucket \<Longrightarrow> serve r reqs st = serve_spec r bucket reqs"
proof (induction reqs arbitrary: st bucket)
  case (Cons x reqs)
  obtain now req where x: "x = (now, req)" by fastforce
  define ip where "ip = GetClientIp req"
  obtain p st1 where g: "get r ip st = (p, st1)" by fastforce
  obtain ok st2 where a: "Allow_at r now p st1 = (ok, st2)" by fastforce
  note rep = get_rep [OF Cons.prems g]
  note al = Allow_rep [OF rep a]
  show ?case
  proof (cases "ip = ''''")
    case True
    then show ?thesis using Cons by (simp add: x handle_def ip_def)
  next
    case False
    then have "handle r now req st = (if ok then [Next] else [AbortWithStatus 429], st2)"
      by (simp add: handle_def ip_def [symmetric] g a)
    then show ?thesis
      using False al Cons.IH [OF conjunct2 [OF al]] by (simp add: x ip_def [symmetric] fun_upd_def)
  qed
qed simp

lemma init_rep: "buckets_rep r (init r d n st) (\<lambda>_. new_limiter r (every r d) n)"
  by (simp add: buckets_rep_def init_def find_ip_def)

text \<open>
  Two first requests of one address at the same time: both look up before either adds, each
  gets a fresh limiter, and the tokens of the first are forgotten.
\<close>

lemma first_requests_race:
  assumes "find_ip ip st = None" and "after_find r ip (find_ip ip st) st = (p, st1)"
    and "after_find r ip (find_ip ip st) st1 = (q, st2)"
  shows "p \<noteq> q \<and> store st2 ! p = new_limiter r (limit st) (b st) \<and>
    store st2 ! q = new_limiter r (limit st) (b st) \<and> find_ip ip st2 = Some q"
  using assms by (auto simp: after_find_def addIp_def Let_def nth_append find_ip_def update_conv')

lemma GetClientIp_valid: "GetClientIp req = [] \<or> ParseIP (GetClientIp req)"
proof -
  have "first_ip fs = Some ip \<Longrightarrow> ParseIP ip" for fs ip by (induction fs) (auto split: if_splits)
  then show ?thesis by (auto simp: GetClientIp_def Let_def split: option.split sum.split)
qed

section \<open>Properties\<close>


end
