(* ===== verification/Http.thy ===== *)
theory Http
  imports Texts
begin

text \<open>
  The HTTP helpers of \<^verbatim>\<open>http.go\<close> and their client \<^verbatim>\<open>third_wx.go\<close>. The network is a parameter:
  \<open>new_request\<close> is the error of \<^verbatim>\<open>http.NewRequest\<close>, if any, and \<open>do\<close> what
  \<^verbatim>\<open>http.Client.Do\<close> gives for a request and a timeout. JSON coding is a parameter too; decoding
  writes into the value it is given, also when it fails halfway.
\<close>

section \<open>Requests and responses\<close>

definition HeaderAuthorization :: string where "HeaderAuthorization = ''Authorization''"
definition HeaderContentType :: string where "HeaderContentType = ''Content-Type''"
definition ContentTypeJson :: string where "ContentTypeJson = ''application/json;charset=utf-8''"

text \<open>The key of a header as \<^verbatim>\<open>Header.Add\<close> stores it: capitals at the start and after dashes.\<close>

definition upper :: "char \<Rightarrow> char" where
  "upper c = (if 97 \<le> (of_char c :: nat) \<and> of_char c \<le> (122 :: nat) then char_of (of_char c - 32 :: nat) else c)"

definition lower :: "char \<Rightarrow> char" where
  "lower c = (if 65 \<le> (of_char c :: nat) \<and> of_char c \<le> (90 :: nat) then char_of (of_char c + 32 :: nat) else c)"

definition token_char :: "char \<Rightarrow> bool" where
  "token_char c \<longleftrightarrow> is_digit c \<or> (65 \<le> (of_char c :: nat) \<and> of_char c \<le> (90 :: nat)) \<or>
     (97 \<le> (of_char c :: nat) \<and> of_char c \<le> (122 :: nat)) \<or> c \<in> set ''!#$%&*+-.^_`|~'' \<or> c = CHR 0x27"

fun canonical :: "bool \<Rightarrow> string \<Rightarrow> string" where
  "canonical up [] = []"
| "canonical up (c # cs) = (if up then upper c else lower c) # canonical (c = CHR ''-'') cs"

definition CanonicalHeaderKey :: "string \<Rightarrow> string" where
  "CanonicalHeaderKey k = (if list_all token_char k then canonical True k else k)"

record HttpOptions =
  Headers :: "(string, string) gomap"
  Timeout :: int

record request =
  req_method :: string
  req_url :: string
  req_body :: bytes
  req_header :: "(string \<times> string) list"

text \<open>The body of a response is what \<^verbatim>\<open>io.ReadAll\<close> gives: bytes, and an error if it broke off.\<close>

record response =
  StatusCode :: go_int
  ContentLength :: int64
  Body :: "bytes \<times> go_error option"

record net =
  new_request :: "string \<Rightarrow> string \<Rightarrow> go_error option"
  do :: "int \<Rightarrow> request \<Rightarrow> go_error + response"

definition NewHttpOptions :: "(string, string) gomap \<Rightarrow> HttpOptions" where
  "NewHttpOptions headers = \<lparr>Headers = headers, Timeout = 30 * 1000000000\<rparr>"

definition NewEmptyHttpOptions :: HttpOptions where
  "NewEmptyHttpOptions = \<lparr>Headers = [], Timeout = 0\<rparr>"

definition NewHttpOptionsJson :: "string \<Rightarrow> HttpOptions" where
  "NewHttpOptionsJson authorization =
     (let headers = AList.update HeaderAuthorization authorization [];
          headers = AList.update HeaderContentType ContentTypeJson headers
      in \<lparr>Headers = headers, Timeout = 30 * 1000000000\<rparr>)"

definition status_error :: "go_int \<Rightarrow> go_error" where
  "status_error code = Err (''status code:'' @ Itoa code)"

text \<open>The loop over the options' headers, a Go map visited in the order \<open>ord\<close> of its keys.\<close>

definition add_headers :: "(string list \<Rightarrow> string list) \<Rightarrow> (string, string) gomap \<Rightarrow> (string \<times> string) list" where
  "add_headers ord headers = map (\<lambda>k. (CanonicalHeaderKey k, the (map_of headers k))) (ord (map fst headers))"

definition HttpPost :: "net \<Rightarrow> (string list \<Rightarrow> string list) \<Rightarrow> string \<Rightarrow> bytes \<Rightarrow> HttpOptions \<Rightarrow> bytes \<times> go_error option" where
  "HttpPost n ord url data options =
     (case new_request n ''POST'' url of
        Some err \<Rightarrow> ([], Some err)
      | None \<Rightarrow>
          (case do n (Timeout options) \<lparr>req_method = ''POST'', req_url = url, req_body = data, req_header = add_headers ord (Headers options)\<rparr> of
             Inl err \<Rightarrow> ([], Some err)
           | Inr resp \<Rightarrow>
               if StatusCode resp \<noteq> 200
               then if 0 < sint (ContentLength resp) then (fst (Body resp), Some (status_error (StatusCode resp)))
                    else ([], Some (status_error (StatusCode resp)))
               else Body resp))"

definition HttpGet :: "net \<Rightarrow> (string list \<Rightarrow> string list) \<Rightarrow> string \<Rightarrow> HttpOptions \<Rightarrow> bytes \<times> go_error option" where
  "HttpGet n ord url options =
     (case new_request n ''GET'' url of
        Some err \<Rightarrow> ([], Some err)
      | None \<Rightarrow>
          (case do n (Timeout options) \<lparr>req_method = ''GET'', req_url = url, req_body = [], req_header = add_headers ord (Headers options)\<rparr> of
             Inl err \<Rightarrow> ([], Some err)
           | Inr resp \<Rightarrow>
               if StatusCode resp \<noteq> 200 then ([], Some (status_error (StatusCode resp))) else Body resp))"

definition HttpPostJson :: "net \<Rightarrow> (string list \<Rightarrow> string list) \<Rightarrow> ('v \<Rightarrow> go_error + bytes) \<Rightarrow> (bytes \<Rightarrow> 'a \<Rightarrow> go_error option \<times> 'a) \<Rightarrow>
    string \<Rightarrow> 'v \<Rightarrow> HttpOptions \<Rightarrow> 'a \<Rightarrow> go_error option \<times> 'a" where
  "HttpPostJson n ord marshal unmarshal url data options resp =
     (case marshal data of
        Inl err \<Rightarrow> (Some err, resp)
      | Inr jsonBytes \<Rightarrow>
          (case HttpPost n ord url jsonBytes options of
             (_, Some err) \<Rightarrow> (Some err, resp)
           | (respBytes, None) \<Rightarrow> unmarshal respBytes resp))"

definition HttpGetJson :: "net \<Rightarrow> (string list \<Rightarrow> string list) \<Rightarrow> (bytes \<Rightarrow> 'a \<Rightarrow> go_error option \<times> 'a) \<Rightarrow>
    string \<Rightarrow> HttpOptions \<Rightarrow> 'a \<Rightarrow> go_error option \<times> 'a" where
  "HttpGetJson n ord unmarshal url options resp =
     (case HttpGet n ord url options of
        (_, Some err) \<Rightarrow> (Some err, resp)
      | (respBytes, None) \<Rightarrow> unmarshal respBytes resp)"

section \<open>WeChat\<close>

text \<open>The body of a reply, as \<^verbatim>\<open>gin.go\<close> declares it.\<close>

record ('c, 'd) ReplyDto =
  Code :: 'c
  Msg :: string
  Data :: 'd

record wxAuthResp =
  AccessToken :: string
  ExpiresIn :: go_int
  RefreshToken :: string
  OpenId :: string
  Scope :: string
  IsSnapshotUser :: go_int
  Unionid :: string

definition empty_auth :: wxAuthResp where
  "empty_auth = \<lparr>AccessToken = [], ExpiresIn = 0, RefreshToken = [], OpenId = [], Scope = [], IsSnapshotUser = 0, Unionid = []\<rparr>"

definition auth_link :: "string \<Rightarrow> string \<Rightarrow> string \<Rightarrow> string" where
  "auth_link appId appSecret code =
     ''https://api.weixin.qq.com/sns/oauth2/access_token?appid='' @ appId @ ''&secret='' @ appSecret @
     ''&code='' @ code @ ''&grant_type=authorization_code''"

definition GetWxOpenId :: "net \<Rightarrow> (string list \<Rightarrow> string list) \<Rightarrow> (bytes \<Rightarrow> wxAuthResp \<Rightarrow> go_error option \<times> wxAuthResp) \<Rightarrow>
    string \<Rightarrow> string \<Rightarrow> string \<Rightarrow> string \<times> go_error option" where
  "GetWxOpenId n ord unmarshal code appId appSecret =
     (case HttpGetJson n ord unmarshal (auth_link appId appSecret code) (NewHttpOptions []) empty_auth of
        (Some err, _) \<Rightarrow> ([], Some err)
      | (None, resp) \<Rightarrow> (OpenId resp, None))"

section \<open>Lemmas\<close>

text \<open>
  The two requests report no error exactly when the request could be made and sent, the status
  is 200 and the whole body was read; the bytes are then those of the body.
\<close>

definition delivered :: "net \<Rightarrow> int \<Rightarrow> request \<Rightarrow> bytes \<Rightarrow> bool" where
  "delivered n timeout req data \<longleftrightarrow>
     new_request n (req_method req) (req_url req) = None \<and>
     (\<exists>resp. do n timeout req = Inr resp \<and> StatusCode resp = 200 \<and> Body resp = (data, None))"

lemma HttpGet_ok_iff:
  "HttpGet n ord url options = (data, None) \<longleftrightarrow>
   delivered n (Timeout options) \<lparr>req_method = ''GET'', req_url = url, req_body = [], req_header = add_headers ord (Headers options)\<rparr> data"
  by (auto simp: HttpGet_def delivered_def split: option.splits sum.splits)

lemma HttpPost_ok_iff:
  "HttpPost n ord url body options = (data, None) \<longleftrightarrow>
   delivered n (Timeout options) \<lparr>req_method = ''POST'', req_url = url, req_body = body, req_header = add_headers ord (Headers options)\<rparr> data"
  by (auto simp: HttpPost_def delivered_def split: option.splits sum.splits)

text \<open>
  An answer of the service that reports an error with status 200 and has no \<^verbatim>\<open>openid\<close> is not
  noticed: the result is an empty id and no error.
\<close>

lemma GetWxOpenId_misses_error:
  assumes "HttpGet n ord (auth_link appId appSecret code) (NewHttpOptions []) = (data, None)"
    and "unmarshal data empty_auth = (None, empty_auth)"
  shows "GetWxOpenId n ord unmarshal code appId appSecret = ([], None)"
  using assms by (simp add: GetWxOpenId_def HttpGetJson_def empty_auth_def)

lemma json_headers: "set (Headers (NewHttpOptionsJson auth)) = {(''Authorization'', auth), (''Content-Type'', ContentTypeJson)}"
  by (auto simp: NewHttpOptionsJson_def Let_def HeaderAuthorization_def HeaderContentType_def)

end
