(* ===== verification/Hashes.thy ===== *)
theory Hashes
  imports Signing
begin

text \<open>
  The text hashes of \<^verbatim>\<open>encoding.go\<close>: MD5 (RFC 1321), which is defined here, and SHA-256, both
  written as lower-case hexadecimal text.
\<close>

section \<open>MD5\<close>

text \<open>The sines of the round numbers, scaled to 32 bits, and the rotations of the four rounds.\<close>

definition sines :: "32 word list" where
  "sines =
    [0xd76aa478, 0xe8c7b756, 0x242070db, 0xc1bdceee, 0xf57c0faf, 0x4787c62a, 0xa8304613, 0xfd469501,
     0x698098d8, 0x8b44f7af, 0xffff5bb1, 0x895cd7be, 0x6b901122, 0xfd987193, 0xa679438e, 0x49b40821,
     0xf61e2562, 0xc040b340, 0x265e5a51, 0xe9b6c7aa, 0xd62f105d, 0x02441453, 0xd8a1e681, 0xe7d3fbc8,
     0x21e1cde6, 0xc33707d6, 0xf4d50d87, 0x455a14ed, 0xa9e3e905, 0xfcefa3f8, 0x676f02d9, 0x8d2a4c8a,
     0xfffa3942, 0x8771f681, 0x6d9d6122, 0xfde5380c, 0xa4beea44, 0x4bdecfa9, 0xf6bb4b60, 0xbebfbc70,
     0x289b7ec6, 0xeaa127fa, 0xd4ef3085, 0x04881d05, 0xd9d4d039, 0xe6db99e5, 0x1fa27cf8, 0xc4ac5665,
     0xf4292244, 0x432aff97, 0xab9423a7, 0xfc93a039, 0x655b59c3, 0x8f0ccc92, 0xffeff47d, 0x85845dd1,
     0x6fa87e4f, 0xfe2ce6e0, 0xa3014314, 0x4e0811a1, 0xf7537e82, 0xbd3af235, 0x2ad7d2bb, 0xeb86d391]"

definition md5_rotations :: "nat list" where
  "md5_rotations = concat (map (\<lambda>r. concat (replicate 4 r)) [[7, 12, 17, 22], [5, 9, 14, 20], [4, 11, 16, 23], [6, 10, 15, 21]])"

definition rotl :: "nat \<Rightarrow> 32 word \<Rightarrow> 32 word" where
  "rotl n w = push_bit n w OR drop_bit (32 - n) w"

definition md5_mix :: "nat \<Rightarrow> 32 word \<Rightarrow> 32 word \<Rightarrow> 32 word \<Rightarrow> 32 word" where
  "md5_mix i x y z =
     (if i < 16 then x AND y OR NOT x AND z
      else if i < 32 then x AND z OR y AND NOT z
      else if i < 48 then x XOR y XOR z
      else y XOR (x OR NOT z))"

definition md5_word :: "nat \<Rightarrow> nat" where
  "md5_word i = (if i < 16 then i else if i < 32 then 5 * i + 1 else if i < 48 then 3 * i + 5 else 7 * i) mod 16"

definition md5_step :: "32 word list \<Rightarrow> 32 word \<times> 32 word \<times> 32 word \<times> 32 word \<Rightarrow> nat \<Rightarrow> 32 word \<times> 32 word \<times> 32 word \<times> 32 word" where
  "md5_step blk = (\<lambda>(a, b, c, d) i.
     (d, b + rotl (md5_rotations ! i) (a + md5_mix i b c d + blk ! md5_word i + sines ! i), b, c))"

definition le32 :: "bytes \<Rightarrow> 32 word" where
  "le32 bs = be32 (rev bs)"

fun le_words :: "bytes \<Rightarrow> 32 word list" where
  "le_words (a # b # c # d # rest) = le32 [a, b, c, d] # le_words rest"
| "le_words _ = []"

definition md5_block :: "32 word \<times> 32 word \<times> 32 word \<times> 32 word \<Rightarrow> bytes \<Rightarrow> 32 word \<times> 32 word \<times> 32 word \<times> 32 word" where
  "md5_block s blk =
     (let (a, b, c, d) = s; (a', b', c', d') = foldl (md5_step (le_words blk)) s [0..<64]
      in (a + a', b + b', c + c', d + d'))"

definition md5_padded :: "bytes \<Rightarrow> bytes" where
  "md5_padded m = m @ 0x80 # replicate ((119 - length m mod 64) mod 64) 0 @ rev (be64_bytes (of_nat (8 * length m)))"

definition md5 :: "bytes \<Rightarrow> bytes" where
  "md5 m =
     (let (a, b, c, d) = foldl md5_block (0x67452301, 0xefcdab89, 0x98badcfe, 0x10325476) (blocks (md5_padded m))
      in concat (map (rev \<circ> be32_bytes) [a, b, c, d]))"

section \<open>Hashes of texts\<close>

definition HashMd5 :: "string \<Rightarrow> string" where
  "HashMd5 str = (let data = string_bytes str; hash = md5 data in hex hash)"

definition HashSha256 :: "string \<Rightarrow> string" where
  "HashSha256 str = (let data = string_bytes str; hash = sha256 data in hex hash)"

lemma md5_length: "length (md5 m) = 16"
  by (simp add: md5_def be32_bytes_def comp_def split: prod.split)

lemma hash_lengths: "length (HashMd5 str) = 32" "length (HashSha256 str) = 64"
  by (simp_all add: HashMd5_def HashSha256_def Let_def hex_length md5_length)

end
