(* ===== verification/Pools.thy ===== *)
theory Pools
  imports Niu_Prelude
begin

text \<open>
  The pools of \<^verbatim>\<open>pool.go\<close>. A \<^verbatim>\<open>sync.Pool\<close> may hand out any item it holds, may forget items
  at any time and makes a new one when it hands out none: the choice is an argument of
  \<^verbatim>\<open>Get\<close>, the index of an item or \<open>None\<close>. A slice is its bytes and its capacity.
\<close>

record slice =
  elems :: bytes
  capacity :: nat

definition make_bytes :: "go_int \<Rightarrow> go_int \<Rightarrow> slice outcome" where
  "make_bytes sz cp =
     (if sint sz < 0 then Panic ''makeslice: len out of range''
      else if sint cp < sint sz then Panic ''makeslice: cap out of range''
      else Ret \<lparr>elems = replicate (nat (sint sz)) 0, capacity = nat (sint cp)\<rparr>)"

definition pool_get :: "'a outcome \<Rightarrow> nat option \<Rightarrow> 'a list \<Rightarrow> 'a outcome \<times> 'a list" where
  "pool_get new choice items =
     (case choice of
        Some i \<Rightarrow> if i < length items then (Ret (items ! i), take i items @ drop (Suc i) items) else (new, items)
      | None \<Rightarrow> (new, items))"

record BytePool =
  bp_new :: "slice outcome"
  bp_items :: "slice list"

definition NewBytePool :: "go_int \<Rightarrow> go_int \<Rightarrow> BytePool" where
  "NewBytePool sz cp = \<lparr>bp_new = make_bytes sz cp, bp_items = []\<rparr>"

definition BytePool_Get :: "nat option \<Rightarrow> BytePool \<Rightarrow> slice outcome \<times> BytePool" where
  "BytePool_Get choice p = (let (x, items) = pool_get (bp_new p) choice (bp_items p) in (x, p\<lparr>bp_items := items\<rparr>))"

definition BytePool_Put :: "slice \<Rightarrow> BytePool \<Rightarrow> BytePool" where
  "BytePool_Put s p = p\<lparr>bp_items := bp_items p @ [s\<lparr>elems := []\<rparr>]\<rparr>"

text \<open>A \<^verbatim>\<open>bytes.Buffer\<close> is its unread bytes; \<^verbatim>\<open>Reset\<close> empties it.\<close>

record ByteBufferPool =
  bb_new :: "bytes outcome"
  bb_items :: "bytes list"

definition NewByteBufferPool :: "go_int \<Rightarrow> go_int \<Rightarrow> ByteBufferPool" where
  "NewByteBufferPool sz cp =
     \<lparr>bb_new = (case make_bytes sz cp of Ret s \<Rightarrow> Ret (elems s) | Panic m \<Rightarrow> Panic m), bb_items = []\<rparr>"

definition Reset :: "bytes \<Rightarrow> bytes" where
  "Reset buf = []"

definition ByteBufferPool_Get :: "nat option \<Rightarrow> ByteBufferPool \<Rightarrow> bytes outcome \<times> ByteBufferPool" where
  "ByteBufferPool_Get choice p =
     (let (x, items) = pool_get (bb_new p) choice (bb_items p)
      in (case x of Ret buf \<Rightarrow> Ret (Reset buf) | Panic m \<Rightarrow> Panic m, p\<lparr>bb_items := items\<rparr>))"

definition ByteBufferPool_Put :: "bytes \<Rightarrow> ByteBufferPool \<Rightarrow> ByteBufferPool" where
  "ByteBufferPool_Put buf p = p\<lparr>bb_items := bb_items p @ [Reset buf]\<rparr>"

text \<open>A new slice has the length asked for, one that was used before is empty.\<close>

lemma BytePool_lengths:
  assumes "0 \<le> sint sz" and "sint sz \<le> sint cp"
  shows "\<exists>s p. BytePool_Get None (NewBytePool sz cp) = (Ret s, p) \<and> length (elems s) = nat (sint sz) \<and>
    (\<exists>t. fst (BytePool_Get (Some 0) (BytePool_Put s p)) = Ret t \<and> elems t = [])"
  using assms by (simp add: BytePool_Get_def BytePool_Put_def NewBytePool_def make_bytes_def pool_get_def)

lemma ByteBufferPool_empty: "fst (ByteBufferPool_Get choice p) = Ret buf \<Longrightarrow> buf = []"
  by (auto simp: ByteBufferPool_Get_def Reset_def split: prod.splits outcome.splits)

end
