(* ===== verification/Signals.thy ===== *)
theory Signals
  imports Machines
begin

text \<open>
  \<^verbatim>\<open>WaitSysSignal\<close> of \<^verbatim>\<open>signals.go\<close> as a machine. The events are the arrival of a signal, the
  receive from the channel and the cleanup with the exit after it. Only the two signals given to
  \<^verbatim>\<open>signal.Notify\<close> are events: any other keeps the action the operating system has for it.
\<close>

datatype signal = SIGINT | SIGTERM

text \<open>The signal as \<^verbatim>\<open>%v\<close> prints it.\<close>

fun signal_String :: "signal \<Rightarrow> string" where
  "signal_String SIGINT = ''interrupt''"
| "signal_String SIGTERM = ''terminated''"

datatype wait_pc = Waiting | CleaningUp | Exited int

text \<open>
  \<open>sigChan\<close> has room for one signal; \<open>printed\<close> are the lines written to the standard output;
  \<open>world\<close> is what the cleanup works on.
\<close>

record 'w waiter =
  sigChan :: "signal option"
  wait_pc :: wait_pc
  printed :: "string list"
  world :: 'w

datatype wait_event = Arrive signal | Receive | Cleanup

definition start_wait :: "'w \<Rightarrow> 'w waiter" where
  "start_wait w = \<lparr>sigChan = None, wait_pc = Waiting, printed = [], world = w\<rparr>"

text \<open>\<^verbatim>\<open>signal.Notify\<close> does not wait for room: a signal that finds the channel full is dropped.\<close>

definition notify :: "signal \<Rightarrow> 'w waiter \<Rightarrow> 'w waiter" where
  "notify sig s = (case sigChan s of None \<Rightarrow> s\<lparr>sigChan := Some sig\<rparr> | Some _ \<Rightarrow> s)"

fun WaitSysSignal :: "('w \<Rightarrow> 'w) \<Rightarrow> wait_event \<Rightarrow> 'w waiter \<Rightarrow> 'w waiter option" where
  "WaitSysSignal cleanup (Arrive sig) s =
     (case wait_pc s of Exited _ \<Rightarrow> None | _ \<Rightarrow> Some (notify sig s))"
| "WaitSysSignal cleanup Receive s =
     (case (wait_pc s, sigChan s) of
        (Waiting, Some sig) \<Rightarrow>
          Some (s\<lparr>sigChan := None, printed := printed s @ [''Receive system signal: '' @ signal_String sig],
            wait_pc := CleaningUp\<rparr>)
      | _ \<Rightarrow> None)"
| "WaitSysSignal cleanup Cleanup s =
     (if wait_pc s = CleaningUp then Some (s\<lparr>world := cleanup (world s), wait_pc := Exited 0\<rparr>) else None)"

section \<open>One cleanup\<close>

text \<open>After the first signal \<open>sig\<close>: it waits in the channel or has been reported, the cleanup ran or not.\<close>

definition serving :: "('w \<Rightarrow> 'w) \<Rightarrow> signal \<Rightarrow> 'w \<Rightarrow> 'w waiter \<Rightarrow> bool" where
  "serving cleanup sig w s \<longleftrightarrow>
     (case wait_pc s of
        Waiting \<Rightarrow> sigChan s = Some sig \<and> printed s = [] \<and> world s = w
      | CleaningUp \<Rightarrow> printed s = [''Receive system signal: '' @ signal_String sig] \<and> world s = w
      | Exited c \<Rightarrow> c = 0 \<and> printed s = [''Receive system signal: '' @ signal_String sig] \<and> world s = cleanup w)"

lemma serving_step: "WaitSysSignal cleanup e s = Some t \<Longrightarrow> serving cleanup sig w s \<Longrightarrow> serving cleanup sig w t"
  by (cases e) (auto simp: serving_def notify_def split: wait_pc.splits option.splits if_splits)

interpretation serve_signal: step_always "WaitSysSignal cleanup" "serving cleanup sig w" for cleanup sig w
  by unfold_locales (rule serving_step)

lemma serving_start: "WaitSysSignal cleanup (Arrive sig) (start_wait w) = Some s \<Longrightarrow> serving cleanup sig w s"
  by (auto simp: start_wait_def notify_def serving_def)

lemma serving_run:
  assumes "fires (WaitSysSignal cleanup) (Arrive sig # es) (start_wait w) = Some s"
  shows "serving cleanup sig w s"
proof -
  from assms obtain t where t: "WaitSysSignal cleanup (Arrive sig) (start_wait w) = Some t"
    and s: "fires (WaitSysSignal cleanup) es t = Some s" unfolding fires_Cons_Some by blast
  show ?thesis by (rule serve_signal.run_always [OF s serving_start [OF t]])
qed

text \<open>
  The first signal ends the program: it is the one reported, the cleanup runs exactly once and is
  not interrupted by later signals, and the status is 0.
\<close>

lemma signal_cleans_up_once:
  assumes "fires (WaitSysSignal cleanup) (Arrive sig # es) (start_wait w) = Some s" and "wait_pc s = Exited c"
  shows "c = 0 \<and> world s = cleanup w \<and> printed s = [''Receive system signal: '' @ signal_String sig]"
  using serving_run [OF assms(1)] assms(2) by (simp add: serving_def)

text \<open>Whatever signals have come, the program can go on to its exit with status 0.\<close>

lemma signal_exit_reached:
  assumes "fires (WaitSysSignal cleanup) (Arrive sig # es) (start_wait w) = Some s"
  shows "\<exists>fs t. fires (WaitSysSignal cleanup) fs s = Some t \<and> wait_pc t = Exited 0 \<and> set fs \<subseteq> {Receive, Cleanup}"
proof -
  note ok = serving_run [OF assms]
  show ?thesis
  proof (cases "wait_pc s")
    case Waiting
    then show ?thesis using ok by (intro exI [of _ "[Receive, Cleanup]"]) (auto simp: serving_def)
  next
    case CleaningUp
    then show ?thesis by (intro exI [of _ "[Cleanup]"]) auto
  next
    case (Exited c)
    then show ?thesis using ok by (intro exI [of _ "[]"]) (auto simp: serving_def)
  qed
qed

end
