(* ===== verification/Spec2Isabelle.thy ===== *)
theory Spec2Isabelle
  imports Collections Packet Hub_Delivery Hub_Buffers Hub_Races Slices Validation Redis_Locks Cache
    Message_Queue Times Rate_Limit Http Hashes Pools Signals
begin

text \<open>
  This development models the Go library \<^verbatim>\<open>niu\<close>, a collection of building blocks for servers, and
  proves what its parts promise, or shows where they do not keep it. The parts call each other
  little: the hub uses the buffer pool and an interface to start goroutines, the packet protocol a
  signer, a cryptor and a marshaler, the cryptors and signers the base64 functions, the lock, the id
  generators, the cache and the message queue a Redis server, the time functions the padding of
  texts. Where one part relies on another the interface is a record of operations or a locale with
  its laws, interpreted on the modelled operations.

  \<^bold>\<open>Conventions\<close> (\<open>Niu_Prelude\<close>). Integers are words of the width of the Go type where wrap-around or
  overflow can matter, otherwise \<^typ>\<open>int\<close>. An error is a value of \<open>go_error\<close>; a function that can fail
  returns a sum or a \<open>call\<close>, a panic is a value too (\<open>Panic\<close>, \<open>Panics\<close>). Go maps are association lists;
  the order of iteration is an argument of which only \<open>iteration_order\<close> is known. Clocks, random
  numbers, the network, Redis and third-party packages are arguments; what is relied on is stated as a
  law about the argument (\<open>redis_laws\<close>, the locales \<open>signing_pair\<close> and \<open>crypting_pair\<close>).

  \<^bold>\<open>Collections\<close>. \<open>Collection_Spec\<close>: nodes on a heap, sequences of calls (\<open>run\<close>), and the locale \<open>collection\<close>,
  which says that a representation simulates an abstract collection. \<open>Fast_Queue\<close>, \<open>Fast_Stack\<close>, \<open>Hash_Set\<close>
  model \<^verbatim>\<open>collection_queue.go\<close>, \<^verbatim>\<open>collection_stack.go\<close>, \<^verbatim>\<open>collection_set.go\<close>, one definition per
  method, and interpret it: under every sequence of calls they behave as a list used at both ends, a
  list used at one end, and a set. Methods are atomic because each holds the mutex of its object. Loops
  over linked nodes are partial functions; that \<^verbatim>\<open>Print\<close> ends is a lemma. \<open>Collections\<close> has the interface
  of \<^verbatim>\<open>collection.go\<close>: the locale \<open>go_collection\<close>, interpreted for the three.

  \<^bold>\<open>Snowflake\<close>. \<open>Snowflake_Id\<close> models \<^verbatim>\<open>snowflake.go\<close> on 64-bit words; the readings of the clock are
  a list, and \<open>None\<close> means that the list ended while \<^verbatim>\<open>Next\<close> was waiting. Ids increase and are distinct
  when the clock does not go back, read back as worker and second, and \<^verbatim>\<open>Next\<close> returns as soon as the
  clock moves on. \<^verbatim>\<open>GetGenTime\<close> is in \<open>Times\<close>.

  \<^bold>\<open>Encodings, hashes, keys, packets\<close>. \<open>Encoding\<close> (base64, random bytes), \<open>Sha256\<close> and \<open>Hashes\<close> (SHA-256,
  HMAC, hexadecimal, MD5) and \<open>Aes_Gcm\<close> are executable models of what the library uses of Go's packages;
  \<open>Signing\<close> (\<^verbatim>\<open>signer.go\<close>), \<open>Crypting\<close> (\<^verbatim>\<open>crypto.go\<close>), \<open>Marshalers\<close> (\<^verbatim>\<open>marshaler.go\<close>) and \<open>Packet\<close>
  (\<^verbatim>\<open>bytes_packet.go\<close>) the code on top of them. Ed25519, X25519, RSA and the packages for JSON and
  MessagePack are parameters; the law relied on is \<open>package_laws\<close>. The theorems are round trips over the
  composed stack, that only signed packets are decoded, and what the response format loses.

  \<^bold>\<open>Hub\<close> (\<^verbatim>\<open>hub.go\<close>). \<open>Hub_Lines\<close> has the methods of \<^verbatim>\<open>UserLines\<close> as functions on a list of lines and what
  they send; the locales \<open>closing\<close> and \<open>pushing\<close> say what closing and pushing methods have in common, one
  interpretation per method. \<open>Hub_Steps\<close> is the whole hub as a machine: its state has a program counter
  for each goroutine (two per connection, registering, unregistering, idle check, callers), channels with
  their contents and whether they are nil, open or closed, locks and pooled buffers; an event is one
  step of one goroutine between two points where goroutines meet. \<open>Hub_Safety\<close> has the facts about
  steps and the invariants of the lists, \<open>Hub_Buffers\<close> who owns a read buffer, \<open>Hub_Delivery\<close> ordering of delivery, unregistering and the life of channels,
  \<open>Hub_Races\<close> runs that end in a panic, a deadlock, a lost line or a changed message.

  \<^bold>\<open>Redis\<close>. \<open>Redis_Locks\<close>: \<^verbatim>\<open>distribute_locker.go\<close>, \<^verbatim>\<open>retry-strategy.go\<close>, \<^verbatim>\<open>distribute_id.go\<close> on a record of
  commands. The retry loop is a total function, because every turn moves time towards the deadline.
  \<open>Cache\<close>: every method of \<^verbatim>\<open>cache.go\<close>; commands are data, so that it can be said which server gets which
  command. \<open>Message_Queue\<close>: \<^verbatim>\<open>message_queue.go\<close> as a machine in the sense of \<open>Machines\<close>, whose locale
  \<open>step_invariant\<close>, with its sublocale \<open>step_always\<close>, carries invariants from steps to runs, for the hub
  and for \<open>Signals\<close> too; here it is interpreted for the acknowledgements, the
  signal of \<^verbatim>\<open>Close\<close>, the subscribers it leaves behind and the \<^verbatim>\<open>Close\<close> that waits for ever.

  \<^bold>\<open>Other functions\<close>. \<open>Slices\<close> (\<^verbatim>\<open>slice.go\<close>), \<open>Texts\<close> (\<^verbatim>\<open>strs.go\<close>, \<^verbatim>\<open>uuid.go\<close>), \<open>Validation\<close>
  (\<^verbatim>\<open>strs_validation.go\<close>, \<^verbatim>\<open>platform.go\<close>; regular expressions by derivatives), \<open>Calendar\<close> and \<open>Times\<close>
  (\<^verbatim>\<open>time.go\<close> on a model of the civil calendar, of \<^verbatim>\<open>time.Date\<close> with locations, and of rounding to 53 bits),
  \<open>Rate_Limit\<close> (\<^verbatim>\<open>rate-limter.go\<close>, \<^verbatim>\<open>ip.go\<close>), \<open>Http\<close> (\<^verbatim>\<open>http.go\<close>, \<^verbatim>\<open>third_wx.go\<close>), \<open>Pools\<close> (\<^verbatim>\<open>pool.go\<close>),
  \<open>Signals\<close> (\<^verbatim>\<open>signals.go\<close>: the first signal is reported, the cleanup runs once, the status is 0).

  \<^bold>\<open>Bounds and fuel\<close>. No definition runs on fuel; loops are structural, have a measure, or are partial
  functions with a lemma that they end. The theorems about dates hold for locations with one offset;
  numbers of years and durations are unbounded integers, except that \<^verbatim>\<open>Sub\<close> saturates.

  \<^bold>\<open>Not modelled\<close>. The packages behind the marshalers, the websocket, the Redis server and the network
  (parameters); log lines, except that of \<^verbatim>\<open>WaitSysSignal\<close>; \<^verbatim>\<open>metrics.go\<close> is empty. The getters of \<^verbatim>\<open>Line\<close>
  are its record's fields. A cleanup that never returns keeps \<^verbatim>\<open>WaitSysSignal\<close> before its last event.
  Data races below the level of a step (torn reads of fields written without a lock) are outside the
  model: a step reads and writes the fields it names at once.
\<close>

end
